theory Spec2Isabelle
  imports Complex_Main "HOL-Library.Word" "HOL-Library.Log_Nat"
begin

unbundle bit_operations_syntax

section \<open>The platform: errors, numbers, typed arrays and DataView\<close>

text \<open>
  Exceptions of the JavaScript platform, as values. \<open>RangeError\<close> is what a
  \<^verbatim>\<open>DataView\<close> getter throws for an offset outside the buffer and what
  \<^verbatim>\<open>new Array(n)\<close> throws for an \<open>n\<close> that is not an array length;
  \<open>TypeError\<close> is what a property access on \<^verbatim>\<open>undefined\<close> throws;
  \<open>NetworkError\<close> is a rejected \<^verbatim>\<open>fetch\<close>.
\<close>

datatype error = RangeError | TypeError | NetworkError

type_synonym byte = "8 word"

text \<open>
  A JavaScript \<^verbatim>\<open>number\<close> is a binary64 float. The decoder's arithmetic is
  kept abstract: the record \<open>arith\<close> holds the operations of the platform on the
  type \<open>'n\<close> of numbers, and every function of the decoder takes it as its first argument.
  A theorem stated for an arbitrary \<open>A\<close> holds whatever the rounding, the infinities and
  the NaN of the platform do.

  \<^item> \<open>number\<close>: the number of an integer (exact up to \<open>2^53\<close>);
  \<^item> \<open>fadd\<close>, \<open>fsub\<close>, \<open>fmul\<close>, \<open>fdiv\<close>: \<^verbatim>\<open>+ - * /\<close>;
  \<^item> \<open>math_min\<close>: \<^verbatim>\<open>Math.min\<close>;
  \<^item> \<open>fround\<close>: the value an element of a \<^verbatim>\<open>Float32Array\<close> holds after a store;
  \<^item> \<open>to_uint8\<close>: the value an element of a \<^verbatim>\<open>Uint8Array\<close> holds after a store;
  \<^item> \<open>array_index\<close>: the element a number names when it is used as the key of a typed
    array, \<open>None\<close> when it is not a non-negative integer;
  \<^item> \<open>f32_bits\<close>, \<open>f64_bits\<close>: the number an IEEE bit pattern encodes;
  \<^item> \<open>nan\<close>: \<^verbatim>\<open>NaN\<close>, the number of \<^verbatim>\<open>undefined\<close>;
  \<^item> \<open>pos_infinity\<close>, \<open>neg_infinity\<close>: \<^verbatim>\<open>Infinity\<close> and \<^verbatim>\<open>-Infinity\<close>.
\<close>

record 'n arith =
  number :: "int \<Rightarrow> 'n"
  fadd :: "'n \<Rightarrow> 'n \<Rightarrow> 'n"
  fsub :: "'n \<Rightarrow> 'n \<Rightarrow> 'n"
  fmul :: "'n \<Rightarrow> 'n \<Rightarrow> 'n"
  fdiv :: "'n \<Rightarrow> 'n \<Rightarrow> 'n"
  math_min :: "'n \<Rightarrow> 'n \<Rightarrow> 'n"
  fround :: "'n \<Rightarrow> 'n"
  to_uint8 :: "'n \<Rightarrow> byte"
  array_index :: "'n \<Rightarrow> nat option"
  f32_bits :: "32 word \<Rightarrow> 'n"
  f64_bits :: "64 word \<Rightarrow> 'n"
  nan :: "'n"
  pos_infinity :: "'n"
  neg_infinity :: "'n"

subsection \<open>The binary64 instance of the arithmetic\<close>

text \<open>
  \<open>xnum\<close> is the set of binary64 values: a finite real (\<open>Fin 0\<close> is \<open>+0\<close>), the
  negative zero, the two infinities and NaN. The operations compute the exact real result
  and round it to the nearest number of the format, ties to the even mantissa, with
  gradual underflow and overflow to an infinity, as IEEE 754 and ECMAScript prescribe.
  A store into a \<^verbatim>\<open>Float32Array\<close> rounds the same way to binary32.
\<close>

datatype xnum = Fin real | NZero | PInf | NInf | NaN

definition pow2 :: "int \<Rightarrow> real" where
  "pow2 e = (if 0 \<le> e then 2 ^ nat e else 1 / 2 ^ nat (- e))"

text \<open>
  The exponent of the binade of a real \<open>x \<noteq> 0\<close>: the \<open>e\<close> with
  \<open>2^e \<le> \<bar>x\<bar> < 2^(e+1)\<close>, from the bit length of an integer part.
\<close>

definition binexp :: "real \<Rightarrow> int" where
  "binexp x = (if 1 \<le> \<bar>x\<bar> then bitlen \<lfloor>\<bar>x\<bar>\<rfloor> - 1 else - bitlen (\<lceil>1 / \<bar>x\<bar>\<rceil> - 1))"

text \<open>The nearest integer, the even one of two that are equally near.\<close>

definition rte :: "real \<Rightarrow> int" where
  "rte x = (let f = \<lfloor>x\<rfloor>; d = x - of_int f
            in if d < 1 / 2 then f else if 1 / 2 < d then f + 1
               else if even f then f else f + 1)"

text \<open>
  Rounding to \<open>p\<close> bits of mantissa with the least exponent \<open>emin\<close>: the last place of
  \<open>x\<close> has the exponent \<open>q\<close>, and \<open>x\<close> is rounded to a multiple of \<open>2^q\<close>. \<open>rnd\<close>
  also gives the infinity for a result beyond the largest exponent \<open>emax\<close>, and the
  zero of the sign of \<open>x\<close> for a result that vanishes.
\<close>

definition round_to :: "nat \<Rightarrow> int \<Rightarrow> real \<Rightarrow> real" where
  "round_to p emin x =
     (let q = max (binexp x) emin - int p + 1
      in of_int (rte (x / pow2 q)) * pow2 q)"

definition rnd :: "nat \<Rightarrow> int \<Rightarrow> int \<Rightarrow> real \<Rightarrow> xnum" where
  "rnd p emin emax x =
     (let y = round_to p emin x
      in if pow2 (emax + 1) \<le> \<bar>y\<bar> then (if 0 < x then PInf else NInf)
         else if y = 0 then (if x < 0 then NZero else Fin 0)
         else Fin y)"

definition round64 :: "real \<Rightarrow> xnum" where
  "round64 = rnd 53 (- 1022) 1023"

definition round32 :: "real \<Rightarrow> xnum" where
  "round32 = rnd 24 (- 126) 127"

text \<open>The value of a finite number, its sign bit, and the zero and infinity of a sign.\<close>

fun finite_value :: "xnum \<Rightarrow> real option" where
  "finite_value (Fin a) = Some a"
| "finite_value NZero = Some 0"
| "finite_value _ = None"

fun is_neg :: "xnum \<Rightarrow> bool" where
  "is_neg (Fin a) = (a < 0)"
| "is_neg NZero = True"
| "is_neg NInf = True"
| "is_neg _ = False"

definition zero_of :: "bool \<Rightarrow> xnum" where
  "zero_of s = (if s then NZero else Fin 0)"

definition inf_of :: "bool \<Rightarrow> xnum" where
  "inf_of s = (if s then NInf else PInf)"

text \<open>
  Negation, \<^verbatim>\<open>+\<close>, \<^verbatim>\<open>-\<close>, \<^verbatim>\<open>*\<close>, \<^verbatim>\<open>/\<close> and \<^verbatim>\<open>Math.min\<close>. An exact sum
  that is zero is \<open>+0\<close> unless both terms are negative zeros; a product or quotient that
  is zero has the sign of its operands; \<^verbatim>\<open>Math.min\<close> takes \<open>-0\<close> below \<open>+0\<close>.
\<close>

fun xneg :: "xnum \<Rightarrow> xnum" where
  "xneg (Fin a) = (if a = 0 then NZero else Fin (- a))"
| "xneg NZero = Fin 0"
| "xneg PInf = NInf"
| "xneg NInf = PInf"
| "xneg NaN = NaN"

definition xadd :: "xnum \<Rightarrow> xnum \<Rightarrow> xnum" where
  "xadd a b =
     (case (finite_value a, finite_value b) of
        (Some x, Some y) \<Rightarrow>
          if x + y = 0 then zero_of (is_neg a \<and> is_neg b) else round64 (x + y)
      | (Some x, None) \<Rightarrow> b
      | (None, Some y) \<Rightarrow> a
      | (None, None) \<Rightarrow> if a = b then a else NaN)"

definition xsub :: "xnum \<Rightarrow> xnum \<Rightarrow> xnum" where
  "xsub a b = xadd a (xneg b)"

definition xmul :: "xnum \<Rightarrow> xnum \<Rightarrow> xnum" where
  "xmul a b =
     (if a = NaN \<or> b = NaN then NaN
      else case (finite_value a, finite_value b) of
        (Some x, Some y) \<Rightarrow>
          if x * y = 0 then zero_of (is_neg a \<noteq> is_neg b) else round64 (x * y)
      | (Some x, None) \<Rightarrow> if x = 0 then NaN else inf_of (is_neg a \<noteq> is_neg b)
      | (None, Some y) \<Rightarrow> if y = 0 then NaN else inf_of (is_neg a \<noteq> is_neg b)
      | (None, None) \<Rightarrow> inf_of (is_neg a \<noteq> is_neg b))"

definition xdiv :: "xnum \<Rightarrow> xnum \<Rightarrow> xnum" where
  "xdiv a b =
     (if a = NaN \<or> b = NaN then NaN
      else case (finite_value a, finite_value b) of
        (Some x, Some y) \<Rightarrow>
          if y = 0 then (if x = 0 then NaN else inf_of (is_neg a \<noteq> is_neg b))
          else if x = 0 then zero_of (is_neg a \<noteq> is_neg b)
          else round64 (x / y)
      | (Some x, None) \<Rightarrow> zero_of (is_neg a \<noteq> is_neg b)
      | (None, Some y) \<Rightarrow> inf_of (is_neg a \<noteq> is_neg b)
      | (None, None) \<Rightarrow> NaN)"

definition xmin :: "xnum \<Rightarrow> xnum \<Rightarrow> xnum" where
  "xmin a b =
     (if a = NaN \<or> b = NaN then NaN
      else if a = NInf \<or> b = NInf then NInf
      else if a = PInf then b
      else if b = PInf then a
      else case (finite_value a, finite_value b) of
        (Some x, Some y) \<Rightarrow> if x < y then a else if y < x then b
                            else if is_neg a then a else b
      | _ \<Rightarrow> NaN)"

text \<open>The value an element of a \<^verbatim>\<open>Float32Array\<close> holds after a store.\<close>

fun xfround :: "xnum \<Rightarrow> xnum" where
  "xfround (Fin a) = round32 a"
| "xfround v = v"

text \<open>A store into a \<^verbatim>\<open>Uint8Array\<close>: truncate towards zero, then wrap modulo 256.\<close>

fun xto_uint8 :: "xnum \<Rightarrow> 8 word" where
  "xto_uint8 (Fin q) = word_of_int (if 0 \<le> q then \<lfloor>q\<rfloor> else \<lceil>q\<rceil>)"
| "xto_uint8 _ = 0"

text \<open>
  A number as the key of a typed array: the element of that index when the number is a
  non-negative integer (the key of \<open>-0\<close> is \<^verbatim>\<open>"0"\<close>), no element otherwise.
\<close>

fun xarray_index :: "xnum \<Rightarrow> nat option" where
  "xarray_index (Fin q) = (if 0 \<le> q \<and> of_int \<lfloor>q\<rfloor> = q then Some (nat \<lfloor>q\<rfloor>) else None)"
| "xarray_index NZero = Some 0"
| "xarray_index _ = None"

text \<open>
  The value of an IEEE bit pattern with \<open>mbits\<close> mantissa bits and \<open>ebits\<close> exponent
  bits, given as the unsigned integer \<open>w\<close>.
\<close>

definition ieee_value :: "nat \<Rightarrow> nat \<Rightarrow> nat \<Rightarrow> xnum" where
  "ieee_value mbits ebits w =
     (let m = w mod 2 ^ mbits;
          e = (w div 2 ^ mbits) mod 2 ^ ebits;
          neg = (w div 2 ^ (mbits + ebits)) mod 2 = 1;
          bias = 2 ^ (ebits - 1) - 1;
          sgn = (if neg then xneg else (\<lambda>v. v))
      in if e = 2 ^ ebits - 1 then (if m = 0 then sgn PInf else NaN)
         else if e = 0 then sgn (Fin (of_nat m * pow2 (1 - int bias - int mbits)))
         else sgn (Fin (of_nat (2 ^ mbits + m) * pow2 (int e - int bias - int mbits))))"

definition binary64 :: "xnum arith" where
  "binary64 = \<lparr> number = (\<lambda>i. round64 (of_int i)), fadd = xadd, fsub = xsub, fmul = xmul,
                fdiv = xdiv, math_min = xmin, fround = xfround, to_uint8 = xto_uint8,
                array_index = xarray_index,
                f32_bits = (\<lambda>w. ieee_value 23 8 (unat w)),
                f64_bits = (\<lambda>w. ieee_value 52 11 (unat w)),
                nan = NaN, pos_infinity = PInf, neg_infinity = NInf \<rparr>"

subsection \<open>DataView\<close>

text \<open>
  A \<^verbatim>\<open>DataView\<close> over an \<^verbatim>\<open>ArrayBuffer\<close> is the list of its bytes. Each getter
  throws \<open>RangeError\<close> when the bytes it reads do not lie inside the buffer. All
  multi-byte reads of the sources pass \<^verbatim>\<open>littleEndian = true\<close>.
\<close>

definition getUint8 :: "byte list \<Rightarrow> nat \<Rightarrow> error + 8 word" where
  "getUint8 view off =
     (if off + 1 \<le> length view then Inr (view ! off) else Inl RangeError)"

definition getUint16 :: "byte list \<Rightarrow> nat \<Rightarrow> error + 16 word" where
  "getUint16 view off =
     (if off + 2 \<le> length view
      then Inr (word_of_nat (unat (view ! off) + 256 * unat (view ! (off + 1))))
      else Inl RangeError)"

definition getUint32 :: "byte list \<Rightarrow> nat \<Rightarrow> error + 32 word" where
  "getUint32 view off =
     (if off + 4 \<le> length view
      then Inr (word_of_nat (unat (view ! off) + 256 * unat (view ! (off + 1))
                  + 65536 * unat (view ! (off + 2)) + 16777216 * unat (view ! (off + 3))))
      else Inl RangeError)"

definition getUint64 :: "byte list \<Rightarrow> nat \<Rightarrow> error + 64 word" where
  "getUint64 view off =
     (if off + 8 \<le> length view
      then Inr (word_of_nat (unat (view ! off) + 256 * unat (view ! (off + 1))
                  + 65536 * unat (view ! (off + 2)) + 16777216 * unat (view ! (off + 3))
                  + 4294967296 * unat (view ! (off + 4))
                  + 1099511627776 * unat (view ! (off + 5))
                  + 281474976710656 * unat (view ! (off + 6))
                  + 72057594037927936 * unat (view ! (off + 7))))
      else Inl RangeError)"

text \<open>
  The signed getters read the same bits as two's complement.
  \<^verbatim>\<open>getBigInt64\<close> returns the signed value as an unbounded integer.
\<close>

definition getBigInt64 :: "byte list \<Rightarrow> nat \<Rightarrow> error + int" where
  "getBigInt64 view off =
     (case getUint64 view off of Inl e \<Rightarrow> Inl e | Inr w \<Rightarrow> Inr (sint w))"

text \<open>Mapping the value of a read, keeping its error.\<close>

definition read_as :: "('a \<Rightarrow> 'b) \<Rightarrow> error + 'a \<Rightarrow> error + 'b" where
  "read_as f r = (case r of Inl e \<Rightarrow> Inl e | Inr v \<Rightarrow> Inr (f v))"

definition getInt8 :: "byte list \<Rightarrow> nat \<Rightarrow> error + int" where
  "getInt8 view off = read_as sint (getUint8 view off)"

definition getInt16 :: "byte list \<Rightarrow> nat \<Rightarrow> error + int" where
  "getInt16 view off = read_as sint (getUint16 view off)"

definition getInt32 :: "byte list \<Rightarrow> nat \<Rightarrow> error + int" where
  "getInt32 view off = read_as sint (getUint32 view off)"

definition getFloat32 :: "'n arith \<Rightarrow> byte list \<Rightarrow> nat \<Rightarrow> error + 'n" where
  "getFloat32 A view off = read_as (f32_bits A) (getUint32 view off)"

definition getFloat64 :: "'n arith \<Rightarrow> byte list \<Rightarrow> nat \<Rightarrow> error + 'n" where
  "getFloat64 A view off = read_as (f64_bits A) (getUint64 view off)"

text \<open>
  A \<^verbatim>\<open>for (let j = 0; j < n; j++)\<close> loop whose body may throw: the body runs on
  \<open>[0..<n]\<close> in order and the first exception ends the loop.
\<close>

fun iterate :: "nat list \<Rightarrow> (nat \<Rightarrow> 's \<Rightarrow> error + 's) \<Rightarrow> 's \<Rightarrow> error + 's" where
  "iterate [] body s = Inr s"
| "iterate (j # js) body s =
     (case body j s of Inl e \<Rightarrow> Inl e | Inr s' \<Rightarrow> iterate js body s')"

section \<open>The point decoder (\<^verbatim>\<open>decoder-worker-internal.ts\<close>)\<close>

subsection \<open>Schema and message\<close>

text \<open>
  The ten numeric kinds of \<^verbatim>\<open>PointAttributeTypes\<close>; \<open>type_name\<close> and
  \<open>type_size\<close> are the \<^verbatim>\<open>name\<close> and \<^verbatim>\<open>size\<close> fields of the table.
\<close>

datatype scalar_kind =
  DATA_TYPE_DOUBLE | DATA_TYPE_FLOAT | DATA_TYPE_INT8 | DATA_TYPE_UINT8 | DATA_TYPE_INT16
| DATA_TYPE_UINT16 | DATA_TYPE_INT32 | DATA_TYPE_UINT32 | DATA_TYPE_INT64 | DATA_TYPE_UINT64

fun type_name :: "scalar_kind \<Rightarrow> string" where
  "type_name DATA_TYPE_DOUBLE = ''double''"
| "type_name DATA_TYPE_FLOAT = ''float''"
| "type_name DATA_TYPE_INT8 = ''int8''"
| "type_name DATA_TYPE_UINT8 = ''uint8''"
| "type_name DATA_TYPE_INT16 = ''int16''"
| "type_name DATA_TYPE_UINT16 = ''uint16''"
| "type_name DATA_TYPE_INT32 = ''int32''"
| "type_name DATA_TYPE_UINT32 = ''uint32''"
| "type_name DATA_TYPE_INT64 = ''int64''"
| "type_name DATA_TYPE_UINT64 = ''uint64''"

fun type_size :: "scalar_kind \<Rightarrow> nat" where
  "type_size DATA_TYPE_DOUBLE = 8"
| "type_size DATA_TYPE_FLOAT = 4"
| "type_size DATA_TYPE_INT8 = 1"
| "type_size DATA_TYPE_UINT8 = 1"
| "type_size DATA_TYPE_INT16 = 2"
| "type_size DATA_TYPE_UINT16 = 2"
| "type_size DATA_TYPE_INT32 = 4"
| "type_size DATA_TYPE_UINT32 = 4"
| "type_size DATA_TYPE_INT64 = 8"
| "type_size DATA_TYPE_UINT64 = 8"

text \<open>The storage class of the precise buffer, \<^verbatim>\<open>typedArrayMapping\<close>.\<close>

datatype array_class =
  Int8Array | Int16Array | Int32Array | Uint8Array | Uint16Array | Uint32Array
| Float32Array | Float64Array

fun typedArrayMapping :: "scalar_kind \<Rightarrow> array_class" where
  "typedArrayMapping DATA_TYPE_INT8 = Int8Array"
| "typedArrayMapping DATA_TYPE_INT16 = Int16Array"
| "typedArrayMapping DATA_TYPE_INT32 = Int32Array"
| "typedArrayMapping DATA_TYPE_INT64 = Float64Array"
| "typedArrayMapping DATA_TYPE_UINT8 = Uint8Array"
| "typedArrayMapping DATA_TYPE_UINT16 = Uint16Array"
| "typedArrayMapping DATA_TYPE_UINT32 = Uint32Array"
| "typedArrayMapping DATA_TYPE_UINT64 = Float64Array"
| "typedArrayMapping DATA_TYPE_FLOAT = Float32Array"
| "typedArrayMapping DATA_TYPE_DOUBLE = Float64Array"

text \<open>
  \<^verbatim>\<open>getterMap[pointAttribute.type.name].bind(view)\<close>: the getter of a kind, bound to
  the view, as a function of the byte offset. The entries of \<^verbatim>\<open>int64\<close> and
  \<^verbatim>\<open>uint64\<close> are commented out in the source, so the map has no getter for them.
\<close>

fun getterMap :: "'n arith \<Rightarrow> byte list \<Rightarrow> scalar_kind \<Rightarrow> (nat \<Rightarrow> error + 'n) option" where
  "getterMap A view DATA_TYPE_INT8 = Some (\<lambda>off. read_as (number A) (getInt8 view off))"
| "getterMap A view DATA_TYPE_INT16 = Some (\<lambda>off. read_as (number A) (getInt16 view off))"
| "getterMap A view DATA_TYPE_INT32 = Some (\<lambda>off. read_as (number A) (getInt32 view off))"
| "getterMap A view DATA_TYPE_UINT8 =
     Some (\<lambda>off. read_as (\<lambda>w. number A (uint w)) (getUint8 view off))"
| "getterMap A view DATA_TYPE_UINT16 =
     Some (\<lambda>off. read_as (\<lambda>w. number A (uint w)) (getUint16 view off))"
| "getterMap A view DATA_TYPE_UINT32 =
     Some (\<lambda>off. read_as (\<lambda>w. number A (uint w)) (getUint32 view off))"
| "getterMap A view DATA_TYPE_FLOAT = Some (getFloat32 A view)"
| "getterMap A view DATA_TYPE_DOUBLE = Some (getFloat64 A view)"
| "getterMap A view DATA_TYPE_INT64 = None"
| "getterMap A view DATA_TYPE_UINT64 = None"

text \<open>
  A point attribute of the schema (\<^verbatim>\<open>IPointAttribute\<close>), a vector attribute
  (\<^verbatim>\<open>IVectorAttribute\<close>), the schema (\<^verbatim>\<open>PointAttributes\<close>) and a
  \<^verbatim>\<open>Vector3\<close>.
\<close>

record 'n point_attribute =
  attr_name :: string
  attr_type :: scalar_kind
  numElements :: nat
  attr_byteSize :: nat
  attr_range :: "'n \<times> 'n"

record vector_attribute =
  vec_name :: string
  vec_attributes :: "string list"

record 'n PointAttributes =
  attributes :: "'n point_attribute list"
  vectors :: "vector_attribute list"

record 'n Vector3 =
  vx :: 'n
  vy :: 'n
  vz :: 'n

text \<open>The message \<^verbatim>\<open>event.data\<close> the worker receives.\<close>

record 'n message =
  msg_name :: string
  buffer :: "byte list"
  pointAttributes :: "'n PointAttributes"
  scale :: "'n \<times> 'n \<times> 'n"
  min_v :: "'n Vector3"
  max_v :: "'n Vector3"
  size_v :: "'n Vector3"
  offset :: "'n \<times> 'n \<times> 'n"
  msg_numPoints :: nat

text \<open>
  The contents of an output \<^verbatim>\<open>ArrayBuffer\<close>, by the typed array that was written
  over it, and an entry of \<^verbatim>\<open>attributeBuffers\<close>. The fields \<open>preciseBuffer\<close>,
  \<open>ab_offset\<close> and \<open>ab_scale\<close> are \<open>None\<close> where the source's object literal
  does not set them.
\<close>

datatype 'n typed_array = F32 "'n list" | U8 "byte list" | U32 "32 word list"

record 'n attribute_buffer =
  ab_buffer :: "'n typed_array"
  preciseBuffer :: "(array_class \<times> 'n list) option"
  ab_attribute :: "'n point_attribute"
  ab_offset :: "'n option"
  ab_scale :: "'n option"

text \<open>
  The variables of \<^verbatim>\<open>handleMessage\<close> that the loop over the attributes updates.
  The grid is the function from a cell to its 32-bit counter.
\<close>

record 'n decode_state =
  attributeOffset :: nat
  grid :: "nat \<Rightarrow> 32 word"
  numOccupiedCells :: nat
  attributeBuffers :: "string \<Rightarrow> 'n attribute_buffer option"

text \<open>The message the worker posts back.\<close>

record 'n response =
  out_buffer :: "byte list"
  out_attributeBuffers :: "string \<Rightarrow> 'n attribute_buffer option"
  out_density :: 'n

subsection \<open>The occupancy grid\<close>

definition gridSize :: nat where
  "gridSize = 32"

text \<open>\<^verbatim>\<open>toIndex\<close>, as the source computes it: no rounding to an integer, no lower bound.\<close>

definition toIndex :: "'n arith \<Rightarrow> 'n Vector3 \<Rightarrow> 'n \<Rightarrow> 'n \<Rightarrow> 'n \<Rightarrow> 'n" where
  "toIndex A sz x y z =
     (let dx = fdiv A (fmul A (number A (int gridSize)) x) (vx sz);
          dy = fdiv A (fmul A (number A (int gridSize)) y) (vy sz);
          dz = fdiv A (fmul A (number A (int gridSize)) z) (vz sz);
          ix = math_min A dx (number A (int gridSize - 1));
          iy = math_min A dy (number A (int gridSize - 1));
          iz = math_min A dz (number A (int gridSize - 1))
      in fadd A (fadd A ix (fmul A iy (number A (int gridSize))))
               (fmul A (fmul A iz (number A (int gridSize))) (number A (int gridSize))))"

text \<open>
  \<^verbatim>\<open>let count = grid[index]++\<close> on the \<^verbatim>\<open>Uint32Array\<close> of \<open>gridSize ^ 3\<close> cells.
  When \<open>index\<close> names a cell, the counter is incremented and \<open>count\<close> is its old
  value; otherwise the read yields \<^verbatim>\<open>undefined\<close>, \<open>count\<close> is NaN (here
  \<open>None\<close>) and the store does nothing.
\<close>

definition grid_post_increment ::
  "'n arith \<Rightarrow> (nat \<Rightarrow> 32 word) \<Rightarrow> 'n \<Rightarrow> 32 word option \<times> (nat \<Rightarrow> 32 word)" where
  "grid_post_increment A g index =
     (case array_index A index of
        None \<Rightarrow> (None, g)
      | Some i \<Rightarrow> if i < gridSize ^ 3 then (Some (g i), g(i := g i + 1)) else (None, g))"

subsection \<open>The position branch\<close>

text \<open>
  One pass of the loop over the points: it writes three entries of \<open>positions\<close> and
  folds the point into the grid.
\<close>

definition position_step ::
  "'n arith \<Rightarrow> 'n message \<Rightarrow> nat \<Rightarrow> nat \<Rightarrow> 'n list \<times> 'n decode_state
     \<Rightarrow> error + 'n list \<times> 'n decode_state" where
  "position_step A msg bytesPerPoint j ps =
     (let (positions, st) = ps;
          pointOffset = j * bytesPerPoint;
          view = buffer msg;
          (scale0, scale1, scale2) = scale msg;
          (offset0, offset1, offset2) = offset msg
      in
      case getInt32 view (pointOffset + attributeOffset st + 0) of Inl e \<Rightarrow> Inl e | Inr rx \<Rightarrow>
     (case getInt32 view (pointOffset + attributeOffset st + 4) of Inl e \<Rightarrow> Inl e | Inr ry \<Rightarrow>
     (case getInt32 view (pointOffset + attributeOffset st + 8) of Inl e \<Rightarrow> Inl e | Inr rz \<Rightarrow>
        (let x = fsub A (fadd A (fmul A (number A rx) scale0) offset0) (vx (min_v msg));
             y = fsub A (fadd A (fmul A (number A ry) scale1) offset1) (vy (min_v msg));
             z = fsub A (fadd A (fmul A (number A rz) scale2) offset2) (vz (min_v msg));
             index = toIndex A (size_v msg) x y z;
             (count, grid') = grid_post_increment A (grid st) index
         in Inr (positions[3 * j + 0 := fround A x,
                           3 * j + 1 := fround A y,
                           3 * j + 2 := fround A z],
                 st\<lparr> grid := grid',
                     numOccupiedCells :=
                       (if count = Some 0 then numOccupiedCells st + 1
                        else numOccupiedCells st) \<rparr>)))))"

definition decode_position ::
  "'n arith \<Rightarrow> 'n message \<Rightarrow> nat \<Rightarrow> 'n decode_state \<Rightarrow> error + 'n list \<times> 'n decode_state" where
  "decode_position A msg bytesPerPoint st =
     iterate [0..<msg_numPoints msg] (position_step A msg bytesPerPoint)
       (replicate (msg_numPoints msg * 3) (number A 0), st)"

subsection \<open>The color branch\<close>

text \<open>
  \<^verbatim>\<open>colors[4 * j + 0] = r > 255 ? r / 256 : r\<close>, for a channel \<open>r\<close> read by
  \<^verbatim>\<open>getUint16\<close> and stored into a \<^verbatim>\<open>Uint8Array\<close>.
\<close>

definition color_channel :: "'n arith \<Rightarrow> 16 word \<Rightarrow> byte" where
  "color_channel A r =
     to_uint8 A (if 255 < uint r then fdiv A (number A (uint r)) (number A 256) else number A (uint r))"

definition rgba_step ::
  "'n arith \<Rightarrow> byte list \<Rightarrow> nat \<Rightarrow> nat \<Rightarrow> nat \<Rightarrow> byte list \<Rightarrow> error + byte list" where
  "rgba_step A view bytesPerPoint attrOffset j colors =
     (let pointOffset = j * bytesPerPoint in
      case getUint16 view (pointOffset + attrOffset + 0) of Inl e \<Rightarrow> Inl e | Inr r \<Rightarrow>
     (case getUint16 view (pointOffset + attrOffset + 2) of Inl e \<Rightarrow> Inl e | Inr g \<Rightarrow>
     (case getUint16 view (pointOffset + attrOffset + 4) of Inl e \<Rightarrow> Inl e | Inr b \<Rightarrow>
        Inr (colors[4 * j + 0 := color_channel A r,
                    4 * j + 1 := color_channel A g,
                    4 * j + 2 := color_channel A b]))))"

definition decode_rgba ::
  "'n arith \<Rightarrow> byte list \<Rightarrow> nat \<Rightarrow> nat \<Rightarrow> nat \<Rightarrow> error + byte list" where
  "decode_rgba A view bytesPerPoint attrOffset n =
     iterate [0..<n] (rgba_step A view bytesPerPoint attrOffset) (replicate (n * 4) 0)"

subsection \<open>The generic branch\<close>

text \<open>The offset and scale that pack a type wider than 4 bytes into a 32-bit float.\<close>

definition pack_offset_scale :: "'n arith \<Rightarrow> 'n point_attribute \<Rightarrow> 'n \<times> 'n" where
  "pack_offset_scale A pa =
     (if 4 < type_size (attr_type pa)
      then (let (amin, amax) = attr_range pa in (amin, fdiv A (number A 1) (fsub A amax amin)))
      else (number A 0, number A 1))"

text \<open>
  One pass of the loop: the display value goes to the \<^verbatim>\<open>Float32Array\<close>, the value
  itself to the precise buffer. The precise buffer's class is the getter's own element
  type for each kind that has a getter, so its store keeps the value.
\<close>

definition generic_step ::
  "'n arith \<Rightarrow> (nat \<Rightarrow> error + 'n) \<Rightarrow> 'n \<Rightarrow> 'n \<Rightarrow> nat \<Rightarrow> nat \<Rightarrow> nat \<Rightarrow> 'n list \<times> 'n list
     \<Rightarrow> error + 'n list \<times> 'n list" where
  "generic_step A getter offs scl bytesPerPoint attrOffset j bufs =
     (let (f32, precise) = bufs;
          pointOffset = j * bytesPerPoint
      in case getter (pointOffset + attrOffset) of
           Inl e \<Rightarrow> Inl e
         | Inr val \<Rightarrow> Inr (f32[j := fround A (fmul A (fsub A val offs) scl)],
                           precise[j := val]))"

definition decode_generic ::
  "'n arith \<Rightarrow> byte list \<Rightarrow> nat \<Rightarrow> nat \<Rightarrow> nat \<Rightarrow> 'n point_attribute
     \<Rightarrow> error + 'n attribute_buffer" where
  "decode_generic A view bytesPerPoint attrOffset n pa =
     (let TypedArray = typedArrayMapping (attr_type pa) in
      case getterMap A view (attr_type pa) of
        None \<Rightarrow> Inl TypeError
      | Some getter \<Rightarrow>
          (let (offs, scl) = pack_offset_scale A pa in
           case iterate [0..<n] (generic_step A getter offs scl bytesPerPoint attrOffset)
                  (replicate n (number A 0), replicate n (number A 0)) of
             Inl e \<Rightarrow> Inl e
           | Inr (f32, precise) \<Rightarrow>
               Inr \<lparr> ab_buffer = F32 f32, preciseBuffer = Some (TypedArray, precise),
                     ab_attribute = pa, ab_offset = Some offs, ab_scale = Some scl \<rparr>))"

subsection \<open>The loop over the attributes\<close>

text \<open>An entry of \<^verbatim>\<open>attributeBuffers\<close> that has a buffer and an attribute only.\<close>

definition plain_entry :: "'n typed_array \<Rightarrow> 'n point_attribute \<Rightarrow> 'n attribute_buffer" where
  "plain_entry buf pa =
     \<lparr> ab_buffer = buf, preciseBuffer = None, ab_attribute = pa,
       ab_offset = None, ab_scale = None \<rparr>"

definition decode_attribute ::
  "'n arith \<Rightarrow> 'n message \<Rightarrow> nat \<Rightarrow> 'n point_attribute \<Rightarrow> 'n decode_state
     \<Rightarrow> error + 'n decode_state" where
  "decode_attribute A msg bytesPerPoint pa st =
     (case
        (if attr_name pa \<in> set [''POSITION_CARTESIAN'', ''position'']
         then (case decode_position A msg bytesPerPoint st of
                 Inl e \<Rightarrow> Inl e
               | Inr (positions, st') \<Rightarrow>
                   Inr (st'\<lparr> attributeBuffers :=
                          (attributeBuffers st')(attr_name pa \<mapsto> plain_entry (F32 positions) pa) \<rparr>))
         else if attr_name pa \<in> set [''RGBA'', ''rgba'']
         then (case decode_rgba A (buffer msg) bytesPerPoint (attributeOffset st)
                      (msg_numPoints msg) of
                 Inl e \<Rightarrow> Inl e
               | Inr colors \<Rightarrow>
                   Inr (st\<lparr> attributeBuffers :=
                          (attributeBuffers st)(attr_name pa \<mapsto> plain_entry (U8 colors) pa) \<rparr>))
         else (case decode_generic A (buffer msg) bytesPerPoint (attributeOffset st)
                      (msg_numPoints msg) pa of
                 Inl e \<Rightarrow> Inl e
               | Inr entry \<Rightarrow>
                   Inr (st\<lparr> attributeBuffers := (attributeBuffers st)(attr_name pa \<mapsto> entry) \<rparr>)))
      of Inl e \<Rightarrow> Inl e
       | Inr st' \<Rightarrow> Inr (st'\<lparr> attributeOffset := attributeOffset st' + attr_byteSize pa \<rparr>))"

fun decode_attributes ::
  "'n arith \<Rightarrow> 'n message \<Rightarrow> nat \<Rightarrow> 'n point_attribute list \<Rightarrow> 'n decode_state
     \<Rightarrow> error + 'n decode_state" where
  "decode_attributes A msg bytesPerPoint [] st = Inr st"
| "decode_attributes A msg bytesPerPoint (pa # pas) st =
     (case decode_attribute A msg bytesPerPoint pa st of
        Inl e \<Rightarrow> Inl e
      | Inr st' \<Rightarrow> decode_attributes A msg bytesPerPoint pas st')"

subsection \<open>Indices and attribute vectors\<close>

text \<open>
  \<^verbatim>\<open>new PointAttributeType(name, type, numElements)\<close>: the byte size is derived and
  the range starts as \<^verbatim>\<open>[Infinity, -Infinity]\<close>.
\<close>

definition PointAttributeType :: "'n arith \<Rightarrow> string \<Rightarrow> scalar_kind \<Rightarrow> nat \<Rightarrow> 'n point_attribute" where
  "PointAttributeType A nm ty n =
     \<lparr> attr_name = nm, attr_type = ty, numElements = n, attr_byteSize = n * type_size ty,
       attr_range = (pos_infinity A, neg_infinity A) \<rparr>"

definition indices_entry :: "'n arith \<Rightarrow> nat \<Rightarrow> 'n attribute_buffer" where
  "indices_entry A n =
     plain_entry (U32 (map word_of_nat [0..<n]))
       (PointAttributeType A ''INDICES'' DATA_TYPE_UINT32 1)"

text \<open>
  \<^verbatim>\<open>new DataView(sourceBuffer.buffer).getFloat32(j * 4, true)\<close>: the 32-bit float at
  element \<open>j\<close> of a source buffer. Read from a \<^verbatim>\<open>Float32Array\<close> it is the stored
  element (typed arrays are little-endian on every platform the loader runs on); read
  from another buffer it is the float its bytes encode.
\<close>

definition source_float32 :: "'n arith \<Rightarrow> 'n typed_array \<Rightarrow> nat \<Rightarrow> error + 'n" where
  "source_float32 A buf j =
     (case buf of
        F32 xs \<Rightarrow> if j < length xs then Inr (xs ! j) else Inl RangeError
      | U8 bs \<Rightarrow> getFloat32 A bs (j * 4)
      | U32 ws \<Rightarrow> if j < length ws then Inr (f32_bits A (ws ! j)) else Inl RangeError)"

text \<open>
  The number a field of the source buffer's entry gives in arithmetic: a missing
  field is \<^verbatim>\<open>undefined\<close>, whose number is NaN.
\<close>

definition number_of :: "'n arith \<Rightarrow> 'n option \<Rightarrow> 'n" where
  "number_of A v = (case v of None \<Rightarrow> nan A | Some a \<Rightarrow> a)"

definition vector_step ::
  "'n arith \<Rightarrow> 'n attribute_buffer \<Rightarrow> nat \<Rightarrow> nat \<Rightarrow> nat \<Rightarrow> 'n list \<Rightarrow> error + 'n list" where
  "vector_step A sourceBuffer numVectorElements iElement j f32 =
     (case source_float32 A (ab_buffer sourceBuffer) j of
        Inl e \<Rightarrow> Inl e
      | Inr val \<Rightarrow>
          Inr (f32[j * numVectorElements + iElement :=
                 fround A (fadd A (fdiv A val (number_of A (ab_scale sourceBuffer)))
                                 (number_of A (ab_offset sourceBuffer)))]))"

text \<open>
  The pass for the source attribute at position \<open>iElement\<close> of the vector. A source
  name with no entry makes the destructuring of \<^verbatim>\<open>undefined\<close> throw.
\<close>

definition vector_source ::
  "'n arith \<Rightarrow> nat \<Rightarrow> (string \<Rightarrow> 'n attribute_buffer option) \<Rightarrow> string list \<Rightarrow> nat \<Rightarrow> 'n list
     \<Rightarrow> error + 'n list" where
  "vector_source A n bufs srcs iElement f32 =
     (case bufs (srcs ! iElement) of
        None \<Rightarrow> Inl TypeError
      | Some sourceBuffer \<Rightarrow>
          iterate [0..<n] (vector_step A sourceBuffer (length srcs) iElement) f32)"

definition vector_buffer ::
  "'n arith \<Rightarrow> nat \<Rightarrow> (string \<Rightarrow> 'n attribute_buffer option) \<Rightarrow> vector_attribute
     \<Rightarrow> error + 'n list" where
  "vector_buffer A n bufs vector =
     (let numVectorElements = length (vec_attributes vector) in
      iterate [0..<numVectorElements] (vector_source A n bufs (vec_attributes vector))
        (replicate (numVectorElements * n) (number A 0)))"

fun attribute_vectors ::
  "'n arith \<Rightarrow> nat \<Rightarrow> vector_attribute list \<Rightarrow> (string \<Rightarrow> 'n attribute_buffer option)
     \<Rightarrow> error + (string \<Rightarrow> 'n attribute_buffer option)" where
  "attribute_vectors A n [] bufs = Inr bufs"
| "attribute_vectors A n (vector # vs) bufs =
     (case vector_buffer A n bufs vector of
        Inl e \<Rightarrow> Inl e
      | Inr f32 \<Rightarrow>
          attribute_vectors A n vs
            (bufs(vec_name vector \<mapsto>
               plain_entry (F32 f32)
                 (PointAttributeType A (vec_name vector) DATA_TYPE_FLOAT 3))))"

subsection \<open>\<^verbatim>\<open>handleMessage\<close>\<close>

text \<open>
  The result is the message the worker posts, or the exception that ends the handler
  before anything is posted.
\<close>

definition handleMessage :: "'n arith \<Rightarrow> 'n message \<Rightarrow> error + 'n response" where
  "handleMessage A msg =
     (let bytesPerPoint = foldl (\<lambda>acc pa. acc + attr_byteSize pa) 0 (attributes (pointAttributes msg))
      in case decode_attributes A msg bytesPerPoint (attributes (pointAttributes msg))
                \<lparr> attributeOffset = 0, grid = (\<lambda>i. 0), numOccupiedCells = 0,
                  attributeBuffers = (\<lambda>k. None) \<rparr> of
           Inl e \<Rightarrow> Inl e
         | Inr st \<Rightarrow>
             (let occupancy = fdiv A (number A (int (msg_numPoints msg)))
                                     (number A (int (numOccupiedCells st)));
                  bufs = (attributeBuffers st)(''INDICES'' \<mapsto> indices_entry A (msg_numPoints msg))
              in case attribute_vectors A (msg_numPoints msg) (vectors (pointAttributes msg)) bufs of
                   Inl e \<Rightarrow> Inl e
                 | Inr bufs' \<Rightarrow>
                     Inr \<lparr> out_buffer = buffer msg, out_attributeBuffers = bufs',
                           out_density = occupancy \<rparr>))"


section \<open>The octree loader (\<^verbatim>\<open>octree-loader.ts\<close>)\<close>

subsection \<open>Nodes, the heap and the loader's state\<close>

text \<open>
  An \<^verbatim>\<open>OctreeGeometryNode\<close> is an object on the heap; a reference to it is its
  \<^verbatim>\<open>id\<close>, which the constructor takes from the static counter \<^verbatim>\<open>idCount\<close>.
  The fields \<^verbatim>\<open>boundingSphere\<close>, \<^verbatim>\<open>hasChildren\<close>, \<^verbatim>\<open>isLeafNode\<close> and
  \<^verbatim>\<open>isTreeNode\<close> are never written after construction and are left out.
  A \<^verbatim>\<open>BufferGeometry\<close> is a value of the type \<open>'g\<close>; a one-time dispose handler is
  named by a number, and running it is recorded in the state.
\<close>

type_synonym ref = nat

record 'n Box3 =
  box_min :: "'n Vector3"
  box_max :: "'n Vector3"

record ('n, 'g) node =
  node_id :: nat
  name :: string
  index :: nat
  boundingBox :: "'n Box3"
  loaded :: bool
  loading :: bool
  failed :: bool
  children :: "ref option list"
  numPoints :: nat
  geometry :: "'g option"
  density :: 'n
  level :: nat
  parent :: "ref option"
  oneTimeDisposeHandlers :: "nat list"
  spacing :: 'n
  hierarchyByteOffset :: int
  hierarchyByteSize :: int
  byteSize :: int
  byteOffset :: int
  nodeType :: nat

text \<open>A range request to one of the two files of the dataset.\<close>

datatype dataset_file = HierarchyBin | OctreeBin

record request =
  req_file :: dataset_file
  req_first :: int
  req_last :: int

datatype encoding = DEFAULT | BROTLI

text \<open>
  What the loader is given and never changes: the metadata it reads, and the
  collaborators that are not part of these sources. \<open>fetch\<close> answers a range request
  with the bytes or rejects; \<open>createChildAABB\<close> and \<open>getIndexFromName\<close> are
  the helpers imported from \<^verbatim>\<open>utils\<close>; \<open>makeGeometry\<close> stands for the
  \<^verbatim>\<open>BufferGeometry\<close> that \<^verbatim>\<open>onmessage\<close> fills from the decoded buffers.
\<close>

record ('n, 'g) config =
  fetch :: "request \<Rightarrow> error + byte list"
  createChildAABB :: "'n Box3 \<Rightarrow> nat \<Rightarrow> 'n Box3"
  getIndexFromName :: "string \<Rightarrow> nat"
  makeGeometry :: "(string \<Rightarrow> 'n attribute_buffer option) \<Rightarrow> 'g"
  md_encoding :: encoding
  og_scale :: "'n \<times> 'n \<times> 'n"
  og_offset :: "'n Vector3"
  og_pointAttributes :: "'n PointAttributes"

text \<open>
  The mutable state: the heap of nodes, the \<^verbatim>\<open>NodeLoader\<close>'s pool of workers and
  the \<^verbatim>\<open>disposed\<close> flags, and a record of the effects on the outside, in order:
  the range requests sent, the messages posted to workers, the workers terminated,
  the geometries disposed and the handlers run. A worker is a number with the encoding
  it was created for; \<open>onmessage\<close> maps a worker to the node its handler completes.
\<close>

type_synonym worker = "nat \<times> encoding"

record ('n, 'g) state =
  heap :: "ref \<Rightarrow> ('n, 'g) node option"
  idCount :: nat
  og_root :: "ref option"
  workers :: "worker list"
  workerCount :: nat
  onmessage :: "worker \<Rightarrow> ref option"
  loader_disposed :: bool
  octree_disposed :: bool
  requests :: "request list"
  posted :: "(worker \<times> 'n message) list"
  terminated :: "worker list"
  disposedGeometries :: "'g list"
  handlersRun :: "nat list"

definition update_node ::
  "ref \<Rightarrow> (('n, 'g) node \<Rightarrow> ('n, 'g) node) \<Rightarrow> ('n, 'g) state \<Rightarrow> ('n, 'g) state" where
  "update_node r f st = st\<lparr> heap := (heap st)(r := map_option f (heap st r)) \<rparr>"

text \<open>
  \<^verbatim>\<open>new OctreeGeometryNode(name, octreeGeometry, boundingBox)\<close>: the field
  initialisers and the constructor. The result is the reference and the new state.
\<close>

definition new_node ::
  "'n arith \<Rightarrow> ('n, 'g) config \<Rightarrow> string \<Rightarrow> 'n Box3 \<Rightarrow> ('n, 'g) state \<Rightarrow> ref \<times> ('n, 'g) state" where
  "new_node A E nm box st =
     (let r = idCount st;
          n = \<lparr> node_id = r, name = nm, index = getIndexFromName E nm, boundingBox = box,
                loaded = False, loading = False, failed = False,
                children = replicate 8 None, numPoints = 0, geometry = None,
                density = number A 0, level = 0, parent = None, oneTimeDisposeHandlers = [],
                spacing = number A 0, hierarchyByteOffset = 0, hierarchyByteSize = 0,
                byteSize = 0, byteOffset = 0, nodeType = 0 \<rparr>
      in (r, st\<lparr> heap := (heap st)(r \<mapsto> n), idCount := idCount st + 1 \<rparr>))"

subsection \<open>The hierarchy decoder\<close>

text \<open>
  A loop whose body changes the state and may throw: the state reached is kept with the
  exception, since the objects the body has written stay written.
\<close>

fun for_each ::
  "nat list \<Rightarrow> (nat \<Rightarrow> 's \<Rightarrow> error option \<times> 's) \<Rightarrow> 's \<Rightarrow> error option \<times> 's" where
  "for_each [] body s = (None, s)"
| "for_each (i # is) body s =
     (case body i s of
        (Some e, s') \<Rightarrow> (Some e, s')
      | (None, s') \<Rightarrow> for_each is body s')"

text \<open>
  The variables of \<^verbatim>\<open>parseHierarchy\<close>: the work list \<^verbatim>\<open>nodes\<close> (an array with
  holes: an index that was never assigned reads \<^verbatim>\<open>undefined\<close>), \<^verbatim>\<open>nodePos\<close>,
  and the state.
\<close>

record ('n, 'g) parse_state =
  nodes :: "nat \<Rightarrow> ref option"
  nodePos :: nat
  world :: "('n, 'g) state"

text \<open>
  One pass of the loop over \<^verbatim>\<open>childIndex\<close>. \<open>c\<close> is the reference of
  \<^verbatim>\<open>current\<close>. The digit appended to the name is \<^verbatim>\<open>childIndex\<close> as a string.
\<close>

definition add_child ::
  "'n arith \<Rightarrow> ('n, 'g) config \<Rightarrow> ref \<Rightarrow> 8 word \<Rightarrow> ('n, 'g) parse_state \<Rightarrow> nat
     \<Rightarrow> ('n, 'g) parse_state" where
  "add_child A E c childMask ps childIndex =
     (let childExists = (push_bit childIndex 1 AND childMask \<noteq> 0) in
      if \<not> childExists then ps
      else
        (case heap (world ps) c of
           None \<Rightarrow> ps
         | Some current \<Rightarrow>
             (let childName = name current @ [''01234567'' ! childIndex];
                  childAABB = createChildAABB E (boundingBox current) childIndex;
                  (child, st1) = new_node A E childName childAABB (world ps);
                  st2 = update_node child
                          (\<lambda>n. n\<lparr> name := childName,
                                 spacing := fdiv A (spacing current) (number A 2),
                                 level := level current + 1 \<rparr>) st1;
                  st3 = update_node c
                          (\<lambda>n. n\<lparr> children := (children n)[childIndex := Some child] \<rparr>) st2;
                  st4 = update_node child (\<lambda>n. n\<lparr> parent := Some c \<rparr>) st3
              in ps\<lparr> nodes := (nodes ps)(nodePos ps \<mapsto> child),
                     nodePos := nodePos ps + 1,
                     world := st4 \<rparr>)))"

text \<open>
  The writes of one record to \<^verbatim>\<open>current\<close>: the three branches on the node's old
  type and the record's type, then \<^verbatim>\<open>current.nodeType = type\<close>.
\<close>

definition write_record ::
  "('n, 'g) node \<Rightarrow> 8 word \<Rightarrow> 32 word \<Rightarrow> int \<Rightarrow> int \<Rightarrow> ('n, 'g) node" where
  "write_record current rtype np bo bs =
     (let written =
            (if nodeType current = 2
             then current\<lparr> byteOffset := bo, byteSize := bs, numPoints := unat np \<rparr>
             else if unat rtype = 2
             then current\<lparr> hierarchyByteOffset := bo, hierarchyByteSize := bs,
                           numPoints := unat np \<rparr>
             else current\<lparr> byteOffset := bo, byteSize := bs, numPoints := unat np \<rparr>)
      in written\<lparr> nodeType := unat rtype \<rparr>)"

text \<open>
  One pass of the loop over the records: record \<open>i\<close> is read at byte \<open>22 * i\<close> and
  applied to \<^verbatim>\<open>nodes[i]\<close>. Reading a field of \<^verbatim>\<open>current\<close> throws when
  \<^verbatim>\<open>nodes[i]\<close> is \<^verbatim>\<open>undefined\<close>. A record of type 2 (a proxy) ends the pass
  before the loop over the children.
\<close>

definition parse_record ::
  "'n arith \<Rightarrow> ('n, 'g) config \<Rightarrow> byte list \<Rightarrow> nat \<Rightarrow> ('n, 'g) parse_state
     \<Rightarrow> error option \<times> ('n, 'g) parse_state" where
  "parse_record A E view i ps =
     (let bytesPerNode = 22 in
      case getUint8 view (i * bytesPerNode + 0) of Inl e \<Rightarrow> (Some e, ps) | Inr rtype \<Rightarrow>
     (case getUint8 view (i * bytesPerNode + 1) of Inl e \<Rightarrow> (Some e, ps) | Inr childMask \<Rightarrow>
     (case getUint32 view (i * bytesPerNode + 2) of Inl e \<Rightarrow> (Some e, ps) | Inr np \<Rightarrow>
     (case getBigInt64 view (i * bytesPerNode + 6) of Inl e \<Rightarrow> (Some e, ps) | Inr bo \<Rightarrow>
     (case getBigInt64 view (i * bytesPerNode + 14) of Inl e \<Rightarrow> (Some e, ps) | Inr bs \<Rightarrow>
     (case nodes ps i of
        None \<Rightarrow> (Some TypeError, ps)
      | Some c \<Rightarrow>
         (case heap (world ps) c of
            None \<Rightarrow> (Some TypeError, ps)
          | Some current \<Rightarrow>
             (let typed = write_record current rtype np bo bs;
                  ps1 = ps\<lparr> world := update_node c (\<lambda>n. typed) (world ps) \<rparr>
              in if nodeType typed = 2 then (None, ps1)
                 else (None, foldl (add_child A E c childMask) ps1 [0..<8])))))))))"

text \<open>
  \<^verbatim>\<open>new Array(numNodes)\<close> throws unless \<open>numNodes\<close> is an array length: an integer
  from \<open>0\<close> to \<open>2^32 - 1\<close>. \<open>numNodes\<close> is \<^verbatim>\<open>buffer.byteLength / 22\<close>; the
  quotient is exact here, since a byte length is far below \<open>2^52\<close> and the quotient is
  only asked whether it is an integer and which \<open>i\<close> are below it.
\<close>

definition is_array_length :: "real \<Rightarrow> bool" where
  "is_array_length x = (0 \<le> x \<and> x < 2 ^ 32 \<and> of_int \<lfloor>x\<rfloor> = x)"

text \<open>The values of \<open>i\<close> for which \<^verbatim>\<open>for (let i = 0; i < n; i++)\<close> runs its body.\<close>

definition loop_range :: "real \<Rightarrow> nat list" where
  "loop_range n = [0..<nat \<lceil>n\<rceil>]"

definition parseHierarchy ::
  "'n arith \<Rightarrow> ('n, 'g) config \<Rightarrow> ref \<Rightarrow> byte list \<Rightarrow> ('n, 'g) state
     \<Rightarrow> error option \<times> ('n, 'g) state" where
  "parseHierarchy A E r buf st =
     (let bytesPerNode = 22;
          numNodes = real (length buf) / bytesPerNode
      in if \<not> is_array_length numNodes then (Some RangeError, st)
         else
           (case for_each (loop_range numNodes) (parse_record A E buf)
                   \<lparr> nodes = (\<lambda>i. None)(0 \<mapsto> r), nodePos = 1, world = st \<rparr> of
              (err, ps) \<Rightarrow> (err, world ps)))"

subsection \<open>The node loader\<close>

definition getWorker :: "encoding \<Rightarrow> ('n, 'g) state \<Rightarrow> worker \<times> ('n, 'g) state" where
  "getWorker ty st =
     (if workers st \<noteq> []
      then (last (workers st), st\<lparr> workers := butlast (workers st) \<rparr>)
      else ((workerCount st, ty), st\<lparr> workerCount := workerCount st + 1 \<rparr>))"

definition releaseWorker :: "worker \<Rightarrow> ('n, 'g) state \<Rightarrow> ('n, 'g) state" where
  "releaseWorker w st = st\<lparr> workers := workers st @ [w] \<rparr>"

definition send :: "request \<Rightarrow> ('n, 'g) state \<Rightarrow> ('n, 'g) state" where
  "send req st = st\<lparr> requests := requests st @ [req] \<rparr>"

definition loadHierarchy ::
  "'n arith \<Rightarrow> ('n, 'g) config \<Rightarrow> ref \<Rightarrow> ('n, 'g) state \<Rightarrow> error option \<times> ('n, 'g) state" where
  "loadHierarchy A E r st =
     (case heap st r of
        None \<Rightarrow> (Some TypeError, st)
      | Some n \<Rightarrow>
          (let first = hierarchyByteOffset n;
               last = first + hierarchyByteSize n - 1;
               req = \<lparr> req_file = HierarchyBin, req_first = first, req_last = last \<rparr>
           in case fetch E req of
                Inl e \<Rightarrow> (Some e, send req st)
              | Inr buf \<Rightarrow> parseHierarchy A E r buf (send req st)))"

text \<open>The message \<^verbatim>\<open>load\<close> posts to the worker for a node and its bytes.\<close>

definition vec_add :: "'n arith \<Rightarrow> 'n Vector3 \<Rightarrow> 'n Vector3 \<Rightarrow> 'n Vector3" where
  "vec_add A a b = \<lparr> vx = fadd A (vx a) (vx b), vy = fadd A (vy a) (vy b), vz = fadd A (vz a) (vz b) \<rparr>"

definition vec_sub :: "'n arith \<Rightarrow> 'n Vector3 \<Rightarrow> 'n Vector3 \<Rightarrow> 'n Vector3" where
  "vec_sub A a b = \<lparr> vx = fsub A (vx a) (vx b), vy = fsub A (vy a) (vy b), vz = fsub A (vz a) (vz b) \<rparr>"

definition load_message ::
  "'n arith \<Rightarrow> ('n, 'g) config \<Rightarrow> ('n, 'g) node \<Rightarrow> byte list \<Rightarrow> 'n message" where
  "load_message A E n buf =
     (let box = boundingBox n;
          mn = vec_add A (og_offset E) (box_min box);
          sz = vec_sub A (box_max box) (box_min box);
          mx = vec_add A mn sz
      in \<lparr> msg_name = name n, buffer = buf, pointAttributes = og_pointAttributes E,
           scale = og_scale E, min_v = mn, max_v = mx, size_v = sz,
           offset = (vx (og_offset E), vy (og_offset E), vz (og_offset E)),
           msg_numPoints = numPoints n \<rparr>)"

text \<open>
  The body of the \<^verbatim>\<open>try\<close> block of \<^verbatim>\<open>load\<close>, up to \<^verbatim>\<open>postMessage\<close>. Its
  awaits are run in order: the hierarchy request, then the payload request.
\<close>

definition load_try ::
  "'n arith \<Rightarrow> ('n, 'g) config \<Rightarrow> ref \<Rightarrow> ('n, 'g) state \<Rightarrow> error option \<times> ('n, 'g) state" where
  "load_try A E r st =
     (case (case heap st r of
              None \<Rightarrow> (Some TypeError, st)
            | Some n0 \<Rightarrow> if nodeType n0 = 2 then loadHierarchy A E r st else (None, st)) of
        (Some e, st1) \<Rightarrow> (Some e, st1)
      | (None, st1) \<Rightarrow>
          (case heap st1 r of
             None \<Rightarrow> (Some TypeError, st1)
           | Some n \<Rightarrow>
               (let first = byteOffset n;
                    last = byteOffset n + byteSize n - 1;
                    req = \<lparr> req_file = OctreeBin, req_first = first, req_last = last \<rparr>
                in case (if byteSize n = 0 then (Inr [], st1)
                         else (fetch E req, send req st1)) of
                     (Inl e, st2) \<Rightarrow> (Some e, st2)
                   | (Inr buf, st2) \<Rightarrow>
                       (let (w, st3) = getWorker (md_encoding E) st2;
                            st4 = st3\<lparr> onmessage := (onmessage st3)(w \<mapsto> r) \<rparr>;
                            message = load_message A E n buf
                        in (None, st4\<lparr> posted := posted st4 @ [(w, message)] \<rparr>)))))"

text \<open>
  \<^verbatim>\<open>load\<close>. The guard is the source's: \<^verbatim>\<open>node.loading || node.loading\<close>.
\<close>

definition load :: "'n arith \<Rightarrow> ('n, 'g) config \<Rightarrow> ref \<Rightarrow> ('n, 'g) state \<Rightarrow> ('n, 'g) state" where
  "load A E r st =
     (case heap st r of
        None \<Rightarrow> st
      | Some n \<Rightarrow>
          if loading n \<or> loading n then st
          else
            (case load_try A E r (update_node r (\<lambda>n. n\<lparr> loading := True \<rparr>) st) of
               (None, st') \<Rightarrow> st'
             | (Some e, st') \<Rightarrow>
                 update_node r (\<lambda>n. n\<lparr> loaded := False, loading := False \<rparr>) st'))"

text \<open>
  The handler \<^verbatim>\<open>worker.onmessage\<close> that \<^verbatim>\<open>load\<close> installs, run when the worker
  \<open>w\<close> posts the response \<open>data\<close>.
\<close>

definition worker_onmessage ::
  "('n, 'g) config \<Rightarrow> worker \<Rightarrow> 'n response \<Rightarrow> ('n, 'g) state \<Rightarrow> ('n, 'g) state" where
  "worker_onmessage E w data st =
     (case onmessage st w of
        None \<Rightarrow> st
      | Some r \<Rightarrow>
          releaseWorker w
            (update_node r
               (\<lambda>n. n\<lparr> density := out_density data,
                      geometry := Some (makeGeometry E (out_attributeBuffers data)),
                      loaded := True, loading := False, failed := False \<rparr>) st))"

subsection \<open>Disposal\<close>

text \<open>\<^verbatim>\<open>OctreeGeometryNode.dispose\<close>.\<close>

definition node_dispose :: "ref \<Rightarrow> ('n, 'g) state \<Rightarrow> ('n, 'g) state" where
  "node_dispose r st =
     (case heap st r of
        None \<Rightarrow> st
      | Some n \<Rightarrow>
          (case geometry n of
             None \<Rightarrow> st
           | Some g \<Rightarrow>
               if parent n = None then st
               else
                 (update_node r
                    (\<lambda>n. n\<lparr> geometry := None, loaded := False, oneTimeDisposeHandlers := [] \<rparr>)
                    st)
                 \<lparr> disposedGeometries := disposedGeometries st @ [g],
                   handlersRun := handlersRun st @ oneTimeDisposeHandlers n \<rparr>))"

text \<open>
  \<^verbatim>\<open>OctreeGeometryNode.traverse\<close>: the loop pops the last element of the stack,
  calls \<open>cb\<close> on it and pushes its children that are not \<^verbatim>\<open>null\<close>. On a heap
  whose child links form a cycle the loop does not end; the result is then \<open>None\<close>.
\<close>

partial_function (option) traverse_loop ::
  "(ref \<Rightarrow> ('n, 'g) state \<Rightarrow> ('n, 'g) state) \<Rightarrow> ref list \<Rightarrow> ('n, 'g) state
     \<Rightarrow> ('n, 'g) state option" where
  "traverse_loop cb stack st =
     (if stack = [] then Some st
      else
        (let current = last stack;
             st' = cb current st;
             pushed = (case heap st' current of
                         None \<Rightarrow> []
                       | Some n \<Rightarrow> concat (map (\<lambda>child. case child of None \<Rightarrow> [] | Some c \<Rightarrow> [c])
                                                (children n)))
         in traverse_loop cb (butlast stack @ pushed) st'))"

text \<open>
  The parameter \<^verbatim>\<open>includeSelf?: boolean\<close> is optional: \<open>None\<close> is a call that
  leaves it out, and \<^verbatim>\<open>undefined\<close> is falsy.
\<close>

definition traverse ::
  "ref \<Rightarrow> (ref \<Rightarrow> ('n, 'g) state \<Rightarrow> ('n, 'g) state) \<Rightarrow> bool option \<Rightarrow> ('n, 'g) state
     \<Rightarrow> ('n, 'g) state option" where
  "traverse r cb includeSelf st =
     traverse_loop cb (if includeSelf = Some True then [r] else []) st"

text \<open>\<^verbatim>\<open>NodeLoader.dispose\<close> and \<^verbatim>\<open>OctreeGeometry.dispose\<close>.\<close>

definition loader_dispose :: "('n, 'g) state \<Rightarrow> ('n, 'g) state" where
  "loader_dispose st =
     st\<lparr> terminated := terminated st @ workers st, workers := [], loader_disposed := True \<rparr>"

definition octree_dispose :: "('n, 'g) state \<Rightarrow> ('n, 'g) state option" where
  "octree_dispose st =
     (let st1 = loader_dispose st in
      case (case og_root st1 of
              None \<Rightarrow> Some st1
            | Some r \<Rightarrow> traverse r node_dispose None st1) of
        None \<Rightarrow> None
      | Some st2 \<Rightarrow> Some (st2\<lparr> octree_disposed := True \<rparr>))"

section \<open>Predicates of the statements and concrete inputs\<close>

text \<open>
  What the position branch leaves for point \<open>j\<close>: the three signed 32-bit integers of
  the point at byte \<open>j * bpp + aoff\<close>, each scaled, offset and moved by the node's minimum,
  stored as 32-bit floats at \<open>3 * j\<close>, \<open>3 * j + 1\<close> and \<open>3 * j + 2\<close>.
\<close>

definition position_entry ::
  "'n arith \<Rightarrow> 'n message \<Rightarrow> nat \<Rightarrow> nat \<Rightarrow> nat \<Rightarrow> 'n list \<Rightarrow> bool" where
  "position_entry A msg bpp aoff j ps =
     (\<exists>rx ry rz.
        getInt32 (buffer msg) (j * bpp + aoff + 0) = Inr rx \<and>
        getInt32 (buffer msg) (j * bpp + aoff + 4) = Inr ry \<and>
        getInt32 (buffer msg) (j * bpp + aoff + 8) = Inr rz \<and>
        ps ! (3 * j + 0) =
          fround A (fsub A (fadd A (fmul A (number A rx) (fst (scale msg))) (fst (offset msg)))
                           (vx (min_v msg))) \<and>
        ps ! (3 * j + 1) =
          fround A (fsub A (fadd A (fmul A (number A ry) (fst (snd (scale msg))))
                                   (fst (snd (offset msg))))
                           (vy (min_v msg))) \<and>
        ps ! (3 * j + 2) =
          fround A (fsub A (fadd A (fmul A (number A rz) (snd (snd (scale msg))))
                                   (snd (snd (offset msg))))
                           (vz (min_v msg))))"

text \<open>
  What the generic branch leaves under an attribute's name: the display buffer, the precise
  buffer with its storage class, and the offset and scale of the packing. \<open>getter\<close> is
  the getter of the attribute's declared kind; point \<open>j\<close> is read at byte \<open>j * bpp + aoff\<close>.
\<close>

definition generic_entry ::
  "'n arith \<Rightarrow> byte list \<Rightarrow> nat \<Rightarrow> nat \<Rightarrow> nat \<Rightarrow> 'n point_attribute \<Rightarrow> 'n attribute_buffer \<Rightarrow> bool" where
  "generic_entry A view bpp aoff n pa entry =
     (\<exists>getter f32 precise offs scl.
        getterMap A view (attr_type pa) = Some getter \<and>
        entry = \<lparr> ab_buffer = F32 f32,
                  preciseBuffer = Some (typedArrayMapping (attr_type pa), precise),
                  ab_attribute = pa, ab_offset = Some offs, ab_scale = Some scl \<rparr> \<and>
        (offs, scl) =
          (if 4 < type_size (attr_type pa)
           then (fst (attr_range pa),
                 fdiv A (number A 1) (fsub A (snd (attr_range pa)) (fst (attr_range pa))))
           else (number A 0, number A 1)) \<and>
        length f32 = n \<and> length precise = n \<and>
        (\<forall>j<n. \<exists>val. getter (j * bpp + aoff) = Inr val \<and>
                  f32 ! j = fround A (fmul A (fsub A val offs) scl) \<and>
                  precise ! j = val))"



text \<open>
  A node of one point at raw position \<open>(1, 2, 3)\<close>, with scale 1, offset 0 and a
  bounding box of size 64 whose minimum is the origin.
\<close>

definition pa_position :: "xnum point_attribute" where
  "pa_position = \<lparr> attr_name = ''position'', attr_type = DATA_TYPE_INT32, numElements = 3,
                    attr_byteSize = 12, attr_range = (Fin 0, Fin 1) \<rparr>"

definition origin :: "xnum Vector3" where
  "origin = \<lparr> vx = Fin 0, vy = Fin 0, vz = Fin 0 \<rparr>"

definition size64 :: "xnum Vector3" where
  "size64 = \<lparr> vx = Fin 64, vy = Fin 64, vz = Fin 64 \<rparr>"

definition msg_one_point :: "xnum message" where
  "msg_one_point =
     \<lparr> msg_name = ''r'', buffer = [1, 0, 0, 0, 2, 0, 0, 0, 3, 0, 0, 0],
       pointAttributes = \<lparr> attributes = [pa_position], vectors = [] \<rparr>,
       scale = (Fin 1, Fin 1, Fin 1), min_v = origin, max_v = size64, size_v = size64,
       offset = (Fin 0, Fin 0, Fin 0), msg_numPoints = 1 \<rparr>"

text \<open>
  One point with a single generic attribute: a double with range \<open>[0, 2]\<close>, and a
  64-bit integer.
\<close>

definition pa_time :: "xnum point_attribute" where
  "pa_time = \<lparr> attr_name = ''gps-time'', attr_type = DATA_TYPE_DOUBLE, numElements = 1,
                attr_byteSize = 8, attr_range = (Fin 0, Fin 2) \<rparr>"

definition pa_wide :: "xnum point_attribute" where
  "pa_wide = \<lparr> attr_name = ''wide'', attr_type = DATA_TYPE_INT64, numElements = 1,
                attr_byteSize = 8, attr_range = (Fin 0, Fin 2) \<rparr>"

definition msg_generic :: "xnum point_attribute \<Rightarrow> byte list \<Rightarrow> xnum message" where
  "msg_generic pa bytes =
     \<lparr> msg_name = ''r'', buffer = bytes,
       pointAttributes = \<lparr> attributes = [pa], vectors = [] \<rparr>,
       scale = (Fin 1, Fin 1, Fin 1), min_v = origin, max_v = size64, size_v = size64,
       offset = (Fin 0, Fin 0, Fin 0), msg_numPoints = 1 \<rparr>"



subsection \<open>Predicates of the loader\<close>

text \<open>
  Every reference in use is below \<^verbatim>\<open>idCount\<close>: the next object the constructor makes
  is a new one. Objects of the platform have this by themselves; here it is a condition
  on the state.
\<close>

definition heap_fresh :: "('n, 'g) state \<Rightarrow> bool" where
  "heap_fresh st = (\<forall>q. idCount st \<le> q \<longrightarrow> heap st q = None)"

text \<open>The number of set bits of the child mask below position \<open>k\<close>.\<close>

definition rank :: "8 word \<Rightarrow> nat \<Rightarrow> nat" where
  "rank childMask k = length (filter (\<lambda>i. bit childMask i) [0..<k])"

text \<open>
  The child that one pass of the loop over \<^verbatim>\<open>childIndex\<close> leaves on the heap for
  position \<open>k\<close> under the node \<open>c\<close>, at the reference \<open>r\<close>.
\<close>

definition child_node ::
  "'n arith \<Rightarrow> ('n, 'g) config \<Rightarrow> ref \<Rightarrow> ('n, 'g) node \<Rightarrow> nat \<Rightarrow> ref \<Rightarrow> ('n, 'g) node" where
  "child_node A E c current k r =
     \<lparr> node_id = r, name = name current @ [''01234567'' ! k],
       index = getIndexFromName E (name current @ [''01234567'' ! k]),
       boundingBox = createChildAABB E (boundingBox current) k,
       loaded = False, loading = False, failed = False,
       children = replicate 8 None, numPoints = 0, geometry = None,
       density = number A 0, level = level current + 1, parent = Some c,
       oneTimeDisposeHandlers = [], spacing = fdiv A (spacing current) (number A 2),
       hierarchyByteOffset = 0, hierarchyByteSize = 0, byteSize = 0, byteOffset = 0,
       nodeType = 0 \<rparr>"

text \<open>
  The state of \<^verbatim>\<open>parseHierarchy\<close> after the passes for the positions below \<open>m\<close>,
  started in \<open>ps0\<close> with \<open>current\<close> at the reference \<open>c\<close>: one new node per set bit,
  in the order of the positions, each in its slot of \<open>c\<close> and at the end of the work
  list; the other nodes and the earlier entries of the work list as they were.
\<close>

definition children_added ::
  "'n arith \<Rightarrow> ('n, 'g) config \<Rightarrow> ref \<Rightarrow> ('n, 'g) node \<Rightarrow> 8 word \<Rightarrow> ('n, 'g) parse_state \<Rightarrow> nat
     \<Rightarrow> ('n, 'g) parse_state \<Rightarrow> bool" where
  "children_added A E c current childMask ps0 m ps =
     (idCount (world ps) = idCount (world ps0) + rank childMask m \<and>
      nodePos ps = nodePos ps0 + rank childMask m \<and>
      (\<exists>cs. heap (world ps) c = Some (current\<lparr> children := cs \<rparr>) \<and> length cs = 8 \<and>
         (\<forall>k<8. cs ! k = (if k < m \<and> bit childMask k
                           then Some (idCount (world ps0) + rank childMask k)
                           else children current ! k))) \<and>
      (\<forall>k<m. bit childMask k \<longrightarrow>
         heap (world ps) (idCount (world ps0) + rank childMask k) =
           Some (child_node A E c current k (idCount (world ps0) + rank childMask k)) \<and>
         nodes ps (nodePos ps0 + rank childMask k) =
           Some (idCount (world ps0) + rank childMask k)) \<and>
      (\<forall>q. q \<noteq> c \<longrightarrow> q < idCount (world ps0) \<longrightarrow> heap (world ps) q = heap (world ps0) q) \<and>
      (\<forall>q. idCount (world ps) \<le> q \<longrightarrow> heap (world ps) q = None) \<and>
      (\<forall>p<nodePos ps0. nodes ps p = nodes ps0 p))"

text \<open>
  What hierarchy loading leaves alone: every node that was there is still there with its
  \<open>loaded\<close>, \<open>loading\<close> and \<open>failed\<close> flags and its geometry, and nothing was
  posted to a worker.
\<close>

definition extends :: "('n, 'g) state \<Rightarrow> ('n, 'g) state \<Rightarrow> bool" where
  "extends st st' =
     (heap_fresh st' \<and> posted st' = posted st \<and>
      (\<forall>q n. heap st q = Some n \<longrightarrow>
         (\<exists>n'. heap st' q = Some n' \<and> loaded n' = loaded n \<and> loading n' = loading n \<and>
               failed n' = failed n \<and> geometry n' = geometry n)))"

text \<open>
  The type and the child mask of record \<open>i\<close> of a hierarchy buffer, and the length of
  the work list when the loop reaches record \<open>i\<close>: the node the chunk belongs to, and
  one node per set bit of the mask of each earlier record that is not a proxy.
\<close>

definition record_type :: "byte list \<Rightarrow> nat \<Rightarrow> nat" where
  "record_type buf i = unat (buf ! (i * 22))"

definition record_mask :: "byte list \<Rightarrow> nat \<Rightarrow> 8 word" where
  "record_mask buf i = buf ! (i * 22 + 1)"

fun worklist_size :: "byte list \<Rightarrow> nat \<Rightarrow> nat" where
  "worklist_size buf 0 = 1"
| "worklist_size buf (Suc i) =
     worklist_size buf i + (if record_type buf i = 2 then 0 else rank (record_mask buf i) 8)"

text \<open>
  The node at position \<open>p\<close> of the work list: the node \<open>r\<close> of the chunk at 0, and
  after it the nodes the constructor makes, in the order it makes them, from the
  reference \<open>base\<close> on.
\<close>

definition worklist_ref :: "ref \<Rightarrow> nat \<Rightarrow> nat \<Rightarrow> ref" where
  "worklist_ref r base p = (if p = 0 then r else base + p - 1)"

text \<open>
  Record \<open>i\<close> has been applied to the node \<open>m\<close>: \<open>m\<close> has the record's type and
  number of points, and the record's byte offset and size are its hierarchy range when
  the record is a proxy and the node was not one, its payload range otherwise. The
  records below \<open>i\<close> have been applied in \<open>st'\<close>: each to the node at its position,
  and the constructor has made as many nodes as they announce.
\<close>

definition record_applied :: "byte list \<Rightarrow> nat \<Rightarrow> bool \<Rightarrow> ('n, 'g) node \<Rightarrow> bool" where
  "record_applied buf i was_proxy m =
     (\<exists>np bo bs.
        getUint32 buf (i * 22 + 2) = Inr np \<and> getBigInt64 buf (i * 22 + 6) = Inr bo \<and>
        getBigInt64 buf (i * 22 + 14) = Inr bs \<and>
        nodeType m = record_type buf i \<and> numPoints m = unat np \<and>
        (if \<not> was_proxy \<and> record_type buf i = 2
         then hierarchyByteOffset m = bo \<and> hierarchyByteSize m = bs
         else byteOffset m = bo \<and> byteSize m = bs))"

definition records_applied ::
  "byte list \<Rightarrow> ref \<Rightarrow> bool \<Rightarrow> ('n, 'g) state \<Rightarrow> nat \<Rightarrow> ('n, 'g) state \<Rightarrow> bool" where
  "records_applied buf r proxy st i st' =
     (idCount st' = idCount st + worklist_size buf i - 1 \<and>
      (\<forall>j<i. \<exists>m. heap st' (worklist_ref r (idCount st) j) = Some m \<and>
                 record_applied buf j (j = 0 \<and> proxy) m))"

text \<open>
  The variables of \<^verbatim>\<open>parseHierarchy\<close> after the passes for the records below \<open>i\<close>:
  the work list holds the nodes at the positions below its length and nothing above,
  the records below \<open>i\<close> are applied, and the nodes from \<open>i\<close> on are as the
  constructor made them (the node of the chunk as it was given).
\<close>

definition hierarchy_inv ::
  "byte list \<Rightarrow> ref \<Rightarrow> ('n, 'g) node \<Rightarrow> ('n, 'g) state \<Rightarrow> nat \<Rightarrow> ('n, 'g) parse_state \<Rightarrow> bool" where
  "hierarchy_inv buf r n st i ps =
     (nodePos ps = worklist_size buf i \<and>
      heap_fresh (world ps) \<and>
      (\<forall>p. nodes ps p = (if p < worklist_size buf i
                         then Some (worklist_ref r (idCount st) p) else None)) \<and>
      records_applied buf r (nodeType n = 2) st i (world ps) \<and>
      (\<forall>p. i \<le> p \<and> p < worklist_size buf i \<longrightarrow>
         (\<exists>m. heap (world ps) (worklist_ref r (idCount st) p) = Some m \<and>
              length (children m) = 8 \<and> nodeType m = (if p = 0 then nodeType n else 0))))"

text \<open>
  The two range requests of \<^verbatim>\<open>load\<close> for a node, and what a load that gave up
  leaves: the node is neither \<open>loading\<close> nor \<open>loaded\<close>, its \<open>failed\<close> flag and its
  geometry are as they were before the call, nothing was posted to a worker, and the
  requests sent are \<open>reqs\<close>.
\<close>

definition hierarchy_request :: "('n, 'g) node \<Rightarrow> request" where
  "hierarchy_request n =
     \<lparr> req_file = HierarchyBin, req_first = hierarchyByteOffset n,
       req_last = hierarchyByteOffset n + hierarchyByteSize n - 1 \<rparr>"

definition payload_request :: "('n, 'g) node \<Rightarrow> request" where
  "payload_request n =
     \<lparr> req_file = OctreeBin, req_first = byteOffset n,
       req_last = byteOffset n + byteSize n - 1 \<rparr>"

definition gave_up ::
  "('n, 'g) state \<Rightarrow> ref \<Rightarrow> request list \<Rightarrow> ('n, 'g) state \<Rightarrow> bool" where
  "gave_up st r reqs st' =
     (\<exists>n n'. heap st r = Some n \<and> heap st' r = Some n' \<and>
        \<not> loading n' \<and> \<not> loaded n' \<and> failed n' = failed n \<and> geometry n' = geometry n \<and>
        posted st' = posted st \<and> requests st' = requests st @ reqs)"

subsection \<open>Concrete loaders and states\<close>

text \<open>
  A loader whose collaborators are trivial and whose \<^verbatim>\<open>fetch\<close> is \<open>f\<close>, and the
  state that \<^verbatim>\<open>OctreeLoader.load\<close> builds before it loads the root: the root node
  \<^verbatim>\<open>r\<close>, a proxy (type 2) with the first hierarchy chunk of \<open>firstChunkSize\<close> bytes.
\<close>

definition box64 :: "xnum Box3" where
  "box64 = \<lparr> box_min = origin, box_max = size64 \<rparr>"

definition cfg :: "(request \<Rightarrow> error + byte list) \<Rightarrow> (xnum, nat) config" where
  "cfg f = \<lparr> fetch = f, createChildAABB = (\<lambda>box k. box), getIndexFromName = (\<lambda>nm. 0),
             makeGeometry = (\<lambda>bufs. 0), md_encoding = DEFAULT,
             og_scale = (Fin 1, Fin 1, Fin 1), og_offset = origin,
             og_pointAttributes = \<lparr> attributes = [pa_position], vectors = [] \<rparr> \<rparr>"

definition empty_state :: "(xnum, nat) state" where
  "empty_state = \<lparr> heap = (\<lambda>r. None), idCount = 0, og_root = None, workers = [],
                    workerCount = 0, onmessage = (\<lambda>w. None), loader_disposed = False,
                    octree_disposed = False, requests = [], posted = [], terminated = [],
                    disposedGeometries = [], handlersRun = [] \<rparr>"

definition initial_state :: "(xnum, nat) config \<Rightarrow> int \<Rightarrow> (xnum, nat) state" where
  "initial_state E firstChunkSize =
     (let (r, st) = new_node binary64 E ''r'' box64 empty_state
      in (update_node r (\<lambda>n. n\<lparr> nodeType := 2, hierarchyByteSize := firstChunkSize,
                                  spacing := Fin 8 \<rparr>) st)\<lparr> og_root := Some r \<rparr>)"

text \<open>
  Two hierarchy records of 22 bytes, each with 5 points and 60 payload bytes at offset 0:
  a leaf (type 0) with child mask 0, and an inner node (type 1) with child mask
  \<open>0b00000011\<close>.
\<close>

definition leaf_record :: "byte list" where
  "leaf_record = [0, 0, 5, 0, 0, 0, 0, 0, 0, 0, 0, 0, 0, 0, 60, 0, 0, 0, 0, 0, 0, 0]"

definition two_children_record :: "byte list" where
  "two_children_record = [1, 3, 5, 0, 0, 0, 0, 0, 0, 0, 0, 0, 0, 0, 60, 0, 0, 0, 0, 0, 0, 0]"

text \<open>A root that is loaded: its geometry is attached and its payload is 12 bytes.\<close>

definition loaded_state :: "(xnum, nat) config \<Rightarrow> (xnum, nat) state" where
  "loaded_state E =
     update_node 0 (\<lambda>n. n\<lparr> nodeType := 0, byteOffset := 0, byteSize := 12, numPoints := 1,
                           geometry := Some 0, loaded := True \<rparr>) (initial_state E 22)"

text \<open>
  The tree of the root and its two children, where the first child is loaded, holds the
  geometry 5 and has the one-time dispose handler 9.
\<close>

definition tree_state :: "(xnum, nat) config \<Rightarrow> (xnum, nat) state" where
  "tree_state E =
     update_node 1 (\<lambda>n. n\<lparr> geometry := Some 5, loaded := True, oneTimeDisposeHandlers := [9] \<rparr>)
       (snd (parseHierarchy binary64 E 0 two_children_record (initial_state E 22)))"

text \<open>
  A \<^verbatim>\<open>fetch\<close> that rejects, one that answers with 23 bytes, one that answers with the
  bytes of the one-point node, one that answers a hierarchy request with the leaf record
  and rejects a payload request, and the variables of \<^verbatim>\<open>parseHierarchy\<close> at its
  start on the root.
\<close>

definition fetch_fails :: "request \<Rightarrow> error + byte list" where
  "fetch_fails req = Inl NetworkError"

definition fetch_23_bytes :: "request \<Rightarrow> error + byte list" where
  "fetch_23_bytes req = Inr (leaf_record @ [0])"

definition fetch_one_point :: "request \<Rightarrow> error + byte list" where
  "fetch_one_point req = Inr [1, 0, 0, 0, 2, 0, 0, 0, 3, 0, 0, 0]"

definition fetch_hierarchy_only :: "request \<Rightarrow> error + byte list" where
  "fetch_hierarchy_only req =
     (if req_file req = HierarchyBin then Inr leaf_record else Inl NetworkError)"

definition parse_start :: "(xnum, nat) parse_state" where
  "parse_start = \<lparr> nodes = (\<lambda>i. None)(0 \<mapsto> 0), nodePos = 1,
                    world = initial_state (cfg fetch_fails) 22 \<rparr>"

text \<open>
  Two hierarchy buffers: two leaf records, of which the second has no node, and an inner
  node with its two leaves; and a \<^verbatim>\<open>fetch\<close> that answers with the first.
\<close>

definition two_leaves :: "byte list" where
  "two_leaves = leaf_record @ leaf_record"

definition three_records :: "byte list" where
  "three_records = two_children_record @ leaf_record @ leaf_record"

definition fetch_two_leaves :: "request \<Rightarrow> error + byte list" where
  "fetch_two_leaves req = Inr two_leaves"
section \<open>Rounding\<close>

subsection \<open>Powers of two, binades and the rounded value\<close>

lemma pow2_powi: "pow2 e = 2 powi e"
  by (simp add: pow2_def power_int_def field_simps)

lemma pow2_pos [simp]: "0 < pow2 e"
  by (simp add: pow2_def)

lemma pow2_neq_0 [simp]: "pow2 e \<noteq> 0"
  by (simp add: pow2_def)

lemma pow2_not_le_0 [simp]: "\<not> pow2 e \<le> 0"
  by (simp add: not_le)

lemma pow2_nonneg [simp]: "0 \<le> pow2 e"
  by (simp add: pow2_def)

lemma pow2_add: "pow2 (a + b) = pow2 a * pow2 b"
  by (simp add: pow2_powi power_int_add)

lemma pow2_diff: "pow2 (a - b) = pow2 a / pow2 b"
  by (simp add: pow2_powi power_int_diff)

lemma pow2_0 [simp]: "pow2 0 = 1"
  by (simp add: pow2_def)

lemma pow2_nat: "pow2 (int n) = 2 ^ n"
  by (simp add: pow2_def)

lemma pow2_minus: "pow2 (- e) = 1 / pow2 e"
  by (simp add: pow2_powi power_int_minus field_simps)

lemma pow2_mono: "a \<le> b \<Longrightarrow> pow2 a \<le> pow2 b"
  by (simp add: pow2_powi power_int_increasing)

lemma pow2_strict_mono: "a < b \<Longrightarrow> pow2 a < pow2 b"
  by (simp add: pow2_powi power_int_strict_increasing)

lemma pow2_1 [simp]: "pow2 1 = 2"
  by (simp add: pow2_def)

lemma pow2_Suc: "pow2 (e + 1) = 2 * pow2 e"
  using pow2_add [of e 1] by simp

lemma binexp_bounds:
  assumes "x \<noteq> 0"
  shows "pow2 (binexp x) \<le> \<bar>x\<bar>" and "\<bar>x\<bar> < pow2 (binexp x + 1)"
proof -
  have "pow2 (binexp x) \<le> \<bar>x\<bar> \<and> \<bar>x\<bar> < pow2 (binexp x + 1)"
  proof (cases "1 \<le> \<bar>x\<bar>")
    case True
    define n where "n = \<lfloor>\<bar>x\<bar>\<rfloor>"
    have n: "0 < n" using True by (simp add: n_def)
    have e: "binexp x = bitlen n - 1" using True by (simp add: binexp_def n_def)
    have b1: "1 \<le> bitlen n" using n by (simp add: bitlen_alt_def)
    from bitlen_bounds [OF n] have
      lo: "(2::int) ^ nat (bitlen n - 1) \<le> n" and hi: "n < 2 ^ nat (bitlen n)" by simp_all
    have "pow2 (bitlen n - 1) = of_int (2 ^ nat (bitlen n - 1))"
      using b1 by (simp add: pow2_def)
    also have "\<dots> \<le> of_int n" using lo by (simp only: of_int_le_iff)
    also have "\<dots> \<le> \<bar>x\<bar>" by (simp add: n_def)
    finally have 1: "pow2 (binexp x) \<le> \<bar>x\<bar>" using e by simp
    have "n + 1 \<le> 2 ^ nat (bitlen n)" using hi by simp
    then have "real_of_int (n + 1) \<le> of_int (2 ^ nat (bitlen n))" by (simp only: of_int_le_iff)
    moreover have "\<bar>x\<bar> < of_int (n + 1)" unfolding n_def by linarith
    ultimately have "\<bar>x\<bar> < of_int (2 ^ nat (bitlen n))" by linarith
    also have "\<dots> = pow2 (bitlen n)" using b1 by (simp add: pow2_def)
    finally have "\<bar>x\<bar> < pow2 (binexp x + 1)" using e by simp
    with 1 show ?thesis by simp
  next
    case False
    define y where "y = 1 / \<bar>x\<bar>"
    define n where "n = \<lceil>y\<rceil> - 1"
    have y1: "1 < y" using False assms by (simp add: y_def)
    have n: "0 < n" using y1 by (simp add: n_def)
    have ny: "of_int n < y" "y \<le> of_int n + 1" unfolding n_def by linarith+
    have e: "binexp x = - bitlen n" using False by (simp add: binexp_def n_def y_def)
    have b1: "1 \<le> bitlen n" using n by (simp add: bitlen_alt_def)
    from bitlen_bounds [OF n] have
      lo: "(2::int) ^ nat (bitlen n - 1) \<le> n" and hi: "n < 2 ^ nat (bitlen n)" by simp_all
    have x: "\<bar>x\<bar> = 1 / y" using assms by (simp add: y_def)
    have "n + 1 \<le> 2 ^ nat (bitlen n)" using hi by simp
    then have "real_of_int (n + 1) \<le> of_int (2 ^ nat (bitlen n))" by (simp only: of_int_le_iff)
    moreover have "real_of_int (2 ^ nat (bitlen n)) = 2 ^ nat (bitlen n)" by simp
    moreover have "real_of_int (n + 1) = of_int n + 1" by simp
    ultimately have "y \<le> 2 ^ nat (bitlen n)" using ny by linarith
    then have "1 / 2 ^ nat (bitlen n) \<le> 1 / y" using y1 by (simp add: frac_le)
    moreover have "pow2 (- bitlen n) = 1 / 2 ^ nat (bitlen n)"
      using b1 by (simp add: pow2_def)
    ultimately have 1: "pow2 (binexp x) \<le> \<bar>x\<bar>" using e x by simp
    have "real_of_int (2 ^ nat (bitlen n - 1)) \<le> of_int n" using lo by (simp only: of_int_le_iff)
    moreover have "real_of_int (2 ^ nat (bitlen n - 1)) = 2 ^ nat (bitlen n - 1)" by simp
    ultimately have "2 ^ nat (bitlen n - 1) < y" using ny by linarith
    then have "1 / y < 1 / 2 ^ nat (bitlen n - 1)" by (simp add: frac_less2)
    moreover have "pow2 (- bitlen n + 1) = 1 / 2 ^ nat (bitlen n - 1)"
      using b1 by (auto simp: pow2_def)
    ultimately have "\<bar>x\<bar> < pow2 (binexp x + 1)" using e x by simp
    with 1 show ?thesis by simp
  qed
  then show "pow2 (binexp x) \<le> \<bar>x\<bar>" and "\<bar>x\<bar> < pow2 (binexp x + 1)" by simp_all
qed

lemma binexp_unique:
  assumes "pow2 e \<le> \<bar>x\<bar>" and "\<bar>x\<bar> < pow2 (e + 1)"
  shows "binexp x = e"
proof -
  have "0 < \<bar>x\<bar>" using assms(1) pow2_pos [of e] by linarith
  then have x: "x \<noteq> 0" by simp
  note b = binexp_bounds [OF x]
  have "\<not> binexp x < e"
  proof
    assume "binexp x < e"
    then have "pow2 (binexp x + 1) \<le> pow2 e" by (intro pow2_mono) simp
    then show False using b(2) assms(1) by simp
  qed
  moreover have "\<not> e < binexp x"
  proof
    assume "e < binexp x"
    then have "pow2 (e + 1) \<le> pow2 (binexp x)" by (intro pow2_mono) simp
    then show False using b(1) assms(2) by simp
  qed
  ultimately show ?thesis by simp
qed

lemma binexp_le: "x \<noteq> 0 \<Longrightarrow> \<bar>x\<bar> < pow2 e \<Longrightarrow> binexp x < e"
proof (rule ccontr)
  assume x: "x \<noteq> 0" and a: "\<bar>x\<bar> < pow2 e" and n: "\<not> binexp x < e"
  then have "pow2 e \<le> pow2 (binexp x)" by (intro pow2_mono) simp
  then show False using binexp_bounds(1) [OF x] a by simp
qed

lemma binexp_ge: "pow2 e \<le> \<bar>x\<bar> \<Longrightarrow> e \<le> binexp x"
proof (rule ccontr)
  assume a: "pow2 e \<le> \<bar>x\<bar>" and n: "\<not> e \<le> binexp x"
  have "0 < \<bar>x\<bar>" using a pow2_pos [of e] by linarith
  then have x: "x \<noteq> 0" by simp
  from n have "pow2 (binexp x + 1) \<le> pow2 e" by (intro pow2_mono) simp
  then show False using binexp_bounds(2) [OF x] a by simp
qed

lemma rte_of_int [simp]: "rte (of_int k) = k"
  by (simp add: rte_def)

lemma rte_error: "\<bar>of_int (rte x) - x\<bar> \<le> 1 / 2"
  unfolding rte_def Let_def by (auto simp: abs_if) linarith+


lemma rte_between: "\<lfloor>x\<rfloor> \<le> rte x \<and> rte x \<le> \<lceil>x\<rceil>"
  unfolding rte_def Let_def by (auto simp: ceiling_altdef)

lemma rte_bound: "\<bar>x\<bar> \<le> of_int K \<Longrightarrow> \<bar>rte x\<bar> \<le> K"
proof -
  assume a: "\<bar>x\<bar> \<le> of_int K"
  then have "- of_int K \<le> x" "x \<le> of_int K" by linarith+
  then have "- K \<le> \<lfloor>x\<rfloor>" "\<lceil>x\<rceil> \<le> K" by (simp_all add: le_floor_iff ceiling_le_iff)
  then show ?thesis using rte_between [of x] by linarith
qed

lemma round_to_0 [simp]: "round_to p emin 0 = 0"
  by (simp add: round_to_def rte_def)

lemma round_to_error:
  "\<bar>round_to p emin x - x\<bar> \<le> pow2 (max (binexp x) emin - int p + 1) / 2"
proof -
  define q where "q = max (binexp x) emin - int p + 1"
  have "round_to p emin x - x = (of_int (rte (x / pow2 q)) - x / pow2 q) * pow2 q"
    using pow2_pos [of q] by (simp add: round_to_def q_def Let_def field_simps)
  then have "\<bar>round_to p emin x - x\<bar> = \<bar>of_int (rte (x / pow2 q)) - x / pow2 q\<bar> * pow2 q"
    by (simp add: abs_mult)
  also have "\<dots> \<le> (1 / 2) * pow2 q"
    by (intro mult_right_mono rte_error) simp
  finally show ?thesis by (simp add: q_def)
qed

lemma round_to_rel:
  assumes "x \<noteq> 0" and "emin \<le> binexp x"
  shows "\<bar>round_to p emin x - x\<bar> \<le> \<bar>x\<bar> * pow2 (- int p)"
proof -
  have "max (binexp x) emin - int p + 1 = (binexp x + (- int p)) + 1" using assms(2) by simp
  then have "pow2 (max (binexp x) emin - int p + 1) / 2 = pow2 (binexp x) * pow2 (- int p)"
    by (simp only: pow2_Suc pow2_add) simp
  also have "\<dots> \<le> \<bar>x\<bar> * pow2 (- int p)"
    by (intro mult_right_mono binexp_bounds(1) assms(1)) simp
  finally show ?thesis using round_to_error [of p emin x] by linarith
qed

lemma round_to_bound:
  "\<bar>round_to p emin x - x\<bar> \<le> \<bar>x\<bar> * pow2 (- int p) + pow2 (emin - int p)"
proof (cases "x \<noteq> 0 \<and> emin \<le> binexp x")
  case True
  then show ?thesis using round_to_rel [of x emin p] pow2_pos [of "emin - int p"] by linarith
next
  case False
  show ?thesis
  proof (cases "x = 0")
    case True
    then show ?thesis by simp
  next
    case x: False
    then have "max (binexp x) emin - int p + 1 = (emin - int p) + 1" using False by simp
    then have "pow2 (max (binexp x) emin - int p + 1) / 2 = pow2 (emin - int p)"
      by (simp add: pow2_Suc)
    moreover have "0 \<le> \<bar>x\<bar> * pow2 (- int p)" by simp
    ultimately show ?thesis using round_to_error [of p emin x] by linarith
  qed
qed

text \<open>A multiple of a power of two with a short mantissa is not changed.\<close>

lemma round_to_fixed:
  assumes "\<bar>m\<bar> < 2 ^ p" and "emin - int p + 1 \<le> q"
  shows "round_to p emin (of_int m * pow2 q) = of_int m * pow2 q"
proof (cases "m = 0")
  case True
  then show ?thesis by simp
next
  case False
  define x where "x = of_int m * pow2 q"
  define Q where "Q = max (binexp x) emin - int p + 1"
  have x0: "x \<noteq> 0" using False pow2_pos [of q] by (simp add: x_def)
  have "\<bar>x\<bar> = of_int \<bar>m\<bar> * pow2 q" by (simp add: x_def abs_mult)
  also have "\<dots> < of_int (2 ^ p) * pow2 q"
    using assms(1) by (intro mult_strict_right_mono) (simp_all only: of_int_less_iff pow2_pos)
  also have "\<dots> = pow2 (int p + q)" by (simp add: pow2_add pow2_nat)
  finally have "binexp x < int p + q" using binexp_le [OF x0] by simp
  then have Qq: "Q \<le> q" using assms(2) by (simp add: Q_def)
  have "pow2 q = pow2 (q - Q) * pow2 Q" using pow2_add [of "q - Q" Q] by simp
  moreover have "pow2 (q - Q) = 2 ^ nat (q - Q)" using Qq by (simp add: pow2_def)
  ultimately have pq: "pow2 q = 2 ^ nat (q - Q) * pow2 Q" by simp
  have "x / pow2 Q = of_int (m * 2 ^ nat (q - Q))"
    using pow2_pos [of Q] by (simp add: x_def pq)
  then have "rte (x / pow2 Q) = m * 2 ^ nat (q - Q)" by (simp only: rte_of_int)
  then have "round_to p emin x = of_int (m * 2 ^ nat (q - Q)) * pow2 Q"
    by (simp add: round_to_def Q_def Let_def)
  also have "\<dots> = x" by (simp add: x_def pq)
  finally show ?thesis by (simp add: x_def)
qed

text \<open>The result of rounding is such a multiple.\<close>

lemma round_to_form:
  assumes "1 \<le> p"
  shows "\<exists>m q. round_to p emin x = of_int m * pow2 q \<and> \<bar>m\<bar> < 2 ^ p \<and> emin - int p + 1 \<le> q"
proof (cases "x = 0")
  case True
  have "round_to p emin x = of_int 0 * pow2 (emin - int p + 1)" using True by simp
  then show ?thesis by (intro exI [of _ 0] exI [of _ "emin - int p + 1"]) simp
next
  case False
  define Q where "Q = max (binexp x) emin - int p + 1"
  define m where "m = rte (x / pow2 Q)"
  have r: "round_to p emin x = of_int m * pow2 Q" by (simp add: round_to_def Q_def m_def Let_def)
  have "binexp x + 1 \<le> Q + int p" by (simp add: Q_def)
  then have "pow2 (binexp x + 1) \<le> pow2 (Q + int p)" by (rule pow2_mono)
  then have "\<bar>x\<bar> < pow2 (Q + int p)" using binexp_bounds(2) [OF False] by linarith
  then have "\<bar>x\<bar> < pow2 Q * 2 ^ p" by (simp add: pow2_add pow2_nat)
  then have "\<bar>x / pow2 Q\<bar> < 2 ^ p" using pow2_pos [of Q] by (simp add: field_simps abs_mult)
  then have "\<bar>x / pow2 Q\<bar> \<le> of_int (2 ^ p)" by simp
  then have mb: "\<bar>m\<bar> \<le> 2 ^ p" unfolding m_def by (rule rte_bound)
  have Qe: "emin - int p + 1 \<le> Q" by (simp add: Q_def)
  show ?thesis
  proof (cases "\<bar>m\<bar> < 2 ^ p")
    case True
    then show ?thesis using r Qe by blast
  next
    case False
    then have "\<bar>m\<bar> = 2 ^ p" using mb by simp
    then have "m = 2 ^ p \<or> m = - (2 ^ p)" by (auto simp: abs_if split: if_splits)
    then have "round_to p emin x = of_int 1 * pow2 (Q + int p) \<or>
               round_to p emin x = of_int (- 1) * pow2 (Q + int p)"
      using r by (auto simp: pow2_add pow2_nat)
    moreover have "\<bar>1 :: int\<bar> < 2 ^ p" "\<bar>- 1 :: int\<bar> < 2 ^ p"
      using assms by (simp_all add: one_less_power)
    moreover have "emin - int p + 1 \<le> Q + int p" using Qe by simp
    ultimately show ?thesis by blast
  qed
qed

lemma round_to_idem: "1 \<le> p \<Longrightarrow> round_to p emin (round_to p emin x) = round_to p emin x"
  using round_to_form [of p emin x] round_to_fixed [of _ p emin] by force

lemma round_to_wider:
  assumes "1 \<le> p" and "p \<le> p'" and "emin' - int p' \<le> emin - int p"
  shows "round_to p' emin' (round_to p emin x) = round_to p emin x"
proof -
  from round_to_form [OF assms(1), of emin x] obtain m q where
    f: "round_to p emin x = of_int m * pow2 q" "\<bar>m\<bar> < 2 ^ p" "emin - int p + 1 \<le> q"
    by blast
  have "(2::int) ^ p \<le> 2 ^ p'" using assms(2) by (simp add: power_increasing)
  then have "\<bar>m\<bar> < 2 ^ p'" using f(2) by linarith
  moreover have "emin' - int p' + 1 \<le> q" using f(3) assms(3) by linarith
  ultimately show ?thesis unfolding f(1) by (rule round_to_fixed)
qed

lemma round_to_dyadic:
  assumes "\<bar>m\<bar> < 2 ^ p" and "int j \<le> int p - 1 - emin"
  shows "round_to p emin (of_int m / 2 ^ j) = of_int m / 2 ^ j"
proof -
  have "of_int m / 2 ^ j = of_int m * pow2 (- int j)"
    by (simp add: pow2_minus pow2_nat)
  moreover have "emin - int p + 1 \<le> - int j" using assms(2) by simp
  ultimately show ?thesis using round_to_fixed [OF assms(1), of emin "- int j"] by simp
qed


subsection \<open>The two formats\<close>

lemma rnd_0 [simp]: "rnd p emin emax 0 = Fin 0"
  by (simp add: rnd_def)

lemma round_0 [simp]: "round64 0 = Fin 0" "round32 0 = Fin 0"
  by (simp_all add: round64_def round32_def)

lemma finite_value_zero_of [simp]: "finite_value (zero_of s) = Some 0"
  by (simp add: zero_of_def)

text \<open>Below the largest power of two of the format, a rounded number is finite.\<close>

lemma rnd_finite:
  assumes "\<bar>x\<bar> \<le> pow2 emax" and "emin - int p < emax - 1" and "1 \<le> p"
  shows "finite_value (rnd p emin emax x) = Some (round_to p emin x)"
proof -
  have "int p \<ge> 1" using assms(3) by simp
  then have "pow2 (- int p) \<le> pow2 (- 1)" by (intro pow2_mono) simp
  then have h: "pow2 (- int p) \<le> 1 / 2" by (simp add: pow2_def)
  have "\<bar>x\<bar> * pow2 (- int p) \<le> pow2 emax * (1 / 2)"
    using assms(1) h by (intro mult_mono) simp_all
  moreover have "pow2 (emin - int p) < pow2 (emax - 1)" using assms(2) by (rule pow2_strict_mono)
  moreover have "pow2 (emax - 1) = pow2 emax / 2" using pow2_Suc [of "emax - 1"] by simp
  ultimately have "\<bar>round_to p emin x - x\<bar> < pow2 emax"
    using round_to_bound [of p emin x] by linarith
  then have "\<bar>round_to p emin x\<bar> < 2 * pow2 emax" using assms(1) by linarith
  then have "\<not> pow2 (emax + 1) \<le> \<bar>round_to p emin x\<bar>" by (simp add: pow2_Suc)
  then show ?thesis by (auto simp: rnd_def Let_def)
qed

lemma round64_finite:
  "\<bar>x\<bar> \<le> pow2 1023 \<Longrightarrow> finite_value (round64 x) = Some (round_to 53 (- 1022) x)"
  unfolding round64_def by (rule rnd_finite) simp_all

lemma round32_finite:
  "\<bar>x\<bar> \<le> pow2 127 \<Longrightarrow> finite_value (round32 x) = Some (round_to 24 (- 126) x)"
  unfolding round32_def by (rule rnd_finite) simp_all

text \<open>A number of the format is its own rounding.\<close>

lemma rnd_dyadic:
  assumes "m \<noteq> 0" and "\<bar>m\<bar> < 2 ^ p" and "int j \<le> int p - 1 - emin" and "int p \<le> emax + 1"
  shows "rnd p emin emax (of_int m / 2 ^ j) = Fin (of_int m / 2 ^ j)"
proof -
  let ?x = "real_of_int m / 2 ^ j"
  have r: "round_to p emin ?x = ?x" using assms(2,3) by (rule round_to_dyadic)
  have "\<bar>?x\<bar> \<le> of_int \<bar>m\<bar>"
    by (simp add: abs_divide field_simps) (simp add: mult_le_cancel_left1 abs_if)
  also have "\<dots> < of_int (2 ^ p)" using assms(2) by (simp only: of_int_less_iff)
  also have "\<dots> = pow2 (int p)" by (simp add: pow2_nat)
  also have "\<dots> \<le> pow2 (emax + 1)" using assms(4) by (rule pow2_mono)
  finally have "\<not> pow2 (emax + 1) \<le> \<bar>?x\<bar>" by simp
  moreover have "?x \<noteq> 0" using assms(1) by simp
  ultimately show ?thesis by (simp add: rnd_def r Let_def)
qed

subsection \<open>Evaluation\<close>

text \<open>Integers and halves of integers with a short mantissa are numbers of both formats.\<close>

lemma round64_numeral:
  "(numeral n :: int) < 2 ^ 53 \<Longrightarrow> round64 (numeral n) = Fin (numeral n)"
  "(numeral n :: int) < 2 ^ 53 \<Longrightarrow> round64 (- numeral n) = Fin (- numeral n)"
  "(numeral n :: int) < 2 ^ 53 \<Longrightarrow> round64 (numeral n / 2) = Fin (numeral n / 2)"
  "round64 1 = Fin 1" "round64 (1 / 2) = Fin (1 / 2)"
  using rnd_dyadic [of "numeral n" 53 0 "- 1022" 1023]
    rnd_dyadic [of "- numeral n" 53 0 "- 1022" 1023]
    rnd_dyadic [of "numeral n" 53 1 "- 1022" 1023]
    rnd_dyadic [of 1 53 0 "- 1022" 1023] rnd_dyadic [of 1 53 1 "- 1022" 1023]
  by (simp_all add: round64_def)

lemma round32_numeral:
  "(numeral n :: int) < 2 ^ 24 \<Longrightarrow> round32 (numeral n) = Fin (numeral n)"
  "(numeral n :: int) < 2 ^ 24 \<Longrightarrow> round32 (- numeral n) = Fin (- numeral n)"
  "(numeral n :: int) < 2 ^ 24 \<Longrightarrow> round32 (numeral n / 2) = Fin (numeral n / 2)"
  "round32 1 = Fin 1" "round32 (1 / 2) = Fin (1 / 2)"
  using rnd_dyadic [of "numeral n" 24 0 "- 126" 127]
    rnd_dyadic [of "- numeral n" 24 0 "- 126" 127]
    rnd_dyadic [of "numeral n" 24 1 "- 126" 127]
    rnd_dyadic [of 1 24 0 "- 126" 127] rnd_dyadic [of 1 24 1 "- 126" 127]
  by (simp_all add: round32_def)

lemmas binary64_defs = binary64_def xadd_def xsub_def xmul_def xdiv_def xmin_def zero_of_def
  inf_of_def round64_numeral round32_numeral round_0



subsection \<open>The error of a rounding\<close>

lemma pow2_neg_nat: "pow2 (- int n) = 1 / 2 ^ n"
  by (simp add: pow2_minus pow2_nat)

lemma R64_err: "\<bar>round_to 53 (- 1022) x - x\<bar> \<le> \<bar>x\<bar> / 2 ^ 53 + 1 / 2 ^ 200"
proof -
  have "pow2 (- 1022 - int 53) \<le> pow2 (- int 200)" by (intro pow2_mono) simp
  then have 1: "pow2 (- 1022 - int 53) \<le> 1 / 2 ^ 200" by (simp only: pow2_neg_nat)
  have 2: "\<bar>x\<bar> * pow2 (- int 53) = \<bar>x\<bar> / 2 ^ 53" by (simp only: pow2_neg_nat) simp
  from round_to_bound [of 53 "- 1022" x] show ?thesis unfolding 2 using 1 by linarith
qed

lemma R64_err_normal:
  assumes "1 / 2 ^ 200 \<le> \<bar>x\<bar>"
  shows "\<bar>round_to 53 (- 1022) x - x\<bar> \<le> \<bar>x\<bar> / 2 ^ 53"
proof -
  have "pow2 (- 1022) \<le> pow2 (- int 200)" by (intro pow2_mono) simp
  then have "pow2 (- 1022) \<le> 1 / 2 ^ 200" by (simp only: pow2_neg_nat)
  then have "pow2 (- 1022) \<le> \<bar>x\<bar>" using assms by linarith
  then have e: "- 1022 \<le> binexp x" by (rule binexp_ge)
  have "(0::real) < 1 / 2 ^ 200" by simp
  then have "0 < \<bar>x\<bar>" using assms by linarith
  then have x: "x \<noteq> 0" by simp
  have 2: "\<bar>x\<bar> * pow2 (- int 53) = \<bar>x\<bar> / 2 ^ 53" by (simp only: pow2_neg_nat) simp
  from round_to_rel [OF x e, of 53] show ?thesis unfolding 2 .
qed

lemma R32_err: "\<bar>round_to 24 (- 126) x - x\<bar> \<le> \<bar>x\<bar> / 2 ^ 24 + 1 / 2 ^ 150"
proof -
  have "pow2 (- 126 - int 24) = pow2 (- int 150)" by simp
  then have 1: "pow2 (- 126 - int 24) = 1 / 2 ^ 150" by (simp only: pow2_neg_nat)
  have 2: "\<bar>x\<bar> * pow2 (- int 24) = \<bar>x\<bar> / 2 ^ 24" by (simp only: pow2_neg_nat) simp
  from round_to_bound [of 24 "- 126" x] show ?thesis unfolding 1 2 .
qed


text \<open>The same bounds with decimal constants.\<close>

lemma R64_dec:
  "\<bar>round_to 53 (- 1022) x - x\<bar>
     \<le> \<bar>x\<bar> / 1000000000000000 + 1 / 1000000000000000000000000000000000000000000000000000000000000"
proof -
  have "\<bar>x\<bar> / 2 ^ 53 \<le> \<bar>x\<bar> / 1000000000000000" by (intro divide_left_mono) simp_all
  moreover have "(1::real) / 2 ^ 200
      \<le> 1 / 1000000000000000000000000000000000000000000000000000000000000" by simp
  ultimately show ?thesis using R64_err [of x] by linarith
qed

lemma R64_dec_normal:
  assumes "1 / 2 ^ 200 \<le> \<bar>x\<bar>"
  shows "\<bar>round_to 53 (- 1022) x - x\<bar> \<le> \<bar>x\<bar> / 1000000000000000"
proof -
  have "\<bar>x\<bar> / 2 ^ 53 \<le> \<bar>x\<bar> / 1000000000000000" by (intro divide_left_mono) simp_all
  then show ?thesis using R64_err_normal [OF assms] by linarith
qed

lemma R32_dec:
  "\<bar>round_to 24 (- 126) x - x\<bar>
     \<le> \<bar>x\<bar> / 16777216 + 1 / 1000000000000000000000000000000000000000000000"
proof -
  have "\<bar>x\<bar> / 2 ^ 24 = \<bar>x\<bar> / 16777216" by simp
  moreover have "(1::real) / 2 ^ 150 \<le> 1 / 1000000000000000000000000000000000000000000000"
    by simp
  ultimately show ?thesis using R32_err [of x] by linarith
qed



text \<open>
  The normalization and its reversal on the reals, each operation rounded: for a range
  \<open>[a, b]\<close> and a value \<open>v\<close> in it, the value that comes back is within
  \<open>(\<bar>v\<bar> + (b - a)) / 2^23\<close> of \<open>v\<close>, and no step overflows.
\<close>

lemma round_trip_real:
  fixes a b v :: real
  assumes a: "\<bar>a\<bar> \<le> 2 ^ 100" and b: "\<bar>b\<bar> \<le> 2 ^ 100"
    and D: "1 / 2 ^ 100 \<le> b - a" and v: "a \<le> v" "v \<le> b"
  defines "r \<equiv> round_to 53 (- 1022) (b - a)"
  defines "s \<equiv> round_to 53 (- 1022) (1 / r)"
  defines "a1 \<equiv> round_to 53 (- 1022) (v - a)"
  defines "b1 \<equiv> round_to 53 (- 1022) (a1 * s)"
  defines "d \<equiv> round_to 24 (- 126) b1"
  defines "c \<equiv> round_to 53 (- 1022) (d / s)"
  defines "t \<equiv> round_to 53 (- 1022) (c + a)"
  defines "e \<equiv> round_to 24 (- 126) t"
  shows "r \<noteq> 0" and "s \<noteq> 0"
    and "\<bar>b - a\<bar> \<le> 2 ^ 200" and "\<bar>1 / r\<bar> \<le> 2 ^ 200" and "\<bar>v - a\<bar> \<le> 2 ^ 200"
    and "\<bar>a1 * s\<bar> \<le> 2 ^ 200" and "\<bar>b1\<bar> \<le> 2 ^ 100" and "\<bar>d / s\<bar> \<le> 2 ^ 200"
    and "\<bar>c + a\<bar> \<le> 2 ^ 200" and "\<bar>t\<bar> \<le> 2 ^ 120"
    and "\<bar>e - v\<bar> \<le> (\<bar>v\<bar> + (b - a)) / 2 ^ 23"
proof -
  define D where "D = b - a"
  define M where "M = v - a"
  define ir where "ir = 1 / r"
  define g where "g = 1 / s"
  define k where "k = s * D"
  define p where "p = ir * D"
  define x2 where "x2 = a1 * s"
  define x4 where "x4 = d / s"
  have aT: "\<bar>a\<bar> \<le> 1267650600228229401496703205376" and bT: "\<bar>b\<bar> \<le> 1267650600228229401496703205376" using a b by simp_all
  have D1: "1 / 1267650600228229401496703205376 \<le> D" using D by (simp add: D_def)
  have D0: "0 < D" using D1 by (rule less_le_trans [rotated]) simp
  have D2: "D \<le> 2 * 1267650600228229401496703205376" using aT bT unfolding D_def by linarith
  have M0: "0 \<le> M" and MD: "M \<le> D" using v by (simp_all add: M_def D_def)
  have vT: "\<bar>v\<bar> \<le> 1267650600228229401496703205376" using v aT bT by linarith
  \<comment> \<open>the divisor of the scale\<close>
  have "(1::real) / 2 ^ 200 \<le> 1 / 1267650600228229401496703205376" by simp
  then have "1 / 2 ^ 200 \<le> \<bar>D\<bar>" using D1 by linarith
  from R64_dec_normal [OF this] have "\<bar>r - D\<bar> \<le> \<bar>D\<bar> / 1000000000000000"
    by (simp only: r_def D_def)
  then have r1: "\<bar>r - D\<bar> \<le> D / 1000000000000000" using D0 by simp
  have r0: "0 < r" using r1 D0 by linarith
  have rlo: "D * (999999999999999 / 1000000000000000) \<le> r" and rhi: "r \<le> D * (1000000000000001 / 1000000000000000)" using r1 by linarith+
  \<comment> \<open>the scale\<close>
  have ir0: "0 < ir" using r0 by (simp add: ir_def)
  have irr: "ir * r = 1" using r0 by (simp add: ir_def)
  have "ir * (D * (999999999999999 / 1000000000000000)) \<le> ir * r" using rlo ir0 by (intro mult_left_mono) simp_all
  then have p1: "p * (999999999999999 / 1000000000000000) \<le> 1" unfolding p_def irr by (simp only: mult.assoc)
  have "ir * r \<le> ir * (D * (1000000000000001 / 1000000000000000))" using rhi ir0 by (intro mult_left_mono) simp_all
  then have p2: "1 \<le> p * (1000000000000001 / 1000000000000000)" unfolding p_def irr by (simp only: mult.assoc)
  have "ir * (1 / 1267650600228229401496703205376) \<le> ir * D" using D1 ir0 by (intro mult_left_mono) simp_all
  then have "ir / 1267650600228229401496703205376 \<le> p" by (simp add: p_def)
  then have irhi: "ir \<le> 2 * 1267650600228229401496703205376" using p1 by linarith
  have "ir * D \<le> ir * (2 * 1267650600228229401496703205376)" using D2 ir0 by (intro mult_left_mono) simp_all
  then have "p \<le> ir * (2 * 1267650600228229401496703205376)" by (simp only: p_def)
  then have irlo: "1 / (4 * 1267650600228229401496703205376) \<le> ir" using p2 by linarith
  have "(1::real) / 2 ^ 200 \<le> 1 / (4 * 1267650600228229401496703205376)" by simp
  then have "1 / 2 ^ 200 \<le> \<bar>ir\<bar>" using irlo by linarith
  from R64_dec_normal [OF this] have "\<bar>s - ir\<bar> \<le> \<bar>ir\<bar> / 1000000000000000"
    by (simp only: s_def ir_def)
  then have s1: "\<bar>s - ir\<bar> \<le> ir / 1000000000000000" using ir0 by simp
  have s0: "0 < s" using s1 ir0 by linarith
  have slo: "ir * (999999999999999 / 1000000000000000) \<le> s" and shi': "s \<le> ir * (1000000000000001 / 1000000000000000)" using s1 by linarith+
  have "(ir * (999999999999999 / 1000000000000000)) * D \<le> s * D" using slo D0 by (intro mult_right_mono) simp_all
  then have "p * (999999999999999 / 1000000000000000) \<le> k" by (simp add: p_def k_def mult.commute mult.left_commute)
  then have klo: "(999999999999998 / 1000000000000000) \<le> k" using p2 by linarith
  have "s * D \<le> (ir * (1000000000000001 / 1000000000000000)) * D" using shi' D0 by (intro mult_right_mono) simp_all
  then have "k \<le> p * (1000000000000001 / 1000000000000000)" by (simp add: p_def k_def mult.commute mult.left_commute)
  then have khi: "k \<le> (1000000000000003 / 1000000000000000)" using p1 by linarith
  have g0: "0 < g" using s0 by (simp add: g_def)
  have gs: "g * s = 1" using s0 by (simp add: g_def)
  have gk: "g * k = D" unfolding k_def mult.assoc [symmetric] gs by simp
  have "g * (999999999999998 / 1000000000000000) \<le> g * k" using klo g0 by (intro mult_left_mono) simp_all
  then have "g * (999999999999998 / 1000000000000000) \<le> D" by (simp only: gk)
  then have ghi: "g \<le> D * (1000000000000003 / 1000000000000000)" using D0 g0 by linarith
  have "s * (1 / 1267650600228229401496703205376) \<le> s * D" using D1 s0 by (intro mult_left_mono) simp_all
  then have "s / 1267650600228229401496703205376 \<le> k" by (simp add: k_def)
  then have shi: "s \<le> 2 * 1267650600228229401496703205376" using khi by linarith
  \<comment> \<open>the normalization\<close>
  have "\<bar>a1 - M\<bar> \<le> \<bar>M\<bar> / 1000000000000000 + 1 / 1000000000000000000000000000000000000000000000000000000000000"
    using R64_dec [of M] by (simp only: a1_def M_def)
  then have a1e: "\<bar>a1 - M\<bar> \<le> M / 1000000000000000 + 1 / 1000000000000000000000000000000000000000000000000000000000000" using M0 by simp
  then have "\<bar>a1\<bar> \<le> D * (1000000000000001 / 1000000000000000) + 1 / 1000000000000000000000000000000000000000000000000000000000000" using M0 MD by linarith
  then have "\<bar>a1\<bar> * s \<le> (D * (1000000000000001 / 1000000000000000) + 1 / 1000000000000000000000000000000000000000000000000000000000000) * s"
    using s0 by (intro mult_right_mono) simp_all
  also have "\<dots> = k * (1000000000000001 / 1000000000000000) + s / 1000000000000000000000000000000000000000000000000000000000000" by (simp add: k_def algebra_simps)
  finally have "\<bar>a1\<bar> * s \<le> k * (1000000000000001 / 1000000000000000) + s / 1000000000000000000000000000000000000000000000000000000000000" .
  moreover have "\<bar>x2\<bar> = \<bar>a1\<bar> * s" using s0 by (simp add: x2_def abs_mult)
  ultimately have x2b: "\<bar>x2\<bar> \<le> (1000000000000005 / 1000000000000000)" using khi shi by linarith
  have b1e: "\<bar>b1 - x2\<bar> \<le> \<bar>x2\<bar> / 1000000000000000 + 1 / 1000000000000000000000000000000000000000000000000000000000000"
    using R64_dec [of x2] by (simp only: b1_def x2_def)
  have b1b: "\<bar>b1\<bar> \<le> (1000000000000007 / 1000000000000000)" using b1e x2b by linarith
  have de: "\<bar>d - b1\<bar> \<le> \<bar>b1\<bar> / 16777216 + 1 / 1000000000000000000000000000000000000000000000"
    using R32_dec [of b1] by (simp only: d_def)
  have db: "\<bar>d\<bar> \<le> 2" using de b1b by linarith
  have dx: "\<bar>d - x2\<bar> \<le> (1001 / 16777216000)" using de b1e b1b x2b by linarith
  \<comment> \<open>the reversal\<close>
  have "\<bar>x4\<bar> = \<bar>d\<bar> * g" using s0 by (simp add: x4_def g_def)
  moreover have "\<bar>d\<bar> * g \<le> 2 * g" using db g0 by (intro mult_right_mono) simp_all
  ultimately have x4b: "\<bar>x4\<bar> \<le> 2 * (D * (1000000000000003 / 1000000000000000))" using ghi by linarith
  have ce: "\<bar>c - x4\<bar> \<le> \<bar>x4\<bar> / 1000000000000000 + 1 / 1000000000000000000000000000000000000000000000000000000000000"
    using R64_dec [of x4] by (simp only: c_def x4_def)
  have "x2 * g = a1" unfolding x2_def mult.assoc using gs by (simp add: mult.commute)
  moreover have "(d - x2) * g = d * g - x2 * g" by (simp add: algebra_simps)
  moreover have "x4 = d * g" by (simp add: x4_def g_def)
  ultimately have "x4 - M = (d - x2) * g + (a1 - M)" by simp
  moreover have "\<bar>(d - x2) * g\<bar> = \<bar>d - x2\<bar> * g" using g0 by (simp add: abs_mult)
  moreover have "\<bar>d - x2\<bar> * g \<le> (1001 / 16777216000) * g" using dx g0 by (intro mult_right_mono) simp_all
  ultimately have x4M: "\<bar>x4 - M\<bar> \<le> (1001 / 16777216000) * g + M / 1000000000000000 + 1 / 1000000000000000000000000000000000000000000000000000000000000"
    using a1e by linarith
  have cM: "\<bar>c - M\<bar> \<le> D * (101 / 1677721600) + 2 / 1000000000000000000000000000000000000000000000000000000000000"
    using ce x4b x4M ghi MD M0 D0 by linarith
  define y where "y = c + a"
  define Y where "Y = \<bar>y\<bar>"
  define V where "V = \<bar>v\<bar>"
  define N where "N = \<bar>t\<bar>"
  define p0 where "p0 = \<bar>e - v\<bar>"
  define p1 where "p1 = \<bar>e - t\<bar>"
  define p2 where "p2 = \<bar>t - y\<bar>"
  define p3 where "p3 = \<bar>y - v\<bar>"
  have "y - v = c - M" by (simp add: y_def M_def)
  then have yv: "p3 \<le> D * (101 / 1677721600) + 2 / 1000000000000000000000000000000000000000000000000000000000000" using cM by (simp add: p3_def)
  have Yb: "Y \<le> V + p3" unfolding Y_def V_def p3_def by linarith
  have ty: "p2 \<le> Y / 1000000000000000 + 1 / 1000000000000000000000000000000000000000000000000000000000000"
    using R64_dec [of y] by (simp only: t_def y_def p2_def Y_def)
  have Nb: "N \<le> Y + p2" unfolding N_def Y_def p2_def by linarith
  have et: "p1 \<le> N / 16777216 + 1 / 1000000000000000000000000000000000000000000000"
    using R32_dec [of t] by (simp only: e_def p1_def N_def)
  have tri: "p0 \<le> p1 + p2 + p3" unfolding p0_def p1_def p2_def p3_def by linarith
  have VT: "V \<le> 1267650600228229401496703205376" using vT by (simp add: V_def)
  have x5c: "Y \<le> 2 * 1267650600228229401496703205376" using Yb yv VT D2 by linarith
  have tb: "N \<le> 3 * 1267650600228229401496703205376" using Nb ty x5c by linarith
  have V0: "0 \<le> V" by (simp add: V_def)
  have "p0 \<le> V / 8388608 + D / 8388608"
    using tri et ty yv Yb Nb D1 D0 V0 by linarith
  then have fin: "p0 \<le> (V + D) / 8388608" by (simp only: add_divide_distrib)
  have big: "(5::real) * 1267650600228229401496703205376 \<le> 2 ^ 200" "(3::real) * 1267650600228229401496703205376 \<le> 2 ^ 120" "(2::real) \<le> 2 ^ 100"
    by simp_all
  show "r \<noteq> 0" using r0 by simp
  show "s \<noteq> 0" using s0 by simp
  have "\<bar>D\<bar> \<le> 5 * 1267650600228229401496703205376" using D2 D0 by linarith
  then show "\<bar>b - a\<bar> \<le> 2 ^ 200" unfolding D_def using big(1) by (rule order_trans)
  have "\<bar>ir\<bar> \<le> 5 * 1267650600228229401496703205376" using irhi ir0 by linarith
  then show "\<bar>1 / r\<bar> \<le> 2 ^ 200" unfolding ir_def using big(1) by (rule order_trans)
  have "\<bar>M\<bar> \<le> 5 * 1267650600228229401496703205376" using M0 MD D2 by linarith
  then show "\<bar>v - a\<bar> \<le> 2 ^ 200" unfolding M_def using big(1) by (rule order_trans)
  have "\<bar>x2\<bar> \<le> 5 * 1267650600228229401496703205376" using x2b by linarith
  then show "\<bar>a1 * s\<bar> \<le> 2 ^ 200" unfolding x2_def using big(1) by (rule order_trans)
  have "\<bar>b1\<bar> \<le> 2" using b1b by linarith
  then show "\<bar>b1\<bar> \<le> 2 ^ 100" using big(3) by (rule order_trans)
  have "\<bar>x4\<bar> \<le> 5 * 1267650600228229401496703205376" using x4b D2 by linarith
  then show "\<bar>d / s\<bar> \<le> 2 ^ 200" unfolding x4_def using big(1) by (rule order_trans)
  have "\<bar>y\<bar> \<le> 5 * 1267650600228229401496703205376" using x5c by (simp add: Y_def)
  then show "\<bar>c + a\<bar> \<le> 2 ^ 200" unfolding y_def using big(1) by (rule order_trans)
  have "\<bar>t\<bar> \<le> 3 * 1267650600228229401496703205376" using tb by (simp add: N_def)
  then show "\<bar>t\<bar> \<le> 2 ^ 120" using big(2) by (rule order_trans)
  have "(\<bar>v\<bar> + (b - a)) / 2 ^ 23 = (V + D) / 8388608" by (simp add: V_def D_def)
  then show "\<bar>e - v\<bar> \<le> (\<bar>v\<bar> + (b - a)) / 2 ^ 23" using fin by (simp only: p0_def)
qed

section \<open>Evaluation and loops\<close>

text \<open>Unfolding a range and a fresh array of a literal length.\<close>

lemma upt_numeral_unfold:
  "[i..<numeral k] = (if i < numeral k then i # [Suc i..<numeral k] else [])"
  by (rule upt_rec)

lemma replicate_numeral_unfold:
  "replicate (numeral k) x = x # replicate (pred_numeral k) x"
  by (simp add: numeral_eq_Suc)

lemmas eval_simps = upt_numeral_unfold replicate_numeral_unfold

lemmas dataview_defs =
  getUint8_def getUint16_def getUint32_def getUint64_def getInt8_def getInt16_def getInt32_def
  getFloat32_def getFloat64_def getBigInt64_def read_as_def

lemmas decoder_defs =
  handleMessage_def decode_attribute_def decode_position_def position_step_def toIndex_def
  grid_post_increment_def gridSize_def decode_rgba_def rgba_step_def color_channel_def
  decode_generic_def generic_step_def pack_offset_scale_def plain_entry_def indices_entry_def
  PointAttributeType_def source_float32_def number_of_def vector_step_def vector_source_def
  vector_buffer_def



lemma iterate_append:
  "iterate (xs @ ys) body s =
     (case iterate xs body s of Inl e \<Rightarrow> Inl e | Inr s' \<Rightarrow> iterate ys body s')"
  by (induction xs arbitrary: s) (auto split: sum.splits)

lemma iterate_upt_Suc:
  "iterate [0..<Suc n] body s =
     (case iterate [0..<n] body s of Inl e \<Rightarrow> Inl e | Inr s' \<Rightarrow> body n s')"
  by (simp add: iterate_append split: sum.splits)

text \<open>The invariant rule of a loop that completes.\<close>

lemma iterate_invariant:
  assumes "iterate [0..<n] body s0 = Inr s"
    and "P 0 s0"
    and "\<And>j t t'. j < n \<Longrightarrow> P j t \<Longrightarrow> body j t = Inr t' \<Longrightarrow> P (Suc j) t'"
  shows "P n s"
  using assms
proof (induction n arbitrary: s)
  case 0
  then show ?case by simp
next
  case (Suc n)
  from Suc.prems(1) obtain t where t: "iterate [0..<n] body s0 = Inr t" and b: "body n t = Inr s"
    by (auto simp: iterate_upt_Suc simp del: upt_Suc split: sum.splits)
  have "P n t"
    by (rule Suc.IH [OF t Suc.prems(2)]) (rule Suc.prems(3), auto)
  then show ?case using Suc.prems(3) [of n t s] b by simp
qed

text \<open>The rule of a loop none of whose passes throws: it completes.\<close>

lemma iterate_total:
  assumes "P 0 s0"
    and "\<And>j t. j < n \<Longrightarrow> P j t \<Longrightarrow> \<exists>t'. body j t = Inr t' \<and> P (Suc j) t'"
  shows "\<exists>s. iterate [0..<n] body s0 = Inr s \<and> P n s"
  using assms
proof (induction n)
  case 0
  then show ?case by simp
next
  case (Suc n)
  have "\<exists>t. iterate [0..<n] body s0 = Inr t \<and> P n t"
    by (rule Suc.IH [OF Suc.prems(1)]) (rule Suc.prems(2), auto)
  then obtain t where t: "iterate [0..<n] body s0 = Inr t" "P n t" by blast
  from Suc.prems(2) [of n t] t obtain t' where "body n t = Inr t'" "P (Suc n) t'" by auto
  then show ?case using t by (simp add: iterate_upt_Suc del: upt_Suc)
qed

section \<open>The decoder's branches\<close>

subsection \<open>Positions\<close>

lemma position_step_Inr:
  assumes "position_step A msg bpp j (ps, st) = Inr (ps', st')"
  shows "length ps' = length ps"
    and "attributeOffset st' = attributeOffset st"
    and "attributeBuffers st' = attributeBuffers st"
    and "3 * j + 2 < length ps \<Longrightarrow> position_entry A msg bpp (attributeOffset st) j ps'"
    and "\<forall>k. k < 3 * j \<longrightarrow> ps' ! k = ps ! k"
  using assms
  by (auto simp: position_step_def position_entry_def Let_def split: sum.splits prod.splits)

lemma position_entry_cong:
  "position_entry A msg bpp aoff i ps \<Longrightarrow> \<forall>k. k < 3 * i + 3 \<longrightarrow> ps' ! k = ps ! k
     \<Longrightarrow> position_entry A msg bpp aoff i ps'"
  by (auto simp: position_entry_def)

lemma decode_position_entries:
  assumes "decode_position A msg bpp st = Inr (ps, st')"
  shows "length ps = 3 * msg_numPoints msg \<and> attributeOffset st' = attributeOffset st \<and>
         attributeBuffers st' = attributeBuffers st \<and>
         (\<forall>j<msg_numPoints msg. position_entry A msg bpp (attributeOffset st) j ps)"
proof -
  let ?P = "\<lambda>j (p :: 'a list \<times> 'a decode_state).
      length (fst p) = 3 * msg_numPoints msg \<and> attributeOffset (snd p) = attributeOffset st \<and>
      attributeBuffers (snd p) = attributeBuffers st \<and>
      (\<forall>i<j. position_entry A msg bpp (attributeOffset st) i (fst p))"
  have "?P (msg_numPoints msg) (ps, st')"
  proof (rule iterate_invariant [OF assms [unfolded decode_position_def], of ?P])
    show "?P 0 (replicate (msg_numPoints msg * 3) (number A 0), st)" by simp
  next
    fix j t t'
    assume j: "j < msg_numPoints msg" and P: "?P j t"
      and b: "position_step A msg bpp j t = Inr t'"
    obtain p s where t: "t = (p, s)" by (cases t)
    obtain p' s' where t': "t' = (p', s')" by (cases t')
    note r = position_step_Inr [OF b [unfolded t t']]
    have len: "3 * j + 2 < length p" using j P t by simp
    have new: "position_entry A msg bpp (attributeOffset st) j p'"
      using r(4) [OF len] P t by simp
    have old: "\<forall>i<j. position_entry A msg bpp (attributeOffset st) i p'"
    proof (intro allI impI)
      fix i assume "i < j"
      then have "\<forall>k. k < 3 * i + 3 \<longrightarrow> p' ! k = p ! k" using r(5) by simp
      moreover have "position_entry A msg bpp (attributeOffset st) i p"
        using P t \<open>i < j\<close> by simp
      ultimately show "position_entry A msg bpp (attributeOffset st) i p'"
        by (rule position_entry_cong [rotated])
    qed
    show "?P (Suc j) t'"
      using P r(1-3) new old t t' by (auto simp: less_Suc_eq)
  qed
  then show ?thesis by simp
qed

subsection \<open>The frame of the loop over the attributes\<close>

lemma bytesPerPoint_sum:
  "foldl (\<lambda>acc pa. acc + attr_byteSize pa) a pas = a + sum_list (map attr_byteSize pas)"
  by (induction pas arbitrary: a) auto

lemma decode_attribute_frame:
  assumes "decode_attribute A msg bpp pa st = Inr st'"
  shows "attributeOffset st' = attributeOffset st + attr_byteSize pa"
    and "k \<noteq> attr_name pa \<Longrightarrow> attributeBuffers st' k = attributeBuffers st k"
  using assms
  by (auto simp: decode_attribute_def split: if_splits sum.splits prod.splits
           dest!: decode_position_entries)

lemma decode_attributes_frame:
  assumes "decode_attributes A msg bpp pas st = Inr st'"
  shows "attributeOffset st' = attributeOffset st + sum_list (map attr_byteSize pas)"
    and "k \<notin> attr_name ` set pas \<Longrightarrow> attributeBuffers st' k = attributeBuffers st k"
  using assms
  by (induction pas arbitrary: st) (auto split: sum.splits dest: decode_attribute_frame)

lemma decode_attributes_append:
  "decode_attributes A msg bpp (xs @ ys) st =
     (case decode_attributes A msg bpp xs st of
        Inl e \<Rightarrow> Inl e
      | Inr st' \<Rightarrow> decode_attributes A msg bpp ys st')"
  by (induction xs arbitrary: st) (auto split: sum.splits)

lemma attribute_vectors_frame:
  assumes "attribute_vectors A n vs bufs = Inr bufs'"
    and "k \<notin> vec_name ` set vs"
  shows "bufs' k = bufs k"
  using assms
  by (induction vs arbitrary: bufs) (auto split: sum.splits)

lemma decode_attribute_position:
  assumes "decode_attribute A msg bpp pa st = Inr st'"
    and "attr_name pa = ''position'' \<or> attr_name pa = ''POSITION_CARTESIAN''"
  shows "\<exists>ps. attributeBuffers st' (attr_name pa) = Some (plain_entry (F32 ps) pa) \<and>
              length ps = 3 * msg_numPoints msg \<and>
              (\<forall>j<msg_numPoints msg. position_entry A msg bpp (attributeOffset st) j ps)"
  using assms
  by (auto simp: decode_attribute_def split: if_splits sum.splits prod.splits
           dest!: decode_position_entries)

text \<open>
  How a completed \<^verbatim>\<open>handleMessage\<close> splits at an attribute of the schema: the
  attributes before it, the attribute, the attributes after it, then the vectors.
\<close>

lemma handleMessage_split:
  assumes "handleMessage A msg = Inr res"
    and "attributes (pointAttributes msg) = pre @ pa # post"
  shows "\<exists>s1 s2 st.
           decode_attributes A msg (sum_list (map attr_byteSize (attributes (pointAttributes msg))))
             pre \<lparr> attributeOffset = 0, grid = (\<lambda>i. 0), numOccupiedCells = 0,
                   attributeBuffers = (\<lambda>k. None) \<rparr> = Inr s1 \<and>
           attributeOffset s1 = sum_list (map attr_byteSize pre) \<and>
           decode_attribute A msg (sum_list (map attr_byteSize (attributes (pointAttributes msg))))
             pa s1 = Inr s2 \<and>
           decode_attributes A msg (sum_list (map attr_byteSize (attributes (pointAttributes msg))))
             post s2 = Inr st \<and>
           attribute_vectors A (msg_numPoints msg) (vectors (pointAttributes msg))
             ((attributeBuffers st)(''INDICES'' \<mapsto> indices_entry A (msg_numPoints msg)))
             = Inr (out_attributeBuffers res) \<and>
           out_density res = fdiv A (number A (int (msg_numPoints msg)))
                                    (number A (int (numOccupiedCells st)))"
proof -
  let ?bpp = "sum_list (map attr_byteSize (attributes (pointAttributes msg)))"
  let ?s0 = "\<lparr> attributeOffset = 0, grid = (\<lambda>i. 0), numOccupiedCells = 0,
               attributeBuffers = (\<lambda>k. None) \<rparr> :: 'a decode_state"
  from assms(1) obtain st where
    st: "decode_attributes A msg ?bpp (attributes (pointAttributes msg)) ?s0 = Inr st"
    and vs: "attribute_vectors A (msg_numPoints msg) (vectors (pointAttributes msg))
               ((attributeBuffers st)(''INDICES'' \<mapsto> indices_entry A (msg_numPoints msg)))
             = Inr (out_attributeBuffers res)"
    and d: "out_density res = fdiv A (number A (int (msg_numPoints msg)))
                                    (number A (int (numOccupiedCells st)))"
    by (auto simp: handleMessage_def Let_def bytesPerPoint_sum split: sum.splits)
  from st obtain s1 s2 where
    s1: "decode_attributes A msg ?bpp pre ?s0 = Inr s1"
    and s2: "decode_attribute A msg ?bpp pa s1 = Inr s2"
    and s3: "decode_attributes A msg ?bpp post s2 = Inr st"
    unfolding assms(2) by (auto simp: decode_attributes_append split: sum.splits)
  have "attributeOffset s1 = sum_list (map attr_byteSize pre)"
    using decode_attributes_frame(1) [OF s1] by simp
  then show ?thesis using s1 s2 s3 vs d by blast
qed

lemma position_step_completes:
  assumes "j * bpp + attributeOffset st + 12 \<le> length (buffer msg)"
  shows "\<exists>ps' st'. position_step A msg bpp j (ps, st) = Inr (ps', st') \<and>
                   attributeOffset st' = attributeOffset st"
  using assms
  by (simp add: position_step_def dataview_defs Let_def split: prod.splits)

lemma decode_position_completes:
  assumes "msg_numPoints msg * bpp + attributeOffset st \<le> length (buffer msg)"
    and "12 \<le> bpp"
  shows "\<exists>ps st'. decode_position A msg bpp st = Inr (ps, st')"
proof -
  let ?P = "\<lambda>(j::nat) (p :: 'a list \<times> 'a decode_state). attributeOffset (snd p) = attributeOffset st"
  have "\<exists>s. iterate [0..<msg_numPoints msg] (position_step A msg bpp)
              (replicate (msg_numPoints msg * 3) (number A 0), st) = Inr s \<and>
            ?P (msg_numPoints msg) s"
  proof (rule iterate_total [of ?P])
    show "?P 0 (replicate (msg_numPoints msg * 3) (number A 0), st)" by simp
  next
    fix j t
    assume j: "j < msg_numPoints msg" and P: "?P j t"
    obtain p s where t: "t = (p, s)" by (cases t)
    have "j * bpp + bpp \<le> msg_numPoints msg * bpp"
      using j by (metis Suc_leI mult_Suc mult_le_mono1 add.commute)
    then have "j * bpp + attributeOffset s + 12 \<le> length (buffer msg)"
      using assms P t by simp
    from position_step_completes [OF this, where A = A and ps = p]
    show "\<exists>t'. position_step A msg bpp j t = Inr t' \<and> ?P (Suc j) t'"
      using P t by auto
  qed
  then show ?thesis unfolding decode_position_def by auto
qed

lemma position_only_completes:
  assumes "attributes (pointAttributes msg) = [pa]" and "vectors (pointAttributes msg) = []"
    and "attr_name pa = ''position'' \<or> attr_name pa = ''POSITION_CARTESIAN''"
    and "12 \<le> attr_byteSize pa"
    and "msg_numPoints msg * attr_byteSize pa \<le> length (buffer msg)"
  shows "\<exists>res. handleMessage A msg = Inr res"
proof -
  let ?s0 = "\<lparr> attributeOffset = 0, grid = (\<lambda>i. 0), numOccupiedCells = 0,
               attributeBuffers = (\<lambda>k. None) \<rparr> :: 'a decode_state"
  have "\<exists>ps st'. decode_position A msg (attr_byteSize pa) ?s0 = Inr (ps, st')"
    by (rule decode_position_completes) (use assms in simp_all)
  then show ?thesis
    using assms(1-3) by (auto simp: handleMessage_def decode_attribute_def Let_def)
qed

lemma position_buffer_entries:
  assumes "handleMessage A msg = Inr res"
    and "attributes (pointAttributes msg) = pre @ pa # post"
    and "attr_name pa = ''position'' \<or> attr_name pa = ''POSITION_CARTESIAN''"
    and "attr_name pa \<notin> attr_name ` set post"
    and "attr_name pa \<notin> vec_name ` set (vectors (pointAttributes msg))"
  shows "\<exists>ps. out_attributeBuffers res (attr_name pa) = Some (plain_entry (F32 ps) pa) \<and>
              length ps = 3 * msg_numPoints msg \<and>
              (\<forall>j<msg_numPoints msg.
                 position_entry A msg
                   (sum_list (map attr_byteSize (attributes (pointAttributes msg))))
                   (sum_list (map attr_byteSize pre)) j ps)"
proof -
  let ?bpp = "sum_list (map attr_byteSize (attributes (pointAttributes msg)))"
  from handleMessage_split [OF assms(1,2)] obtain s1 s2 st where
    off: "attributeOffset s1 = sum_list (map attr_byteSize pre)"
    and s2: "decode_attribute A msg ?bpp pa s1 = Inr s2"
    and s3: "decode_attributes A msg ?bpp post s2 = Inr st"
    and vs: "attribute_vectors A (msg_numPoints msg) (vectors (pointAttributes msg))
               ((attributeBuffers st)(''INDICES'' \<mapsto> indices_entry A (msg_numPoints msg)))
             = Inr (out_attributeBuffers res)"
    by blast
  from decode_attribute_position [OF s2 assms(3)] obtain ps where
    ps: "attributeBuffers s2 (attr_name pa) = Some (plain_entry (F32 ps) pa)"
      "length ps = 3 * msg_numPoints msg"
      "\<forall>j<msg_numPoints msg. position_entry A msg ?bpp (attributeOffset s1) j ps"
    by blast
  have "attributeBuffers st (attr_name pa) = Some (plain_entry (F32 ps) pa)"
    using decode_attributes_frame(2) [OF s3 assms(4)] ps(1) by simp
  moreover have "attr_name pa \<noteq> ''INDICES''" using assms(3) by auto
  ultimately have "out_attributeBuffers res (attr_name pa) = Some (plain_entry (F32 ps) pa)"
    using attribute_vectors_frame [OF vs assms(5)] by simp
  then show ?thesis using ps(2,3) off by auto
qed

text \<open>
  C6. When a decode of \<open>N\<close> points completes and the schema has a position attribute
  (named \<^verbatim>\<open>position\<close> or \<^verbatim>\<open>POSITION_CARTESIAN\<close>, its name not taken again by a
  later attribute or a vector), the buffer posted under its name is a
  \<^verbatim>\<open>Float32Array\<close> of exactly \<open>3 * N\<close> entries, and the entries of point \<open>j\<close> are
  the three little-endian signed 32-bit integers of the point, each computed as
  \<open>raw * scale[axis] + offset[axis] - min[axis]\<close> in the platform's arithmetic and
  rounded to a 32-bit float by the store. The attribute's bytes start at the sum of the
  byte sizes of the attributes before it. The decode of a schema with only a position
  attribute completes whenever the buffer holds the \<open>N\<close> records.
\<close>

theorem position_buffer:
  "(handleMessage A msg = Inr res \<and>
    attributes (pointAttributes msg) = pre @ pa # post \<and>
    (attr_name pa = ''position'' \<or> attr_name pa = ''POSITION_CARTESIAN'') \<and>
    attr_name pa \<notin> attr_name ` set post \<and>
    attr_name pa \<notin> vec_name ` set (vectors (pointAttributes msg)) \<longrightarrow>
      (\<exists>ps. out_attributeBuffers res (attr_name pa) = Some (plain_entry (F32 ps) pa) \<and>
            length ps = 3 * msg_numPoints msg \<and>
            (\<forall>j<msg_numPoints msg.
               position_entry A msg
                 (sum_list (map attr_byteSize (attributes (pointAttributes msg))))
                 (sum_list (map attr_byteSize pre)) j ps))) \<and>
   (attributes (pointAttributes msg) = [pa] \<and> vectors (pointAttributes msg) = [] \<and>
    (attr_name pa = ''position'' \<or> attr_name pa = ''POSITION_CARTESIAN'') \<and>
    12 \<le> attr_byteSize pa \<and>
    msg_numPoints msg * attr_byteSize pa \<le> length (buffer msg) \<longrightarrow>
      (\<exists>r. handleMessage A msg = Inr r))"
  using position_buffer_entries [of A msg res pre pa post]
    position_only_completes [of msg pa A]
  by blast

text \<open>The decode of the one-point node.\<close>

lemma msg_one_point_run:
  "\<exists>res. handleMessage binary64 msg_one_point = Inr res \<and> out_density res = PInf \<and>
         out_attributeBuffers res ''position'' =
           Some (plain_entry (F32 [Fin 1, Fin 2, Fin 3]) pa_position)"
  by (simp add: msg_one_point_def pa_position_def origin_def size64_def decoder_defs
        dataview_defs binary64_defs eval_simps)

theorem position_buffer_witness:
  "\<exists>res ps. handleMessage binary64 msg_one_point = Inr res \<and>
            out_attributeBuffers res ''position'' = Some (plain_entry (F32 ps) pa_position) \<and>
            length ps = 3 \<and> position_entry binary64 msg_one_point 12 0 0 ps"
proof -
  have a: "attributes (pointAttributes msg_one_point) = [] @ pa_position # []"
    "attributes (pointAttributes msg_one_point) = [pa_position]"
    "vectors (pointAttributes msg_one_point) = []"
    "attr_name pa_position = ''position''" "attr_byteSize pa_position = 12"
    "msg_numPoints msg_one_point = 1" "length (buffer msg_one_point) = 12"
    by (simp_all add: msg_one_point_def pa_position_def)
  from position_buffer [of binary64 msg_one_point _ "[]" pa_position "[]"] a
  obtain res where r: "handleMessage binary64 msg_one_point = Inr res"
    by auto
  from position_buffer [of binary64 msg_one_point res "[]" pa_position "[]"] a r
  show ?thesis by auto
qed

subsection \<open>Colors\<close>








subsection \<open>Generic attributes\<close>

lemma generic_step_Inr:
  assumes "generic_step A getter offs scl bpp aoff j (f32, precise) = Inr (f32', precise')"
  shows "length f32' = length f32" and "length precise' = length precise"
    and "j < length f32 \<Longrightarrow> j < length precise \<Longrightarrow>
         \<exists>val. getter (j * bpp + aoff) = Inr val \<and>
               f32' ! j = fround A (fmul A (fsub A val offs) scl) \<and> precise' ! j = val"
    and "\<forall>k<j. f32' ! k = f32 ! k \<and> precise' ! k = precise ! k"
  using assms by (auto simp: generic_step_def Let_def split: sum.splits)

lemma generic_loop_entries:
  assumes "iterate [0..<n] (generic_step A getter offs scl bpp aoff)
             (replicate n (number A 0), replicate n (number A 0)) = Inr (f32, precise)"
  shows "length f32 = n \<and> length precise = n \<and>
         (\<forall>j<n. \<exists>val. getter (j * bpp + aoff) = Inr val \<and>
                  f32 ! j = fround A (fmul A (fsub A val offs) scl) \<and> precise ! j = val)"
proof -
  let ?P = "\<lambda>j (p :: 'a list \<times> 'a list).
      length (fst p) = n \<and> length (snd p) = n \<and>
      (\<forall>i<j. \<exists>val. getter (i * bpp + aoff) = Inr val \<and>
                fst p ! i = fround A (fmul A (fsub A val offs) scl) \<and> snd p ! i = val)"
  have "?P n (f32, precise)"
  proof (rule iterate_invariant [OF assms, of ?P])
    show "?P 0 (replicate n (number A 0), replicate n (number A 0))" by simp
  next
    fix j t t'
    assume j: "j < n" and P: "?P j t"
      and b: "generic_step A getter offs scl bpp aoff j t = Inr t'"
    obtain f p where t: "t = (f, p)" by (cases t)
    obtain f' p' where t': "t' = (f', p')" by (cases t')
    note r = generic_step_Inr [OF b [unfolded t t']]
    have "j < length f" "j < length p" using j P t by simp_all
    from r(3) [OF this] r(1,2,4) P show "?P (Suc j) t'"
      unfolding t t' by (auto simp: less_Suc_eq)
  qed
  then show ?thesis by simp
qed

lemma decode_generic_entry:
  assumes "decode_generic A view bpp aoff n pa = Inr entry"
  shows "generic_entry A view bpp aoff n pa entry"
proof -
  from assms obtain getter where g: "getterMap A view (attr_type pa) = Some getter"
    by (auto simp: decode_generic_def Let_def split: option.splits)
  obtain offs scl where os: "pack_offset_scale A pa = (offs, scl)"
    by (cases "pack_offset_scale A pa")
  from assms g os obtain f32 precise where
    it: "iterate [0..<n] (generic_step A getter offs scl bpp aoff)
             (replicate n (number A 0), replicate n (number A 0)) = Inr (f32, precise)"
    and e: "entry = \<lparr> ab_buffer = F32 f32,
                  preciseBuffer = Some (typedArrayMapping (attr_type pa), precise),
                  ab_attribute = pa, ab_offset = Some offs, ab_scale = Some scl \<rparr>"
    by (auto simp: decode_generic_def Let_def split: sum.splits prod.splits)
  have "(offs, scl) =
          (if 4 < type_size (attr_type pa)
           then (fst (attr_range pa),
                 fdiv A (number A 1) (fsub A (snd (attr_range pa)) (fst (attr_range pa))))
           else (number A 0, number A 1))"
    using os by (auto simp: pack_offset_scale_def split: prod.splits)
  then show ?thesis
    unfolding generic_entry_def using g e generic_loop_entries [OF it] by blast
qed

lemma decode_attribute_generic:
  assumes "decode_attribute A msg bpp pa st = Inr st'"
    and "attr_name pa \<notin> {''POSITION_CARTESIAN'', ''position'', ''RGBA'', ''rgba''}"
  shows "\<exists>entry. attributeBuffers st' (attr_name pa) = Some entry \<and>
               generic_entry A (buffer msg) bpp (attributeOffset st) (msg_numPoints msg) pa entry"
  using assms
  by (auto simp: decode_attribute_def split: if_splits sum.splits dest!: decode_generic_entry)

text \<open>
  C4, as amended. When a decode completes, every generic attribute of the schema (not
  named as a position or a color, its name not taken again later) has a kind other than
  \<^verbatim>\<open>int64\<close> and \<^verbatim>\<open>uint64\<close>, and the entry posted under its name holds: the
  display buffer of \<open>N\<close> 32-bit floats, where the value of point \<open>j\<close> is read with the
  getter of the declared kind and stored as \<open>(value - offset) * scale\<close>; the precise
  buffer of the kind's storage class with the values themselves; and the offset and
  scale, which are the range's minimum and \<open>1 / (max - min)\<close> for a kind wider than 4
  bytes, and 0 and 1 otherwise.
\<close>

theorem generic_buffer:
  assumes "handleMessage A msg = Inr res"
    and "attributes (pointAttributes msg) = pre @ pa # post"
    and "attr_name pa \<notin> {''POSITION_CARTESIAN'', ''position'', ''RGBA'', ''rgba'', ''INDICES''}"
    and "attr_name pa \<notin> attr_name ` set post"
    and "attr_name pa \<notin> vec_name ` set (vectors (pointAttributes msg))"
  shows "attr_type pa \<noteq> DATA_TYPE_INT64 \<and> attr_type pa \<noteq> DATA_TYPE_UINT64 \<and>
         (\<exists>entry. out_attributeBuffers res (attr_name pa) = Some entry \<and>
            generic_entry A (buffer msg)
              (sum_list (map attr_byteSize (attributes (pointAttributes msg))))
              (sum_list (map attr_byteSize pre)) (msg_numPoints msg) pa entry)"
proof -
  let ?bpp = "sum_list (map attr_byteSize (attributes (pointAttributes msg)))"
  from handleMessage_split [OF assms(1,2)] obtain s1 s2 st where
    off: "attributeOffset s1 = sum_list (map attr_byteSize pre)"
    and s2: "decode_attribute A msg ?bpp pa s1 = Inr s2"
    and s3: "decode_attributes A msg ?bpp post s2 = Inr st"
    and vs: "attribute_vectors A (msg_numPoints msg) (vectors (pointAttributes msg))
               ((attributeBuffers st)(''INDICES'' \<mapsto> indices_entry A (msg_numPoints msg)))
             = Inr (out_attributeBuffers res)"
    by blast
  have nm: "attr_name pa \<notin> {''POSITION_CARTESIAN'', ''position'', ''RGBA'', ''rgba''}"
    and ni: "attr_name pa \<noteq> ''INDICES''"
    using assms(3) by auto
  from decode_attribute_generic [OF s2 nm] obtain entry where
    e: "attributeBuffers s2 (attr_name pa) = Some entry"
    and g: "generic_entry A (buffer msg) ?bpp (attributeOffset s1) (msg_numPoints msg) pa entry"
    by blast
  have "attributeBuffers st (attr_name pa) = Some entry"
    using decode_attributes_frame(2) [OF s3 assms(4)] e by simp
  then have "out_attributeBuffers res (attr_name pa) = Some entry"
    using attribute_vectors_frame [OF vs assms(5)] ni by simp
  moreover from g have "attr_type pa \<noteq> DATA_TYPE_INT64 \<and> attr_type pa \<noteq> DATA_TYPE_UINT64"
    by (auto simp: generic_entry_def)
  ultimately show ?thesis using g off by auto
qed

text \<open>
  C4, as stated, fails: a generic attribute of kind \<^verbatim>\<open>int64\<close> has no getter, and the
  decode throws before any value is read or written.
\<close>

theorem generic_int64_counterexample:
  "handleMessage binary64 (msg_generic pa_wide [1, 0, 0, 0, 0, 0, 0, 0]) = Inl TypeError"
  by (simp add: msg_generic_def pa_wide_def decoder_defs)

text \<open>The decode of one point with a double of value 1 in the range \<open>[0, 2]\<close>.\<close>

lemma msg_time_run:
  "\<exists>res. handleMessage binary64 (msg_generic pa_time [0, 0, 0, 0, 0, 0, 240, 63]) = Inr res \<and>
         out_attributeBuffers res ''gps-time'' =
           Some \<lparr> ab_buffer = F32 [Fin (1 / 2)],
                  preciseBuffer = Some (Float64Array, [Fin 1]),
                  ab_attribute = pa_time, ab_offset = Some (Fin 0), ab_scale = Some (Fin (1 / 2)) \<rparr>"
  by (simp add: msg_generic_def pa_time_def origin_def size64_def decoder_defs
        dataview_defs binary64_defs eval_simps ieee_value_def pow2_def Let_def)


theorem generic_buffer_witness:
  "\<exists>res entry.
      handleMessage binary64 (msg_generic pa_time [0, 0, 0, 0, 0, 0, 240, 63]) = Inr res \<and>
      out_attributeBuffers res ''gps-time'' = Some entry \<and>
      generic_entry binary64 [0, 0, 0, 0, 0, 0, 240, 63] 8 0 1 pa_time entry \<and>
      ab_buffer entry = F32 [Fin (1 / 2)]"
proof -
  let ?m = "msg_generic pa_time [0, 0, 0, 0, 0, 0, 240, 63]"
  from msg_time_run obtain res where r: "handleMessage binary64 ?m = Inr res"
    and e: "out_attributeBuffers res ''gps-time'' =
           Some \<lparr> ab_buffer = F32 [Fin (1 / 2)],
                  preciseBuffer = Some (Float64Array, [Fin 1]),
                  ab_attribute = pa_time, ab_offset = Some (Fin 0), ab_scale = Some (Fin (1 / 2)) \<rparr>"
    by blast
  have a: "attributes (pointAttributes ?m) = [] @ pa_time # []"
    by (simp add: msg_generic_def)
  have n: "attr_name pa_time \<notin> {''POSITION_CARTESIAN'', ''position'', ''RGBA'', ''rgba'', ''INDICES''}"
    by (simp add: pa_time_def)
  from generic_buffer [OF r a n] r e show ?thesis
    by (auto simp: msg_generic_def pa_time_def)
qed

subsection \<open>Attribute vectors\<close>













subsection \<open>The occupancy grid\<close>

text \<open>
  C3 fails on the code. For the one point at \<open>(1, 2, 3)\<close> in a node of size 64,
  \<^verbatim>\<open>toIndex\<close> gives \<open>0.5 + 32 * 1 + 1024 * 1.5 = 1568.5\<close>, which names no cell of the
  grid: the increment does nothing, every cell stays 0, no cell is counted as occupied
  and the density posted is \<open>1 / 0\<close>, which is \<^verbatim>\<open>Infinity\<close>.
\<close>

theorem occupancy_grid_misses_point:
  "toIndex binary64 size64 (Fin 1) (Fin 2) (Fin 3) = Fin (3137 / 2) \<and>
   array_index binary64 (Fin (3137 / 2)) = None \<and>
   (\<exists>ps st. decode_position binary64 msg_one_point 12
               \<lparr> attributeOffset = 0, grid = (\<lambda>i. 0), numOccupiedCells = 0,
                 attributeBuffers = (\<lambda>k. None) \<rparr> = Inr (ps, st) \<and>
             grid st = (\<lambda>i. 0) \<and> (\<Sum>i<gridSize ^ 3. unat (grid st i)) = 0 \<and>
             numOccupiedCells st = 0 \<and> msg_numPoints msg_one_point = 1) \<and>
   (\<exists>res. handleMessage binary64 msg_one_point = Inr res \<and> out_density res = PInf)"
proof -
  have "toIndex binary64 size64 (Fin 1) (Fin 2) (Fin 3) = Fin (3137 / 2)"
    by (simp add: toIndex_def size64_def gridSize_def binary64_defs)
  moreover have "array_index binary64 (Fin (3137 / 2)) = None"
    by (simp add: binary64_defs)
  moreover have "\<exists>ps st. decode_position binary64 msg_one_point 12
               \<lparr> attributeOffset = 0, grid = (\<lambda>i. 0), numOccupiedCells = 0,
                 attributeBuffers = (\<lambda>k. None) \<rparr> = Inr (ps, st) \<and>
             grid st = (\<lambda>i. 0) \<and> (\<Sum>i<gridSize ^ 3. unat (grid st i)) = 0 \<and>
             numOccupiedCells st = 0 \<and> msg_numPoints msg_one_point = 1"
    by (simp add: msg_one_point_def pa_position_def origin_def size64_def decoder_defs
          dataview_defs binary64_defs eval_simps)
  ultimately show ?thesis using msg_one_point_run by blast
qed

section \<open>The hierarchy decoder and the node loader\<close>

lemmas loader_defs = parseHierarchy_def is_array_length_def loop_range_def parse_record_def write_record_def
  add_child_def new_node_def update_node_def loadHierarchy_def send_def load_try_def load_def
  getWorker_def releaseWorker_def load_message_def vec_add_def vec_sub_def
  worker_onmessage_def node_dispose_def traverse_def loader_dispose_def octree_dispose_def

lemmas input_defs = box64_def cfg_def empty_state_def initial_state_def leaf_record_def
  two_children_record_def origin_def size64_def pa_position_def loaded_state_def tree_state_def msg_one_point_def
  fetch_fails_def fetch_23_bytes_def fetch_one_point_def parse_start_def

subsection \<open>The loop over the children\<close>

lemma rank_0: "rank m 0 = 0" by (simp add: rank_def)

lemma rank_Suc: "rank m (Suc k) = (if bit m k then Suc (rank m k) else rank m k)"
  by (simp add: rank_def)

lemma rank_mono: "k \<le> k' \<Longrightarrow> rank m k \<le> rank m k'"
  by (induction k' ) (auto simp: rank_Suc le_Suc_eq)

lemma rank_less: "k < k' \<Longrightarrow> bit m k \<Longrightarrow> rank m k < rank m k'"
proof -
  assume a: "k < k'" "bit m k"
  then have "rank m (Suc k) \<le> rank m k'" by (intro rank_mono) simp
  then show ?thesis using a(2) by (simp add: rank_Suc)
qed

lemma child_exists_iff: "((2 :: 8 word) ^ k AND m = 0) = (\<not> bit m k)"
  by (simp add: and.commute and_exp_eq_0_iff_not_bit)

lemma add_child_clear: "\<not> bit childMask k \<Longrightarrow> add_child A E c childMask ps k = ps"
  by (simp add: add_child_def child_exists_iff)

lemma add_child_set:
  assumes "bit childMask k" and "heap (world ps) c = Some current" and "c < idCount (world ps)"
  shows "add_child A E c childMask ps k =
           ps\<lparr> nodes := (nodes ps)(nodePos ps \<mapsto> idCount (world ps)),
               nodePos := nodePos ps + 1,
               world := (world ps)\<lparr>
                 heap := (heap (world ps))
                   (idCount (world ps) \<mapsto> child_node A E c current k (idCount (world ps)),
                    c \<mapsto> current\<lparr> children := (children current)[k := Some (idCount (world ps))] \<rparr>),
                 idCount := idCount (world ps) + 1 \<rparr> \<rparr>"
  using assms
  by (auto simp: add_child_def child_exists_iff new_node_def update_node_def child_node_def
        Let_def fun_upd_twist intro!: ext)

lemma child_node_children [simp]:
  "child_node A E c (current\<lparr> children := cs \<rparr>) k r = child_node A E c current k r"
  by (simp add: child_node_def)

lemma children_added_0:
  assumes "heap (world ps0) c = Some current" and "length (children current) = 8"
    and "heap_fresh (world ps0)"
  shows "children_added A E c current childMask ps0 0 ps0"
  unfolding children_added_def
proof (intro conjI)
  show "\<exists>cs. heap (world ps0) c = Some (current\<lparr> children := cs \<rparr>) \<and> length cs = 8 \<and>
         (\<forall>k<8. cs ! k = (if k < 0 \<and> bit childMask k
                           then Some (idCount (world ps0) + rank childMask k)
                           else children current ! k))"
    using assms(1,2) by (intro exI [of _ "children current"]) simp
  show "\<forall>q. idCount (world ps0) \<le> q \<longrightarrow> heap (world ps0) q = None"
    using assms(3) by (simp add: heap_fresh_def)
qed (simp_all add: rank_0)

lemma children_added_Suc:
  assumes inv: "children_added A E c current childMask ps0 m ps"
    and c: "c < idCount (world ps0)" and m: "m < 8"
  shows "children_added A E c current childMask ps0 (Suc m) (add_child A E c childMask ps m)"
proof (cases "bit childMask m")
  case False
  have "\<And>k. (k < Suc m \<and> bit childMask k) = (k < m \<and> bit childMask k)"
    using False by (auto simp: less_Suc_eq)
  then show ?thesis
    using inv False
    by (simp add: add_child_clear children_added_def rank_Suc less_Suc_eq)
next
  case True
  let ?id0 = "idCount (world ps0)"
  let ?r = "?id0 + rank childMask m"
  from inv obtain cs where
    idc: "idCount (world ps) = ?r"
    and np: "nodePos ps = nodePos ps0 + rank childMask m"
    and hc: "heap (world ps) c = Some (current\<lparr> children := cs \<rparr>)"
    and len: "length cs = 8"
    and cs: "\<forall>k<8. cs ! k = (if k < m \<and> bit childMask k
                           then Some (?id0 + rank childMask k) else children current ! k)"
    and kids: "\<forall>k<m. bit childMask k \<longrightarrow>
         heap (world ps) (?id0 + rank childMask k) =
           Some (child_node A E c current k (?id0 + rank childMask k)) \<and>
         nodes ps (nodePos ps0 + rank childMask k) = Some (?id0 + rank childMask k)"
    and frame: "\<forall>q. q \<noteq> c \<longrightarrow> q < ?id0 \<longrightarrow> heap (world ps) q = heap (world ps0) q"
    and fresh: "\<forall>q. idCount (world ps) \<le> q \<longrightarrow> heap (world ps) q = None"
    and nds: "\<forall>p<nodePos ps0. nodes ps p = nodes ps0 p"
    unfolding children_added_def by blast
  have c': "c < idCount (world ps)" using c idc by simp
  note step = add_child_set [OF True hc c', of A E]
  let ?ps' = "add_child A E c childMask ps m"
  have h': "heap (world ?ps') = (heap (world ps))
               (?r \<mapsto> child_node A E c current m ?r,
                c \<mapsto> current\<lparr> children := cs[m := Some ?r] \<rparr>)"
    unfolding step using idc by simp
  have id': "idCount (world ?ps') = ?r + 1" unfolding step using idc by simp
  have np': "nodePos ?ps' = nodePos ps + 1" unfolding step by simp
  have nd': "nodes ?ps' = (nodes ps)(nodePos ps \<mapsto> ?r)" unfolding step using idc by simp
  have cr: "c \<noteq> ?r" using c by simp
  show ?thesis
    unfolding children_added_def
  proof (intro conjI)
    show "idCount (world ?ps') = ?id0 + rank childMask (Suc m)"
      using id' True by (simp add: rank_Suc)
    show "nodePos ?ps' = nodePos ps0 + rank childMask (Suc m)"
      using np' np True by (simp add: rank_Suc)
    show "\<exists>cs'. heap (world ?ps') c = Some (current\<lparr> children := cs' \<rparr>) \<and> length cs' = 8 \<and>
         (\<forall>k<8. cs' ! k = (if k < Suc m \<and> bit childMask k
                           then Some (?id0 + rank childMask k) else children current ! k))"
    proof (intro exI [of _ "cs[m := Some ?r]"] conjI allI impI)
      show "heap (world ?ps') c = Some (current\<lparr> children := cs[m := Some ?r] \<rparr>)"
        using h' by simp
      show "length (cs[m := Some ?r]) = 8" using len by simp
      fix k :: nat assume k: "k < 8"
      show "cs[m := Some ?r] ! k = (if k < Suc m \<and> bit childMask k
                           then Some (?id0 + rank childMask k) else children current ! k)"
      proof (cases "k = m")
        case True
        then show ?thesis using len m \<open>bit childMask m\<close> by simp
      next
        case False
        then have "cs[m := Some ?r] ! k = cs ! k" by simp
        moreover have "(k < Suc m \<and> bit childMask k) = (k < m \<and> bit childMask k)"
          using False by (auto simp: less_Suc_eq)
        ultimately show ?thesis using cs k by simp
      qed
    qed
    show "\<forall>k<Suc m. bit childMask k \<longrightarrow>
         heap (world ?ps') (?id0 + rank childMask k) =
           Some (child_node A E c current k (?id0 + rank childMask k)) \<and>
         nodes ?ps' (nodePos ps0 + rank childMask k) = Some (?id0 + rank childMask k)"
    proof (intro allI impI)
      fix k assume k: "k < Suc m" and b: "bit childMask k"
      show "heap (world ?ps') (?id0 + rank childMask k) =
           Some (child_node A E c current k (?id0 + rank childMask k)) \<and>
         nodes ?ps' (nodePos ps0 + rank childMask k) = Some (?id0 + rank childMask k)"
      proof (cases "k = m")
        case True
        then show ?thesis using h' nd' np cr by simp
      next
        case False
        then have km: "k < m" using k by simp
        then have rk: "rank childMask k < rank childMask m" using b by (rule rank_less)
        then have ne: "?id0 + rank childMask k \<noteq> ?r"
          "nodePos ps0 + rank childMask k \<noteq> nodePos ps" using np by simp_all
        have "?id0 + rank childMask k \<noteq> c" using c by simp
        then show ?thesis using h' nd' ne kids km b by simp
      qed
    qed
    show "\<forall>q. q \<noteq> c \<longrightarrow> q < ?id0 \<longrightarrow> heap (world ?ps') q = heap (world ps0) q"
      using h' frame by simp
    show "\<forall>q. idCount (world ?ps') \<le> q \<longrightarrow> heap (world ?ps') q = None"
      using h' id' fresh idc c by simp
    show "\<forall>p<nodePos ps0. nodes ?ps' p = nodes ps0 p"
      using nd' nds np by simp
  qed
qed

lemma foldl_add_child:
  assumes "heap (world ps0) c = Some current" and "length (children current) = 8"
    and "heap_fresh (world ps0)" and "c < idCount (world ps0)" and "m \<le> 8"
  shows "children_added A E c current childMask ps0 m
           (foldl (add_child A E c childMask) ps0 [0..<m])"
  using assms(5)
proof (induction m)
  case 0
  then show ?case using children_added_0 [OF assms(1-3)] by simp
next
  case (Suc m)
  then have "children_added A E c current childMask ps0 m
           (foldl (add_child A E c childMask) ps0 [0..<m])" by simp
  from children_added_Suc [OF this assms(4)] Suc.prems show ?case by simp
qed

subsection \<open>One record\<close>

lemma heap_fresh_less: "heap_fresh st \<Longrightarrow> heap st c = Some n \<Longrightarrow> c < idCount st"
  by (metis heap_fresh_def not_le option.distinct(1))

lemma record_reads:
  assumes "i * 22 + 22 \<le> length view"
  shows "getUint8 view (i * 22 + 0) = Inr (view ! (i * 22))"
    and "getUint8 view (i * 22 + 1) = Inr (view ! (i * 22 + 1))"
    and "\<exists>np. getUint32 view (i * 22 + 2) = Inr np"
    and "\<exists>bo. getBigInt64 view (i * 22 + 6) = Inr bo"
    and "\<exists>bs. getBigInt64 view (i * 22 + 14) = Inr bs"
  using assms by (simp_all add: dataview_defs)

lemma write_record_fields [simp]:
  "name (write_record current rtype np bo bs) = name current"
  "spacing (write_record current rtype np bo bs) = spacing current"
  "level (write_record current rtype np bo bs) = level current"
  "children (write_record current rtype np bo bs) = children current"
  "boundingBox (write_record current rtype np bo bs) = boundingBox current"
  "nodeType (write_record current rtype np bo bs) = unat rtype"
  "loaded (write_record current rtype np bo bs) = loaded current"
  "loading (write_record current rtype np bo bs) = loading current"
  "failed (write_record current rtype np bo bs) = failed current"
  "geometry (write_record current rtype np bo bs) = geometry current"
  by (simp_all add: write_record_def)

lemma parse_record_some:
  assumes "i * 22 + 22 \<le> length view"
    and "nodes ps i = Some c" and "heap (world ps) c = Some current"
  shows "\<exists>np bo bs.
           getUint32 view (i * 22 + 2) = Inr np \<and> getBigInt64 view (i * 22 + 6) = Inr bo \<and>
           getBigInt64 view (i * 22 + 14) = Inr bs \<and>
           parse_record A E view i ps =
             (None,
              if unat (view ! (i * 22)) = 2
              then ps\<lparr> world := update_node c
                       (\<lambda>n. write_record current (view ! (i * 22)) np bo bs) (world ps) \<rparr>
              else foldl (add_child A E c (view ! (i * 22 + 1)))
                     (ps\<lparr> world := update_node c
                        (\<lambda>n. write_record current (view ! (i * 22)) np bo bs) (world ps) \<rparr>)
                     [0..<8])"
proof -
  from record_reads [OF assms(1)] obtain np bo bs where
    r: "getUint8 view (i * 22 + 0) = Inr (view ! (i * 22))"
       "getUint8 view (i * 22 + 1) = Inr (view ! (i * 22 + 1))"
       "getUint32 view (i * 22 + 2) = Inr np"
       "getBigInt64 view (i * 22 + 6) = Inr bo"
       "getBigInt64 view (i * 22 + 14) = Inr bs"
    by blast
  have "parse_record A E view i ps =
             (None,
              if unat (view ! (i * 22)) = 2
              then ps\<lparr> world := update_node c
                       (\<lambda>n. write_record current (view ! (i * 22)) np bo bs) (world ps) \<rparr>
              else foldl (add_child A E c (view ! (i * 22 + 1)))
                     (ps\<lparr> world := update_node c
                        (\<lambda>n. write_record current (view ! (i * 22)) np bo bs) (world ps) \<rparr>)
                     [0..<8])"
    unfolding parse_record_def Let_def r using assms(2,3) by (simp del: upt_Suc)
  then show ?thesis using r by blast
qed

text \<open>A record that is not a proxy runs the loop over the children.\<close>

lemma parse_record_children:
  assumes "i * 22 + 22 \<le> length view"
    and "nodes ps i = Some c" and "heap (world ps) c = Some current"
    and "length (children current) = 8" and "heap_fresh (world ps)"
    and "unat (view ! (i * 22)) \<noteq> 2"
  shows "\<exists>ps' np bo bs.
           parse_record A E view i ps = (None, ps') \<and>
           getUint32 view (i * 22 + 2) = Inr np \<and> getBigInt64 view (i * 22 + 6) = Inr bo \<and>
           getBigInt64 view (i * 22 + 14) = Inr bs \<and>
           children_added A E c (write_record current (view ! (i * 22)) np bo bs)
             (view ! (i * 22 + 1)) ps 8 ps'"
proof -
  from parse_record_some [OF assms(1-3), of A E] assms(6) obtain np bo bs where
    r: "getUint32 view (i * 22 + 2) = Inr np" "getBigInt64 view (i * 22 + 6) = Inr bo"
       "getBigInt64 view (i * 22 + 14) = Inr bs"
    and p: "parse_record A E view i ps =
             (None, foldl (add_child A E c (view ! (i * 22 + 1)))
                     (ps\<lparr> world := update_node c
                        (\<lambda>n. write_record current (view ! (i * 22)) np bo bs) (world ps) \<rparr>)
                     [0..<8])"
    by auto
  let ?typed = "write_record current (view ! (i * 22)) np bo bs"
  let ?ps1 = "ps\<lparr> world := update_node c (\<lambda>n. ?typed) (world ps) \<rparr>"
  have c: "c < idCount (world ps)" using heap_fresh_less [OF assms(5,3)] .
  have h1: "heap (world ?ps1) c = Some ?typed" using assms(3) by (simp add: update_node_def)
  have l1: "length (children ?typed) = 8" using assms(4) by simp
  have f1: "heap_fresh (world ?ps1)"
    using assms(5,3) by (auto simp: heap_fresh_def update_node_def)
  have c1: "c < idCount (world ?ps1)" using c by (simp add: update_node_def)
  have "children_added A E c ?typed (view ! (i * 22 + 1)) ?ps1 8
          (foldl (add_child A E c (view ! (i * 22 + 1))) ?ps1 [0..<8])"
    by (rule foldl_add_child [OF h1 l1 f1 c1]) simp
  moreover have "children_added A E c ?typed (view ! (i * 22 + 1)) ?ps1 8 q =
                 children_added A E c ?typed (view ! (i * 22 + 1)) ps 8 q" for q
    unfolding children_added_def by (simp add: update_node_def)
  ultimately show ?thesis using p r by auto
qed

subsection \<open>What hierarchy loading leaves alone\<close>

lemma extends_refl: "heap_fresh st \<Longrightarrow> extends st st"
  by (simp add: extends_def)

lemma extends_trans: "extends st st' \<Longrightarrow> extends st' st'' \<Longrightarrow> extends st st''"
  unfolding extends_def by (metis (no_types, lifting))

lemma add_child_extends:
  assumes "heap_fresh (world ps)"
  shows "extends (world ps) (world (add_child A E c childMask ps k))"
proof (cases "bit childMask k")
  case False
  then show ?thesis using assms by (simp add: add_child_clear extends_refl)
next
  case True
  show ?thesis
  proof (cases "heap (world ps) c")
    case None
    then show ?thesis using assms by (simp add: add_child_def extends_refl)
  next
    case (Some current)
    have c: "c < idCount (world ps)" using heap_fresh_less [OF assms Some] .
    show ?thesis
      unfolding add_child_set [OF True Some c] extends_def
    proof (intro conjI allI impI)
      show "heap_fresh
        (world (ps\<lparr> nodes := (nodes ps)(nodePos ps \<mapsto> idCount (world ps)),
               nodePos := nodePos ps + 1,
               world := (world ps)\<lparr>
                 heap := (heap (world ps))
                   (idCount (world ps) \<mapsto> child_node A E c current k (idCount (world ps)),
                    c \<mapsto> current\<lparr> children := (children current)[k := Some (idCount (world ps))] \<rparr>),
                 idCount := idCount (world ps) + 1 \<rparr> \<rparr>))"
        using assms c by (simp add: heap_fresh_def)
    next
      fix q n assume q: "heap (world ps) q = Some n"
      have "q < idCount (world ps)" using heap_fresh_less [OF assms q] .
      then show "\<exists>n'. heap (world (ps\<lparr> nodes := (nodes ps)(nodePos ps \<mapsto> idCount (world ps)),
               nodePos := nodePos ps + 1,
               world := (world ps)\<lparr>
                 heap := (heap (world ps))
                   (idCount (world ps) \<mapsto> child_node A E c current k (idCount (world ps)),
                    c \<mapsto> current\<lparr> children := (children current)[k := Some (idCount (world ps))] \<rparr>),
                 idCount := idCount (world ps) + 1 \<rparr> \<rparr>)) q = Some n' \<and>
               loaded n' = loaded n \<and> loading n' = loading n \<and>
               failed n' = failed n \<and> geometry n' = geometry n"
        using q Some by (cases "q = c") auto
    qed simp
  qed
qed

lemma foldl_add_child_extends:
  "heap_fresh (world ps) \<Longrightarrow>
   extends (world ps) (world (foldl (add_child A E c childMask) ps ks))"
proof (induction ks arbitrary: ps)
  case Nil
  then show ?case by (simp add: extends_refl)
next
  case (Cons k ks)
  have e: "extends (world ps) (world (add_child A E c childMask ps k))"
    using Cons.prems by (rule add_child_extends)
  then have "heap_fresh (world (add_child A E c childMask ps k))" by (simp add: extends_def)
  from Cons.IH [OF this] e show ?case by (auto intro: extends_trans)
qed

lemma update_node_extends:
  assumes "heap_fresh st" and "heap st c = Some current"
    and "loaded n1 = loaded current" "loading n1 = loading current"
    and "failed n1 = failed current" "geometry n1 = geometry current"
  shows "extends st (update_node c (\<lambda>n. n1) st)"
  using assms by (auto simp: extends_def update_node_def heap_fresh_def)

lemma parse_record_extends:
  assumes "heap_fresh (world ps)" and "parse_record A E view i ps = (err, ps')"
  shows "extends (world ps) (world ps')"
proof -
  have triv: "extends (world ps) (world ps)" using assms(1) by (rule extends_refl)
  show ?thesis
  proof (cases "\<exists>rtype childMask np bo bs c current.
        getUint8 view (i * 22 + 0) = Inr rtype \<and> getUint8 view (i * 22 + 1) = Inr childMask \<and>
        getUint32 view (i * 22 + 2) = Inr np \<and> getBigInt64 view (i * 22 + 6) = Inr bo \<and>
        getBigInt64 view (i * 22 + 14) = Inr bs \<and> nodes ps i = Some c \<and>
        heap (world ps) c = Some current")
    case False
    then have "ps' = ps" using assms(2)
      by (auto simp: parse_record_def Let_def split: sum.splits option.splits)
    then show ?thesis using triv by simp
  next
    case True
    then obtain rtype childMask np bo bs c current where
      r: "getUint8 view (i * 22 + 0) = Inr rtype" "getUint8 view (i * 22 + 1) = Inr childMask"
        "getUint32 view (i * 22 + 2) = Inr np" "getBigInt64 view (i * 22 + 6) = Inr bo"
        "getBigInt64 view (i * 22 + 14) = Inr bs" "nodes ps i = Some c"
        "heap (world ps) c = Some current"
      by blast
    let ?typed = "write_record current rtype np bo bs"
    let ?ps1 = "ps\<lparr> world := update_node c (\<lambda>n. ?typed) (world ps) \<rparr>"
    have e1: "extends (world ps) (world ?ps1)"
      using update_node_extends [OF assms(1) r(7), of ?typed] by simp
    then have f1: "heap_fresh (world ?ps1)" by (simp add: extends_def)
    have "ps' = ?ps1 \<or> ps' = foldl (add_child A E c childMask) ?ps1 [0..<8]"
      using assms(2) r unfolding parse_record_def Let_def
      by (auto simp del: upt_Suc split: if_splits)
    then show ?thesis
      using e1 foldl_add_child_extends [OF f1, of A E c childMask "[0..<8]"]
      by (auto intro: extends_trans)
  qed
qed

lemma for_each_extends:
  assumes "heap_fresh (world ps)" and "for_each ks (parse_record A E view) ps = (err, ps')"
  shows "extends (world ps) (world ps')"
  using assms
proof (induction ks arbitrary: ps)
  case Nil
  then show ?case by (simp add: extends_refl)
next
  case (Cons k ks)
  obtain e1 p1 where p: "parse_record A E view k ps = (e1, p1)"
    by (cases "parse_record A E view k ps")
  note x = parse_record_extends [OF Cons.prems(1) p]
  show ?case
  proof (cases e1)
    case None
    then have "for_each ks (parse_record A E view) p1 = (err, ps')"
      using Cons.prems(2) p by simp
    moreover have "heap_fresh (world p1)" using x by (simp add: extends_def)
    ultimately have "extends (world p1) (world ps')" by (rule Cons.IH [rotated])
    then show ?thesis using x by (auto intro: extends_trans)
  next
    case (Some e)
    then have "ps' = p1" using Cons.prems(2) p by simp
    then show ?thesis using x by simp
  qed
qed

lemma parseHierarchy_extends:
  assumes "heap_fresh st" and "parseHierarchy A E r buf st = (err, st')"
  shows "extends st st'"
proof (cases "is_array_length (real (length buf) / 22)")
  case False
  then have "st' = st" using assms(2) by (simp add: parseHierarchy_def)
  then show ?thesis using assms(1) by (simp add: extends_refl)
next
  case True
  let ?ps0 = "\<lparr> nodes = (\<lambda>i. None)(0 \<mapsto> r), nodePos = 1, world = st \<rparr>"
  obtain e p where p: "for_each (loop_range (real (length buf) / 22)) (parse_record A E buf) ?ps0
                        = (e, p)"
    by (cases "for_each (loop_range (real (length buf) / 22)) (parse_record A E buf) ?ps0")
  then have "st' = world p" using assms(2) True by (simp add: parseHierarchy_def)
  moreover have "extends (world ?ps0) (world p)"
    by (rule for_each_extends [OF _ p]) (simp add: assms(1))
  ultimately show ?thesis by simp
qed

lemma send_extends: "heap_fresh st \<Longrightarrow> extends st (send req st)"
  by (simp add: extends_def send_def heap_fresh_def)

lemma loadHierarchy_extends:
  assumes "heap_fresh st" and "loadHierarchy A E r st = (err, st')"
  shows "extends st st'"
proof (cases "heap st r")
  case None
  then show ?thesis using assms by (simp add: loadHierarchy_def extends_refl)
next
  case (Some n)
  let ?req = "\<lparr> req_file = HierarchyBin, req_first = hierarchyByteOffset n,
                req_last = hierarchyByteOffset n + hierarchyByteSize n - 1 \<rparr>"
  have s: "extends st (send ?req st)" using assms(1) by (rule send_extends)
  show ?thesis
  proof (cases "fetch E ?req")
    case (Inl e)
    then have "st' = send ?req st" using assms(2) Some by (simp add: loadHierarchy_def Let_def)
    then show ?thesis using s by simp
  next
    case (Inr buf)
    then have "parseHierarchy A E r buf (send ?req st) = (err, st')"
      using assms(2) Some by (simp add: loadHierarchy_def Let_def)
    moreover have "heap_fresh (send ?req st)" using s by (simp add: extends_def)
    ultimately have "extends (send ?req st) st'" by (rule parseHierarchy_extends [rotated])
    then show ?thesis using s by (auto intro: extends_trans)
  qed
qed

lemma load_try_throws_extends:
  assumes "heap_fresh st" and "load_try A E r st = (Some e, st')"
  shows "extends st st'"
proof -
  obtain e1 st1 where h: "(case heap st r of None \<Rightarrow> (Some TypeError, st)
            | Some n0 \<Rightarrow> if nodeType n0 = 2 then loadHierarchy A E r st else (None, st))
          = (e1, st1)"
    by (cases "(case heap st r of None \<Rightarrow> (Some TypeError, st)
            | Some n0 \<Rightarrow> if nodeType n0 = 2 then loadHierarchy A E r st else (None, st))")
  have x1: "extends st st1"
    using h assms(1) by (auto split: option.splits if_splits
                           intro: extends_refl loadHierarchy_extends)
  show ?thesis
  proof (cases e1)
    case (Some e')
    then have "st' = st1" using assms(2) h by (simp add: load_try_def)
    then show ?thesis using x1 by simp
  next
    case None
    have f1: "heap_fresh st1" using x1 by (simp add: extends_def)
    have "st' = st1 \<or> (\<exists>req. st' = send req st1)"
      using assms(2) h None unfolding load_try_def Let_def
      by (auto split: option.splits if_splits sum.splits prod.splits)
    then have "extends st1 st'" using f1 by (auto intro: extends_refl send_extends)
    then show ?thesis using x1 by (auto intro: extends_trans)
  qed
qed

text \<open>Hierarchy loading sends no request of its own.\<close>

lemma add_child_requests: "requests (world (add_child A E c childMask ps k)) = requests (world ps)"
  by (simp add: add_child_def Let_def new_node_def update_node_def split: option.splits)

lemma foldl_add_child_requests:
  "requests (world (foldl (add_child A E c childMask) ps ks)) = requests (world ps)"
  by (induction ks arbitrary: ps) (simp_all add: add_child_requests)

lemma parse_record_requests:
  assumes "parse_record A E view i ps = (err, ps')"
  shows "requests (world ps') = requests (world ps)"
  using assms unfolding parse_record_def Let_def
  by (auto simp: foldl_add_child_requests update_node_def simp del: upt_Suc
        split: sum.splits option.splits if_splits)

lemma for_each_requests:
  assumes "for_each ks (parse_record A E view) ps = (err, ps')"
  shows "requests (world ps') = requests (world ps)"
  using assms
proof (induction ks arbitrary: ps)
  case Nil
  then show ?case by simp
next
  case (Cons k ks)
  obtain e1 p1 where p: "parse_record A E view k ps = (e1, p1)"
    by (cases "parse_record A E view k ps")
  note x = parse_record_requests [OF p]
  show ?case
  proof (cases e1)
    case None
    then have "for_each ks (parse_record A E view) p1 = (err, ps')"
      using Cons.prems p by simp
    from Cons.IH [OF this] x show ?thesis by simp
  next
    case (Some e)
    then have "ps' = p1" using Cons.prems p by simp
    then show ?thesis using x by simp
  qed
qed

lemma parseHierarchy_requests:
  assumes "parseHierarchy A E r buf st = (err, st')"
  shows "requests st' = requests st"
proof (cases "is_array_length (real (length buf) / 22)")
  case False
  then show ?thesis using assms by (simp add: parseHierarchy_def)
next
  case True
  let ?ps0 = "\<lparr> nodes = (\<lambda>i. None)(0 \<mapsto> r), nodePos = 1, world = st \<rparr>"
  obtain e p where p: "for_each (loop_range (real (length buf) / 22)) (parse_record A E buf) ?ps0
                        = (e, p)"
    by (cases "for_each (loop_range (real (length buf) / 22)) (parse_record A E buf) ?ps0")
  then have "st' = world p" using assms True by (simp add: parseHierarchy_def)
  then show ?thesis using for_each_requests [OF p] by simp
qed

subsection \<open>The length of the hierarchy buffer\<close>

lemma not_array_length:
  assumes "\<not> 22 dvd n"
  shows "\<not> is_array_length (real n / 22)"
proof
  assume "is_array_length (real n / 22)"
  then have "of_int \<lfloor>real n / 22\<rfloor> = real n / 22" by (simp add: is_array_length_def)
  then have "real n = 22 * of_int \<lfloor>real n / 22\<rfloor>" by simp
  then have "real_of_int (int n) = real_of_int (22 * \<lfloor>real n / 22\<rfloor>)" by simp
  then have "int n = 22 * \<lfloor>real n / 22\<rfloor>" by (simp only: of_int_eq_iff)
  then have "22 dvd int n" by (metis dvd_triv_left)
  then show False using assms by presburger
qed

lemma array_length_multiple:
  assumes "k < 2 ^ 32"
  shows "is_array_length (real (22 * k) / 22)" and "loop_range (real (22 * k) / 22) = [0..<k]"
  using assms by (simp_all add: is_array_length_def loop_range_def)

lemma parseHierarchy_remainder:
  "\<not> 22 dvd length buf \<Longrightarrow> parseHierarchy A E r buf st = (Some RangeError, st)"
  by (simp add: parseHierarchy_def not_array_length)

lemma parseHierarchy_multiple:
  "length buf = 22 * k \<Longrightarrow> k < 2 ^ 32 \<Longrightarrow>
   parseHierarchy A E r buf st =
     (case for_each [0..<k] (parse_record A E buf)
             \<lparr> nodes = (\<lambda>i. None)(0 \<mapsto> r), nodePos = 1, world = st \<rparr> of
        (err, ps) \<Rightarrow> (err, world ps))"
  using array_length_multiple [of k] by (simp add: parseHierarchy_def)

subsection \<open>\<^verbatim>\<open>load\<close>\<close>

lemma load_unfold:
  assumes "heap st r = Some n" and "\<not> loading n"
  shows "load A E r st =
           (case load_try A E r (update_node r (\<lambda>n. n\<lparr> loading := True \<rparr>) st) of
              (None, st') \<Rightarrow> st'
            | (Some e, st') \<Rightarrow> update_node r (\<lambda>n. n\<lparr> loaded := False, loading := False \<rparr>) st')"
  using assms by (simp add: load_def)

lemma load_try_hierarchy:
  assumes "heap st r = Some n" and "nodeType n = 2"
    and "loadHierarchy A E r st = (Some e, st')"
  shows "load_try A E r st = (Some e, st')"
  using assms by (simp add: load_try_def)

lemma loadHierarchy_unfold:
  assumes "heap st r = Some n"
  shows "loadHierarchy A E r st =
           (case fetch E \<lparr> req_file = HierarchyBin, req_first = hierarchyByteOffset n,
                           req_last = hierarchyByteOffset n + hierarchyByteSize n - 1 \<rparr> of
              Inl e \<Rightarrow> (Some e, send \<lparr> req_file = HierarchyBin, req_first = hierarchyByteOffset n,
                           req_last = hierarchyByteOffset n + hierarchyByteSize n - 1 \<rparr> st)
            | Inr buf \<Rightarrow> parseHierarchy A E r buf
                 (send \<lparr> req_file = HierarchyBin, req_first = hierarchyByteOffset n,
                           req_last = hierarchyByteOffset n + hierarchyByteSize n - 1 \<rparr> st))"
  using assms by (simp add: loadHierarchy_def Let_def)

lemma load_try_payload:
  assumes "heap st r = Some n" and "nodeType n \<noteq> 2" and "byteSize n \<noteq> 0"
    and "fetch E \<lparr> req_file = OctreeBin, req_first = byteOffset n,
                   req_last = byteOffset n + byteSize n - 1 \<rparr> = Inl e"
  shows "load_try A E r st =
           (Some e, send \<lparr> req_file = OctreeBin, req_first = byteOffset n,
                           req_last = byteOffset n + byteSize n - 1 \<rparr> st)"
  using assms by (simp add: load_try_def Let_def)

lemma loading_node:
  assumes "heap st r = Some n"
  shows "heap (update_node r (\<lambda>n. n\<lparr> loading := True \<rparr>) st) r = Some (n\<lparr> loading := True \<rparr>)"
  using assms by (simp add: update_node_def)

lemma update_node_fresh: "heap_fresh st \<Longrightarrow> heap_fresh (update_node r f st)"
  by (auto simp: heap_fresh_def update_node_def)

text \<open>A load whose \<^verbatim>\<open>try\<close> block throws ends in the \<^verbatim>\<open>catch\<close> block.\<close>

lemma load_failure_general:
  assumes "heap_fresh st" and "heap st r = Some n" and "\<not> loading n"
    and "load_try A E r (update_node r (\<lambda>n. n\<lparr> loading := True \<rparr>) st) = (Some e, st')"
  shows "(\<exists>n'. heap (load A E r st) r = Some n' \<and> \<not> loading n' \<and> \<not> loaded n' \<and>
               failed n' = failed n \<and> geometry n' = geometry n) \<and>
         posted (load A E r st) = posted st"
proof -
  let ?st1 = "update_node r (\<lambda>n. n\<lparr> loading := True \<rparr>) st"
  have "extends ?st1 st'"
    by (rule load_try_throws_extends [OF update_node_fresh [OF assms(1)] assms(4)])
  with loading_node [OF assms(2)] obtain n1 where
    n1: "heap st' r = Some n1" "failed n1 = failed n" "geometry n1 = geometry n"
    and p: "posted st' = posted ?st1"
    unfolding extends_def by fastforce
  have "load A E r st = update_node r (\<lambda>n. n\<lparr> loaded := False, loading := False \<rparr>) st'"
    using load_unfold [OF assms(2,3)] assms(4) by simp
  then show ?thesis using n1 p by (simp add: update_node_def)
qed

text \<open>The same, with the requests that were sent.\<close>

lemma load_gave_up:
  assumes "heap_fresh st" and "heap st r = Some n" and "\<not> loading n"
    and "load_try A E r (update_node r (\<lambda>n. n\<lparr> loading := True \<rparr>) st) = (Some e, st')"
    and "requests st' = requests st @ reqs"
  shows "gave_up st r reqs (load A E r st)"
proof -
  let ?st1 = "update_node r (\<lambda>n. n\<lparr> loading := True \<rparr>) st"
  have "extends ?st1 st'"
    by (rule load_try_throws_extends [OF update_node_fresh [OF assms(1)] assms(4)])
  with loading_node [OF assms(2)] obtain n1 where
    n1: "heap st' r = Some n1" "failed n1 = failed n" "geometry n1 = geometry n"
    and p: "posted st' = posted ?st1"
    unfolding extends_def by fastforce
  have "load A E r st = update_node r (\<lambda>n. n\<lparr> loaded := False, loading := False \<rparr>) st'"
    using load_unfold [OF assms(2,3)] assms(4) by simp
  then show ?thesis using n1 p assms(2,5) by (simp add: gave_up_def update_node_def)
qed

lemma load_try_after_hierarchy:
  assumes "heap st r = Some n" and "nodeType n = 2"
    and "loadHierarchy A E r st = (None, sh)"
    and "heap sh r = Some m" and "byteSize m \<noteq> 0"
    and "fetch E (payload_request m) = Inl e"
  shows "load_try A E r st = (Some e, send (payload_request m) sh)"
  using assms by (simp add: load_try_def Let_def payload_request_def)

subsection \<open>Children per set bit\<close>

lemma leaf_record_run:
  "\<exists>st n. parseHierarchy binary64 (cfg f) 0 leaf_record (initial_state (cfg f) 22) = (None, st) \<and>
       idCount (initial_state (cfg f) 22) = 1 \<and> idCount st = 1 \<and>
       (\<forall>r. r \<noteq> 0 \<longrightarrow> heap st r = None) \<and>
       heap st 0 = Some n \<and> children n = replicate 8 None \<and> nodeType n = 0 \<and> numPoints n = 5"
  by (simp add: loader_defs input_defs dataview_defs eval_simps Let_def)

lemma two_children_record_run:
  "\<exists>st n c0 c1. parseHierarchy binary64 (cfg f) 0 two_children_record (initial_state (cfg f) 22)
         = (None, st) \<and>
       idCount (initial_state (cfg f) 22) = 1 \<and> idCount st = 3 \<and>
       (\<forall>r. 2 < r \<longrightarrow> heap st r = None) \<and>
       heap st 0 = Some n \<and>
       children n = [Some 1, Some 2, None, None, None, None, None, None] \<and>
       heap st 1 = Some c0 \<and> name c0 = ''r0'' \<and> level c0 = 1 \<and> parent c0 = Some 0 \<and>
       spacing c0 = Fin 4 \<and>
       heap st 2 = Some c1 \<and> name c1 = ''r1'' \<and> level c1 = 1 \<and> parent c1 = Some 0 \<and>
       spacing c1 = Fin 4"
  by (simp add: loader_defs input_defs dataview_defs eval_simps binary64_defs Let_def)

text \<open>
  C8. One pass of \<^verbatim>\<open>parseHierarchy\<close> over a record that is not a proxy (its type
  byte is not 2), applied to the node \<open>c\<close> of the work list, completes and creates
  exactly one node per set bit of the record's child mask: \<open>rank mask 8\<close> new nodes,
  as many new entries at the end of the work list. The child for a set bit \<open>k\<close> is in
  slot \<open>k\<close> of \<open>c\<close>, its name is the name of \<open>c\<close> followed by the digit \<open>k\<close>, its
  spacing is half the spacing of \<open>c\<close>, its level is one more, its \<open>parent\<close> is \<open>c\<close>,
  and it is on the work list; a slot whose bit is clear is as it was. A buffer of one leaf
  record with mask 0, parsed on the root alone, leaves one node; a record with mask
  \<open>0b00000011\<close> creates two children, in the slots 0 and 1.
\<close>

theorem hierarchy_children:
  "(i * 22 + 22 \<le> length view \<and> nodes ps i = Some c \<and> heap (world ps) c = Some current \<and>
    length (children current) = 8 \<and> heap_fresh (world ps) \<and> unat (view ! (i * 22)) \<noteq> 2 \<longrightarrow>
      (\<exists>ps' current'.
         parse_record A E view i ps = (None, ps') \<and>
         heap (world ps') c = Some current' \<and>
         idCount (world ps') = idCount (world ps) + rank (view ! (i * 22 + 1)) 8 \<and>
         nodePos ps' = nodePos ps + rank (view ! (i * 22 + 1)) 8 \<and>
         (\<forall>k<8.
            if bit (view ! (i * 22 + 1)) k
            then (\<exists>child.
                    children current' ! k =
                      Some (idCount (world ps) + rank (view ! (i * 22 + 1)) k) \<and>
                    heap (world ps') (idCount (world ps) + rank (view ! (i * 22 + 1)) k) =
                      Some child \<and>
                    name child = name current @ [''01234567'' ! k] \<and>
                    spacing child = fdiv A (spacing current) (number A 2) \<and>
                    level child = level current + 1 \<and>
                    parent child = Some c \<and>
                    nodes ps' (nodePos ps + rank (view ! (i * 22 + 1)) k) =
                      Some (idCount (world ps) + rank (view ! (i * 22 + 1)) k))
            else children current' ! k = children current ! k))) \<and>
   (\<exists>st n. parseHierarchy binary64 (cfg f) 0 leaf_record (initial_state (cfg f) 22) = (None, st) \<and>
       idCount (initial_state (cfg f) 22) = 1 \<and> idCount st = 1 \<and>
       (\<forall>r. r \<noteq> 0 \<longrightarrow> heap st r = None) \<and>
       heap st 0 = Some n \<and> children n = replicate 8 None) \<and>
   (\<exists>st n c0 c1. parseHierarchy binary64 (cfg f) 0 two_children_record (initial_state (cfg f) 22)
         = (None, st) \<and>
       idCount (initial_state (cfg f) 22) = 1 \<and> idCount st = 3 \<and>
       (\<forall>r. 2 < r \<longrightarrow> heap st r = None) \<and>
       heap st 0 = Some n \<and>
       children n = [Some 1, Some 2, None, None, None, None, None, None] \<and>
       heap st 1 = Some c0 \<and> name c0 = ''r0'' \<and> level c0 = 1 \<and> parent c0 = Some 0 \<and>
       heap st 2 = Some c1 \<and> name c1 = ''r1'' \<and> level c1 = 1 \<and> parent c1 = Some 0)"
proof (intro conjI impI)
  assume a: "i * 22 + 22 \<le> length view \<and> nodes ps i = Some c \<and>
    heap (world ps) c = Some current \<and>
    length (children current) = 8 \<and> heap_fresh (world ps) \<and> unat (view ! (i * 22)) \<noteq> 2"
  let ?mask = "view ! (i * 22 + 1)"
  from a have "\<exists>ps' np bo bs.
           parse_record A E view i ps = (None, ps') \<and>
           getUint32 view (i * 22 + 2) = Inr np \<and> getBigInt64 view (i * 22 + 6) = Inr bo \<and>
           getBigInt64 view (i * 22 + 14) = Inr bs \<and>
           children_added A E c (write_record current (view ! (i * 22)) np bo bs)
             ?mask ps 8 ps'"
    by (intro parse_record_children) simp_all
  then obtain ps' np bo bs where
    p: "parse_record A E view i ps = (None, ps')"
    and ca: "children_added A E c (write_record current (view ! (i * 22)) np bo bs) ?mask ps 8 ps'"
    by blast
  let ?typed = "write_record current (view ! (i * 22)) np bo bs"
  from ca obtain cs where
    idc: "idCount (world ps') = idCount (world ps) + rank ?mask 8"
    and np: "nodePos ps' = nodePos ps + rank ?mask 8"
    and hc: "heap (world ps') c = Some (?typed\<lparr> children := cs \<rparr>)"
    and cs: "\<forall>k<8. cs ! k = (if k < 8 \<and> bit ?mask k
                           then Some (idCount (world ps) + rank ?mask k)
                           else children ?typed ! k)"
    and kids: "\<forall>k<8. bit ?mask k \<longrightarrow>
         heap (world ps') (idCount (world ps) + rank ?mask k) =
           Some (child_node A E c ?typed k (idCount (world ps) + rank ?mask k)) \<and>
         nodes ps' (nodePos ps + rank ?mask k) = Some (idCount (world ps) + rank ?mask k)"
    unfolding children_added_def by blast
  have "\<forall>k<8.
            if bit ?mask k
            then (\<exists>child.
                    children (?typed\<lparr> children := cs \<rparr>) ! k =
                      Some (idCount (world ps) + rank ?mask k) \<and>
                    heap (world ps') (idCount (world ps) + rank ?mask k) = Some child \<and>
                    name child = name current @ [''01234567'' ! k] \<and>
                    spacing child = fdiv A (spacing current) (number A 2) \<and>
                    level child = level current + 1 \<and>
                    parent child = Some c \<and>
                    nodes ps' (nodePos ps + rank ?mask k) =
                      Some (idCount (world ps) + rank ?mask k))
            else children (?typed\<lparr> children := cs \<rparr>) ! k = children current ! k"
    using cs kids by (auto simp: child_node_def)
  then show "\<exists>ps' current'.
         parse_record A E view i ps = (None, ps') \<and>
         heap (world ps') c = Some current' \<and>
         idCount (world ps') = idCount (world ps) + rank ?mask 8 \<and>
         nodePos ps' = nodePos ps + rank ?mask 8 \<and>
         (\<forall>k<8.
            if bit ?mask k
            then (\<exists>child.
                    children current' ! k = Some (idCount (world ps) + rank ?mask k) \<and>
                    heap (world ps') (idCount (world ps) + rank ?mask k) = Some child \<and>
                    name child = name current @ [''01234567'' ! k] \<and>
                    spacing child = fdiv A (spacing current) (number A 2) \<and>
                    level child = level current + 1 \<and>
                    parent child = Some c \<and>
                    nodes ps' (nodePos ps + rank ?mask k) =
                      Some (idCount (world ps) + rank ?mask k))
            else children current' ! k = children current ! k)"
    using p hc idc np by blast
next
  show "\<exists>st n. parseHierarchy binary64 (cfg f) 0 leaf_record (initial_state (cfg f) 22) = (None, st) \<and>
       idCount (initial_state (cfg f) 22) = 1 \<and> idCount st = 1 \<and>
       (\<forall>r. r \<noteq> 0 \<longrightarrow> heap st r = None) \<and>
       heap st 0 = Some n \<and> children n = replicate 8 None"
    using leaf_record_run [of f] by blast
next
  show "\<exists>st n c0 c1. parseHierarchy binary64 (cfg f) 0 two_children_record (initial_state (cfg f) 22)
         = (None, st) \<and>
       idCount (initial_state (cfg f) 22) = 1 \<and> idCount st = 3 \<and>
       (\<forall>r. 2 < r \<longrightarrow> heap st r = None) \<and>
       heap st 0 = Some n \<and>
       children n = [Some 1, Some 2, None, None, None, None, None, None] \<and>
       heap st 1 = Some c0 \<and> name c0 = ''r0'' \<and> level c0 = 1 \<and> parent c0 = Some 0 \<and>
       heap st 2 = Some c1 \<and> name c1 = ''r1'' \<and> level c1 = 1 \<and> parent c1 = Some 0"
    using two_children_record_run [of f] by blast
qed

lemma rank_3: "rank 3 8 = 2" "rank 3 0 = 0" "rank 3 (Suc 0) = Suc 0"
  by (simp_all add: rank_def eval_simps bit_numeral_Bit1_Suc_iff)

theorem hierarchy_children_witness:
  "\<exists>ps' current'.
     parse_record binary64 (cfg fetch_fails) two_children_record 0 parse_start = (None, ps') \<and>
     heap (world ps') 0 = Some current' \<and> idCount (world ps') = 3 \<and> nodePos ps' = 3 \<and>
     children current' ! 0 = Some 1 \<and> children current' ! 1 = Some 2 \<and>
     children current' ! 2 = None"
proof -
  obtain current where c: "heap (world parse_start) 0 = Some current"
    and l: "length (children current) = 8" and n: "children current = replicate 8 None"
    by (simp add: parse_start_def input_defs new_node_def update_node_def)
  have h: "0 * 22 + 22 \<le> length two_children_record \<and> nodes parse_start 0 = Some 0 \<and>
    heap (world parse_start) 0 = Some current \<and> length (children current) = 8 \<and>
    heap_fresh (world parse_start) \<and> unat (two_children_record ! (0 * 22)) \<noteq> 2"
    using c l by (simp add: parse_start_def input_defs new_node_def update_node_def heap_fresh_def)
  have m: "two_children_record ! (0 * 22 + 1) = 3" by (simp add: two_children_record_def)
  have i: "idCount (world parse_start) = 1" "nodePos parse_start = 1"
    by (simp_all add: parse_start_def input_defs new_node_def update_node_def)
  have b: "bit (3 :: 8 word) 0" "bit (3 :: 8 word) 1" "\<not> bit (3 :: 8 word) 2"
    by (simp_all add: bit_numeral_Bit1_Suc_iff numeral_2_eq_2)
  from hierarchy_children [of 0 two_children_record parse_start 0 current binary64
      "cfg fetch_fails" fetch_fails] h
  obtain ps' current' where
    r: "parse_record binary64 (cfg fetch_fails) two_children_record 0 parse_start = (None, ps')"
      "heap (world ps') 0 = Some current'"
      "idCount (world ps') = idCount (world parse_start) + rank (two_children_record ! (0 * 22 + 1)) 8"
      "nodePos ps' = nodePos parse_start + rank (two_children_record ! (0 * 22 + 1)) 8"
    and k: "\<forall>k<8.
            if bit (two_children_record ! (0 * 22 + 1)) k
            then (\<exists>child.
                    children current' ! k =
                      Some (idCount (world parse_start) + rank (two_children_record ! (0 * 22 + 1)) k) \<and>
                    heap (world ps') (idCount (world parse_start) + rank (two_children_record ! (0 * 22 + 1)) k) =
                      Some child \<and>
                    name child = name current @ [''01234567'' ! k] \<and>
                    spacing child = fdiv binary64 (spacing current) (number binary64 2) \<and>
                    level child = level current + 1 \<and>
                    parent child = Some 0 \<and>
                    nodes ps' (nodePos parse_start + rank (two_children_record ! (0 * 22 + 1)) k) =
                      Some (idCount (world parse_start) + rank (two_children_record ! (0 * 22 + 1)) k))
            else children current' ! k = children current ! k"
    by blast
  from k [rule_format, of 0] k [rule_format, of 1] k [rule_format, of 2] b
  have "children current' ! 0 = Some 1" "children current' ! 1 = Some 2"
    "children current' ! 2 = None"
    unfolding m i using n by (auto simp: rank_3)
  then show ?thesis using r unfolding m i by (auto simp: rank_3)
qed

subsection \<open>The records of a hierarchy buffer\<close>

lemma rank_onto: "t < rank m K \<Longrightarrow> \<exists>k<K. bit m k \<and> rank m k = t"
proof (induction K)
  case 0
  then show ?case by (simp add: rank_0)
next
  case (Suc K)
  show ?case
  proof (cases "t < rank m K")
    case True
    from Suc.IH [OF this] show ?thesis by (auto simp: less_Suc_eq)
  next
    case False
    then have "bit m K \<and> rank m K = t" using Suc.prems by (auto simp: rank_Suc split: if_splits)
    then show ?thesis by blast
  qed
qed

lemma add_child_beyond:
  assumes "\<forall>p\<ge>nodePos ps. nodes ps p = None"
  shows "\<forall>p\<ge>nodePos (add_child A E c childMask ps k). nodes (add_child A E c childMask ps k) p = None"
  using assms by (auto simp: add_child_def Let_def new_node_def split: option.splits)

lemma foldl_add_child_beyond:
  "\<forall>p\<ge>nodePos ps. nodes ps p = None \<Longrightarrow>
   \<forall>p\<ge>nodePos (foldl (add_child A E c childMask) ps ks).
      nodes (foldl (add_child A E c childMask) ps ks) p = None"
proof (induction ks arbitrary: ps)
  case Nil
  then show ?case by simp
next
  case (Cons k ks)
  from Cons.IH [OF add_child_beyond [OF Cons.prems]] show ?case by simp
qed

lemma worklist_size_pos: "0 < worklist_size buf i"
  by (induction i) simp_all

lemma worklist_size_mono: "i \<le> j \<Longrightarrow> worklist_size buf i \<le> worklist_size buf j"
  by (induction j) (auto simp: le_Suc_eq)

lemma worklist_ref_inj:
  "r < base \<Longrightarrow> worklist_ref r base p = worklist_ref r base q \<Longrightarrow> p = q"
  by (auto simp: worklist_ref_def split: if_splits)

lemma worklist_ref_less:
  "r < base \<Longrightarrow> p < w \<Longrightarrow> worklist_ref r base p < base + w - 1"
  by (auto simp: worklist_ref_def)

lemma for_each_append:
  "for_each xs body s = (None, s') \<Longrightarrow> for_each (xs @ ys) body s = for_each ys body s'"
  by (induction xs arbitrary: s) (auto split: prod.splits option.splits)

lemma hierarchy_inv_0:
  assumes "heap_fresh st" and "heap st r = Some n" and "length (children n) = 8"
  shows "hierarchy_inv buf r n st 0 \<lparr> nodes = (\<lambda>i. None)(0 \<mapsto> r), nodePos = 1, world = st \<rparr>"
  using assms by (simp add: hierarchy_inv_def records_applied_def worklist_ref_def)

lemma hierarchy_inv_step:
  assumes inv: "hierarchy_inv buf r n st i ps" and r: "r < idCount st"
    and len: "i * 22 + 22 \<le> length buf" and i: "i < worklist_size buf i"
  shows "\<exists>ps'. parse_record A E buf i ps = (None, ps') \<and> hierarchy_inv buf r n st (Suc i) ps'"
proof -
  let ?W = "worklist_size buf"
  let ?base = "idCount st"
  let ?ref = "worklist_ref r ?base"
  let ?c = "?ref i"
  let ?wp = "\<lambda>j. j = 0 \<and> nodeType n = 2"
  from inv have np: "nodePos ps = ?W i" and fresh: "heap_fresh (world ps)"
    and nds: "\<forall>p. nodes ps p = (if p < ?W i then Some (?ref p) else None)"
    and idc: "idCount (world ps) = ?base + ?W i - 1"
    and dn: "\<forall>j<i. \<exists>m. heap (world ps) (?ref j) = Some m \<and> record_applied buf j (?wp j) m"
    and pend: "\<forall>p. i \<le> p \<and> p < ?W i \<longrightarrow>
         (\<exists>m. heap (world ps) (?ref p) = Some m \<and>
              length (children m) = 8 \<and> nodeType m = (if p = 0 then nodeType n else 0))"
    unfolding hierarchy_inv_def records_applied_def by blast+
  have ni: "nodes ps i = Some ?c" using nds i by simp
  from pend i obtain current where
    cur: "heap (world ps) ?c = Some current" "length (children current) = 8"
      "nodeType current = (if i = 0 then nodeType n else 0)"
    by blast
  have wp: "(nodeType current = 2) = ?wp i" using cur(3) by auto
  have cless: "?c < idCount (world ps)"
    using worklist_ref_less [OF r i] idc by simp
  from parse_record_some [OF len ni cur(1), of A E] obtain np0 bo bs where
    rd: "getUint32 buf (i * 22 + 2) = Inr np0" "getBigInt64 buf (i * 22 + 6) = Inr bo"
      "getBigInt64 buf (i * 22 + 14) = Inr bs"
    and pr: "parse_record A E buf i ps =
             (None,
              if unat (buf ! (i * 22)) = 2
              then ps\<lparr> world := update_node ?c
                       (\<lambda>n. write_record current (buf ! (i * 22)) np0 bo bs) (world ps) \<rparr>
              else foldl (add_child A E ?c (buf ! (i * 22 + 1)))
                     (ps\<lparr> world := update_node ?c
                        (\<lambda>n. write_record current (buf ! (i * 22)) np0 bo bs) (world ps) \<rparr>)
                     [0..<8])"
    by blast
  let ?typed = "write_record current (buf ! (i * 22)) np0 bo bs"
  let ?ps1 = "ps\<lparr> world := update_node ?c (\<lambda>n. ?typed) (world ps) \<rparr>"
  have app: "record_applied buf i (?wp i) (?typed\<lparr> children := cs \<rparr>)" for cs
    unfolding record_applied_def using rd wp
    by (auto simp: write_record_def record_type_def Let_def)
  have app0: "record_applied buf i (?wp i) ?typed"
    unfolding record_applied_def using rd wp
    by (auto simp: write_record_def record_type_def Let_def)
  have other: "?ref j \<noteq> ?c" if "j \<noteq> i" for j
    using worklist_ref_inj [OF r, of j i] that by blast
  show ?thesis
  proof (cases "unat (buf ! (i * 22)) = 2")
    case True
    then have p: "parse_record A E buf i ps = (None, ?ps1)" using pr by simp
    have W: "?W (Suc i) = ?W i" using True by (simp add: record_type_def)
    have h1: "heap (world ?ps1) = (heap (world ps))(?c \<mapsto> ?typed)"
      using cur(1) by (auto simp: update_node_def)
    have "hierarchy_inv buf r n st (Suc i) ?ps1"
      unfolding hierarchy_inv_def records_applied_def W
    proof (intro conjI allI impI)
      show "nodePos ?ps1 = ?W i" using np by simp
      show "heap_fresh (world ?ps1)"
        using fresh cur(1) by (auto simp: heap_fresh_def update_node_def)
      show "nodes ?ps1 p = (if p < ?W i then Some (?ref p) else None)" for p
        using nds by simp
      show "idCount (world ?ps1) = ?base + ?W i - 1" using idc by (simp add: update_node_def)
      show "\<exists>m. heap (world ?ps1) (?ref j) = Some m \<and> record_applied buf j (?wp j) m"
        if "j < Suc i" for j
      proof (cases "j = i")
        case True
        then show ?thesis using h1 app0 by simp
      next
        case False
        then have "j < i" using that by simp
        from dn [rule_format, OF this] show ?thesis using h1 other [OF False] by simp
      qed
      show "\<exists>m. heap (world ?ps1) (?ref p) = Some m \<and>
              length (children m) = 8 \<and> nodeType m = (if p = 0 then nodeType n else 0)"
        if "Suc i \<le> p \<and> p < ?W i" for p
      proof -
        have pi: "p \<noteq> i" and ip: "i \<le> p \<and> p < ?W i" using that by simp_all
        from pend [rule_format, OF ip] show ?thesis using h1 other [OF pi] by simp
      qed
    qed
    then show ?thesis using p by blast
  next
    case False
    let ?mask = "buf ! (i * 22 + 1)"
    let ?R = "rank ?mask 8"
    let ?ps' = "foldl (add_child A E ?c ?mask) ?ps1 [0..<8]"
    have p: "parse_record A E buf i ps = (None, ?ps')" using pr False by simp
    have W: "?W (Suc i) = ?W i + ?R"
      using False by (simp add: record_type_def record_mask_def)
    have h1: "heap (world ?ps1) ?c = Some ?typed" using cur(1) by (simp add: update_node_def)
    have l1: "length (children ?typed) = 8" using cur(2) by simp
    have f1: "heap_fresh (world ?ps1)"
      using fresh cur(1) by (auto simp: heap_fresh_def update_node_def)
    have c1: "?c < idCount (world ?ps1)" using cless by (simp add: update_node_def)
    have "children_added A E ?c ?typed ?mask ?ps1 8 ?ps'"
      by (rule foldl_add_child [OF h1 l1 f1 c1]) simp
    then obtain cs where
      idc': "idCount (world ?ps') = idCount (world ps) + ?R"
      and np': "nodePos ?ps' = nodePos ps + ?R"
      and hc': "heap (world ?ps') ?c = Some (?typed\<lparr> children := cs \<rparr>)"
      and kids: "\<forall>k<8. bit ?mask k \<longrightarrow>
         heap (world ?ps') (idCount (world ps) + rank ?mask k) =
           Some (child_node A E ?c ?typed k (idCount (world ps) + rank ?mask k)) \<and>
         nodes ?ps' (nodePos ps + rank ?mask k) = Some (idCount (world ps) + rank ?mask k)"
      and frame: "\<forall>q. q \<noteq> ?c \<longrightarrow> q < idCount (world ps) \<longrightarrow>
                      heap (world ?ps') q = heap (world ?ps1) q"
      and fresh': "\<forall>q. idCount (world ?ps') \<le> q \<longrightarrow> heap (world ?ps') q = None"
      and old: "\<forall>p<nodePos ps. nodes ?ps' p = nodes ps p"
      unfolding children_added_def by (auto simp: update_node_def)
    have frame1: "heap (world ?ps') q = heap (world ps) q"
      if "q \<noteq> ?c" "q < idCount (world ps)" for q
      using frame that by (simp add: update_node_def)
    have "\<forall>p\<ge>nodePos ?ps1. nodes ?ps1 p = None" using nds np by simp
    from foldl_add_child_beyond [OF this]
    have beyond: "\<forall>p\<ge>nodePos ?ps'. nodes ?ps' p = None" .
    have Wpos: "0 < ?W i" by (rule worklist_size_pos)
    have new: "heap (world ?ps') (?ref p) =
                 Some (child_node A E ?c ?typed k (?ref p)) \<and> nodes ?ps' p = Some (?ref p)"
      if "?W i \<le> p" "p < ?W i + ?R" "k < 8" "bit ?mask k" "rank ?mask k = p - ?W i" for p k
    proof -
      have "?ref p = idCount (world ps) + rank ?mask k"
        using that Wpos idc by (simp add: worklist_ref_def)
      moreover have "p = nodePos ps + rank ?mask k" using that np by simp
      ultimately show ?thesis using kids that(3,4) by metis
    qed
    have "hierarchy_inv buf r n st (Suc i) ?ps'"
      unfolding hierarchy_inv_def records_applied_def W
    proof (intro conjI allI impI)
      show "nodePos ?ps' = ?W i + ?R" using np' np by simp
      show "heap_fresh (world ?ps')" using fresh' by (simp add: heap_fresh_def)
      show "idCount (world ?ps') = ?base + (?W i + ?R) - 1" using idc' idc Wpos by simp
      show "nodes ?ps' p = (if p < ?W i + ?R then Some (?ref p) else None)" for p
      proof -
        consider "p < ?W i" | "?W i \<le> p" "p < ?W i + ?R" | "?W i + ?R \<le> p" by linarith
        then show ?thesis
        proof cases
          case 1
          then show ?thesis using old np nds by simp
        next
          case 2
          then have "p - ?W i < ?R" by simp
          from rank_onto [OF this] obtain k where "k < 8" "bit ?mask k" "rank ?mask k = p - ?W i"
            by blast
          from new [OF 2 this] show ?thesis using 2 by simp
        next
          case 3
          then show ?thesis using beyond np' np by simp
        qed
      qed
      show "\<exists>m. heap (world ?ps') (?ref j) = Some m \<and> record_applied buf j (?wp j) m"
        if "j < Suc i" for j
      proof (cases "j = i")
        case True
        then show ?thesis using hc' app by simp
      next
        case False
        then have ji: "j < i" using that by simp
        then have "j < ?W i" using i by simp
        then have "?ref j < idCount (world ps)"
          using worklist_ref_less [OF r, of j "?W i"] idc by simp
        then have "heap (world ?ps') (?ref j) = heap (world ps) (?ref j)"
          using frame1 other [OF False] by simp
        then show ?thesis using dn [rule_format, OF ji] by simp
      qed
      show "\<exists>m. heap (world ?ps') (?ref p) = Some m \<and>
              length (children m) = 8 \<and> nodeType m = (if p = 0 then nodeType n else 0)"
        if a: "Suc i \<le> p \<and> p < ?W i + ?R" for p
      proof (cases "p < ?W i")
        case True
        have pi: "p \<noteq> i" and ip: "i \<le> p \<and> p < ?W i" using a True by simp_all
        have "?ref p < idCount (world ps)"
          using worklist_ref_less [OF r True] idc by simp
        then have "heap (world ?ps') (?ref p) = heap (world ps) (?ref p)"
          using frame1 other [OF pi] by simp
        then show ?thesis using pend [rule_format, OF ip] by simp
      next
        case False
        then have 2: "?W i \<le> p" "p < ?W i + ?R" using a by simp_all
        then have "p - ?W i < ?R" by simp
        from rank_onto [OF this] obtain k where "k < 8" "bit ?mask k" "rank ?mask k = p - ?W i"
          by blast
        from new [OF 2 this] have
          "heap (world ?ps') (?ref p) = Some (child_node A E ?c ?typed k (?ref p))" by simp
        moreover have "p \<noteq> 0" using a by simp
        ultimately show ?thesis by (simp add: child_node_def)
      qed
    qed
    then show ?thesis using p by blast
  qed
qed

lemma for_each_records:
  assumes r: "r < idCount st" and len: "i * 22 \<le> length buf"
    and w: "\<forall>j<i. j < worklist_size buf j"
    and inv0: "hierarchy_inv buf r n st 0 ps0"
  shows "\<exists>ps. for_each [0..<i] (parse_record A E buf) ps0 = (None, ps) \<and>
              hierarchy_inv buf r n st i ps"
  using len w
proof (induction i)
  case 0
  then show ?case using inv0 by simp
next
  case (Suc i)
  then obtain ps where
    ps: "for_each [0..<i] (parse_record A E buf) ps0 = (None, ps)"
    and inv: "hierarchy_inv buf r n st i ps"
    by auto
  have "i * 22 + 22 \<le> length buf" using Suc.prems(1) by simp
  from hierarchy_inv_step [OF inv r this, of A E] Suc.prems(2) obtain ps' where
    st: "parse_record A E buf i ps = (None, ps')" and inv': "hierarchy_inv buf r n st (Suc i) ps'"
    by auto
  have "for_each [0..<Suc i] (parse_record A E buf) ps0
          = for_each [i] (parse_record A E buf) ps"
    using for_each_append [OF ps, of "[i]"] by simp
  then show ?case using st inv' by simp
qed

lemma parseHierarchy_records:
  assumes "length buf = 22 * k" and "k < 2 ^ 32"
    and "heap_fresh st" and "heap st r = Some n" and "length (children n) = 8"
    and "\<forall>i<k. i < worklist_size buf i"
  shows "\<exists>st'. parseHierarchy A E r buf st = (None, st') \<and> records_applied buf r (nodeType n = 2) st k st'"
proof -
  let ?ps0 = "\<lparr> nodes = (\<lambda>i. None)(0 \<mapsto> r), nodePos = 1, world = st \<rparr>"
  have r: "r < idCount st" using heap_fresh_less [OF assms(3,4)] .
  have "k * 22 \<le> length buf" using assms(1) by simp
  from for_each_records [OF r this assms(6) hierarchy_inv_0 [OF assms(3-5)], of A E]
  obtain ps where ps: "for_each [0..<k] (parse_record A E buf) ?ps0 = (None, ps)"
    and inv: "hierarchy_inv buf r n st k ps" by blast
  have "parseHierarchy A E r buf st = (None, world ps)"
    using parseHierarchy_multiple [OF assms(1,2), of A E r st] ps by simp
  then show ?thesis using inv by (auto simp: hierarchy_inv_def)
qed

lemma parseHierarchy_runs_out:
  assumes "length buf = 22 * k" and "k < 2 ^ 32"
    and "heap_fresh st" and "heap st r = Some n" and "length (children n) = 8"
    and "i < k" and "worklist_size buf i \<le> i" and "\<forall>j<i. j < worklist_size buf j"
  shows "\<exists>st'. parseHierarchy A E r buf st = (Some TypeError, st') \<and>
               records_applied buf r (nodeType n = 2) st i st'"
proof -
  let ?ps0 = "\<lparr> nodes = (\<lambda>i. None)(0 \<mapsto> r), nodePos = 1, world = st \<rparr>"
  have r: "r < idCount st" using heap_fresh_less [OF assms(3,4)] .
  have "i * 22 \<le> length buf" using assms(1,6) by simp
  from for_each_records [OF r this assms(8) hierarchy_inv_0 [OF assms(3-5)], of A E]
  obtain ps where ps: "for_each [0..<i] (parse_record A E buf) ?ps0 = (None, ps)"
    and inv: "hierarchy_inv buf r n st i ps" by blast
  have "nodes ps i = None" using inv assms(7) by (simp add: hierarchy_inv_def)
  moreover have "i * 22 + 22 \<le> length buf" using assms(1,6) by simp
  ultimately have t: "parse_record A E buf i ps = (Some TypeError, ps)"
    using record_reads [of i buf] by (auto simp: parse_record_def)
  have "[0..<k] = [0..<i] @ i # [Suc i..<k]"
    using assms(6) by (metis le_add1 less_imp_add_positive upt_add_eq_append upt_conv_Cons
        add_0 less_add_same_cancel1)
  then have "for_each [0..<k] (parse_record A E buf) ?ps0 = (Some TypeError, ps)"
    using for_each_append [OF ps, of "i # [Suc i..<k]"] t by simp
  then have "parseHierarchy A E r buf st = (Some TypeError, world ps)"
    using parseHierarchy_multiple [OF assms(1,2), of A E r st] by simp
  then show ?thesis using inv by (auto simp: hierarchy_inv_def)
qed

text \<open>
  C10, as amended. A hierarchy buffer whose length is not a multiple of 22 makes
  \<^verbatim>\<open>parseHierarchy\<close> throw before it reads a record (\<^verbatim>\<open>new Array\<close> of a length
  that is not an integer throws a \<^verbatim>\<open>RangeError\<close>); the load of the proxy node that
  fetched it ends in the \<^verbatim>\<open>catch\<close> block, with \<open>loading\<close> and \<open>loaded\<close> false, no
  payload request and nothing posted to a worker. A buffer of \<open>22 * k\<close> bytes is parsed
  as its \<open>k\<close> records, each applied to the node at its position of the work list, when
  every record is reached with a node in the work list. Otherwise the parse throws a
  \<^verbatim>\<open>TypeError\<close> at the first record \<open>i\<close> that has no node, with the records below
  \<open>i\<close> applied, and the load of the proxy node that fetched the buffer gives up.
\<close>

theorem hierarchy_length:
  "(\<not> 22 dvd length buf \<longrightarrow> parseHierarchy A E r buf st = (Some RangeError, st)) \<and>
   (heap st r = Some n \<and> \<not> loading n \<and> nodeType n = 2 \<and>
    fetch E \<lparr> req_file = HierarchyBin, req_first = hierarchyByteOffset n,
              req_last = hierarchyByteOffset n + hierarchyByteSize n - 1 \<rparr> = Inr buf \<and>
    \<not> 22 dvd length buf \<longrightarrow>
      (\<exists>n'. heap (load A E r st) r = Some n' \<and> \<not> loading n' \<and> \<not> loaded n') \<and>
      posted (load A E r st) = posted st \<and>
      requests (load A E r st) =
        requests st @ [\<lparr> req_file = HierarchyBin, req_first = hierarchyByteOffset n,
                         req_last = hierarchyByteOffset n + hierarchyByteSize n - 1 \<rparr>]) \<and>
   (length buf = 22 * k \<and> k < 2 ^ 32 \<and> heap_fresh st \<and> heap st r = Some n \<and>
    length (children n) = 8 \<and> (\<forall>i<k. i < worklist_size buf i) \<longrightarrow>
      (\<exists>st'. parseHierarchy A E r buf st = (None, st') \<and>
             records_applied buf r (nodeType n = 2) st k st')) \<and>
   (length buf = 22 * k \<and> k < 2 ^ 32 \<and> heap_fresh st \<and> heap st r = Some n \<and>
    length (children n) = 8 \<and> i < k \<and> worklist_size buf i \<le> i \<and>
    (\<forall>j<i. j < worklist_size buf j) \<longrightarrow>
      (\<exists>st'. parseHierarchy A E r buf st = (Some TypeError, st') \<and>
             records_applied buf r (nodeType n = 2) st i st')) \<and>
   (length buf = 22 * k \<and> k < 2 ^ 32 \<and> heap_fresh st \<and> heap st r = Some n \<and>
    length (children n) = 8 \<and> i < k \<and> worklist_size buf i \<le> i \<and>
    (\<forall>j<i. j < worklist_size buf j) \<and>
    \<not> loading n \<and> nodeType n = 2 \<and> fetch E (hierarchy_request n) = Inr buf \<longrightarrow>
      gave_up st r [hierarchy_request n] (load A E r st))"
proof (intro conjI impI)
  assume "\<not> 22 dvd length buf"
  then show "parseHierarchy A E r buf st = (Some RangeError, st)"
    by (rule parseHierarchy_remainder)
next
  let ?req = "\<lparr> req_file = HierarchyBin, req_first = hierarchyByteOffset n,
                req_last = hierarchyByteOffset n + hierarchyByteSize n - 1 \<rparr>"
  let ?st1 = "update_node r (\<lambda>n. n\<lparr> loading := True \<rparr>) st"
  assume a: "heap st r = Some n \<and> \<not> loading n \<and> nodeType n = 2 \<and>
    fetch E ?req = Inr buf \<and> \<not> 22 dvd length buf"
  have h1: "heap ?st1 r = Some (n\<lparr> loading := True \<rparr>)" using a by (simp add: loading_node)
  have "loadHierarchy A E r ?st1 = (Some RangeError, send ?req ?st1)"
    using loadHierarchy_unfold [OF h1, of A E] a by (simp add: parseHierarchy_remainder)
  then have "load_try A E r ?st1 = (Some RangeError, send ?req ?st1)"
    using load_try_hierarchy [OF h1, of A E RangeError "send ?req ?st1"] a by simp
  then have l: "load A E r st =
      update_node r (\<lambda>n. n\<lparr> loaded := False, loading := False \<rparr>) (send ?req ?st1)"
    using load_unfold [of st r n A E] a by simp
  show "\<exists>n'. heap (load A E r st) r = Some n' \<and> \<not> loading n' \<and> \<not> loaded n'"
    unfolding l using a by (simp add: update_node_def send_def)
  show "posted (load A E r st) = posted st"
    unfolding l by (simp add: update_node_def send_def)
  show "requests (load A E r st) = requests st @ [?req]"
    unfolding l by (simp add: update_node_def send_def)
next
  assume "length buf = 22 * k \<and> k < 2 ^ 32 \<and> heap_fresh st \<and> heap st r = Some n \<and>
    length (children n) = 8 \<and> (\<forall>i<k. i < worklist_size buf i)"
  then show "\<exists>st'. parseHierarchy A E r buf st = (None, st') \<and>
             records_applied buf r (nodeType n = 2) st k st'"
    by (intro parseHierarchy_records) simp_all
next
  assume "length buf = 22 * k \<and> k < 2 ^ 32 \<and> heap_fresh st \<and> heap st r = Some n \<and>
    length (children n) = 8 \<and> i < k \<and> worklist_size buf i \<le> i \<and>
    (\<forall>j<i. j < worklist_size buf j)"
  then show "\<exists>st'. parseHierarchy A E r buf st = (Some TypeError, st') \<and>
             records_applied buf r (nodeType n = 2) st i st'"
    by (intro parseHierarchy_runs_out [where k = k]) simp_all
next
  let ?req = "hierarchy_request n"
  let ?st1 = "update_node r (\<lambda>n. n\<lparr> loading := True \<rparr>) st"
  assume a: "length buf = 22 * k \<and> k < 2 ^ 32 \<and> heap_fresh st \<and> heap st r = Some n \<and>
    length (children n) = 8 \<and> i < k \<and> worklist_size buf i \<le> i \<and>
    (\<forall>j<i. j < worklist_size buf j) \<and>
    \<not> loading n \<and> nodeType n = 2 \<and> fetch E ?req = Inr buf"
  have h1: "heap ?st1 r = Some (n\<lparr> loading := True \<rparr>)" using a by (simp add: loading_node)
  have h2: "heap (send ?req ?st1) r = Some (n\<lparr> loading := True \<rparr>)"
    using h1 by (simp add: send_def)
  have f2: "heap_fresh (send ?req ?st1)"
    using a by (auto simp: heap_fresh_def send_def update_node_def)
  have "\<exists>sp. parseHierarchy A E r buf (send ?req ?st1) = (Some TypeError, sp) \<and>
           records_applied buf r (nodeType (n\<lparr> loading := True \<rparr>) = 2) (send ?req ?st1) i sp"
    using a by (intro parseHierarchy_runs_out [where k = k] f2 h2) simp_all
  then obtain sp where sp: "parseHierarchy A E r buf (send ?req ?st1) = (Some TypeError, sp)"
    by blast
  have "loadHierarchy A E r ?st1 = (Some TypeError, sp)"
    using loadHierarchy_unfold [OF h1, of A E] a sp by (simp add: hierarchy_request_def)
  then have t: "load_try A E r ?st1 = (Some TypeError, sp)"
    using load_try_hierarchy [OF h1, of A E TypeError sp] a by simp
  have "requests sp = requests st @ [?req]"
    using parseHierarchy_requests [OF sp] by (simp add: send_def update_node_def)
  from load_gave_up [OF _ _ _ t this] a
  show "gave_up st r [?req] (load A E r st)" by simp
qed

lemma initial_root:
  "\<exists>n. heap (initial_state E s) 0 = Some n \<and> \<not> loading n \<and> \<not> loaded n \<and> \<not> failed n \<and>
       nodeType n = 2 \<and> hierarchyByteOffset n = 0 \<and> hierarchyByteSize n = s \<and>
       length (children n) = 8"
  by (simp add: initial_state_def empty_state_def new_node_def update_node_def)

lemma initial_fresh: "heap_fresh (initial_state E s)"
  by (simp add: heap_fresh_def initial_state_def empty_state_def new_node_def update_node_def)

lemma rank_no_bits: "rank 0 k = 0"
  by (simp add: rank_def)

lemma three_records_sizes:
  "length three_records = 22 * 3"
  "worklist_size three_records 0 = 1"
  "worklist_size three_records (Suc 0) = 3"
  "worklist_size three_records (Suc (Suc 0)) = 3"
  by (simp_all add: three_records_def two_children_record_def leaf_record_def record_type_def
        record_mask_def rank_3 rank_no_bits)

lemma two_leaves_sizes:
  "length two_leaves = 22 * 2"
  "worklist_size two_leaves 0 = 1"
  "worklist_size two_leaves (Suc 0) = 1"
  by (simp_all add: two_leaves_def leaf_record_def record_type_def record_mask_def
        rank_no_bits)

theorem hierarchy_length_witness:
  "parseHierarchy binary64 (cfg fetch_23_bytes) 0 (leaf_record @ [0])
       (initial_state (cfg fetch_23_bytes) 23)
     = (Some RangeError, initial_state (cfg fetch_23_bytes) 23) \<and>
   (\<exists>n'. heap (load binary64 (cfg fetch_23_bytes) 0 (initial_state (cfg fetch_23_bytes) 23)) 0
            = Some n' \<and> \<not> loading n' \<and> \<not> loaded n') \<and>
   posted (load binary64 (cfg fetch_23_bytes) 0 (initial_state (cfg fetch_23_bytes) 23)) = [] \<and>
   requests (load binary64 (cfg fetch_23_bytes) 0 (initial_state (cfg fetch_23_bytes) 23))
     = [\<lparr> req_file = HierarchyBin, req_first = 0, req_last = 22 \<rparr>] \<and>
   (\<exists>st'. parseHierarchy binary64 (cfg fetch_two_leaves) 0 three_records
             (initial_state (cfg fetch_two_leaves) 66) = (None, st') \<and>
          records_applied three_records 0 True (initial_state (cfg fetch_two_leaves) 66) 3 st') \<and>
   (\<exists>st'. parseHierarchy binary64 (cfg fetch_two_leaves) 0 two_leaves
             (initial_state (cfg fetch_two_leaves) 44) = (Some TypeError, st') \<and>
          records_applied two_leaves 0 True (initial_state (cfg fetch_two_leaves) 44) 1 st') \<and>
   gave_up (initial_state (cfg fetch_two_leaves) 44) 0
     [\<lparr> req_file = HierarchyBin, req_first = 0, req_last = 43 \<rparr>]
     (load binary64 (cfg fetch_two_leaves) 0 (initial_state (cfg fetch_two_leaves) 44))"
proof -
  let ?E = "cfg fetch_23_bytes"
  let ?F = "cfg fetch_two_leaves"
  obtain n where n: "heap (initial_state ?E 23) 0 = Some n" "\<not> loading n" "nodeType n = 2"
    "hierarchyByteOffset n = 0" "hierarchyByteSize n = 23"
    using initial_root [of ?E 23] by blast
  have f: "fetch ?E \<lparr> req_file = HierarchyBin, req_first = hierarchyByteOffset n,
              req_last = hierarchyByteOffset n + hierarchyByteSize n - 1 \<rparr> = Inr (leaf_record @ [0])"
    by (simp add: cfg_def fetch_23_bytes_def)
  have "length (leaf_record @ [0]) = 23" by (simp add: leaf_record_def)
  then have d: "\<not> 22 dvd length (leaf_record @ [0])" by simp
  have p: "posted (initial_state ?E 23) = []" "requests (initial_state ?E 23) = []"
    by (simp_all add: initial_state_def empty_state_def new_node_def update_node_def)
  from hierarchy_length [where buf = "leaf_record @ [0]" and A = binary64 and E = ?E and r = 0
      and st = "initial_state ?E 23" and n = n and k = 0 and i = 0] n f d p
  have 1: "parseHierarchy binary64 ?E 0 (leaf_record @ [0]) (initial_state ?E 23)
       = (Some RangeError, initial_state ?E 23) \<and>
     (\<exists>n'. heap (load binary64 ?E 0 (initial_state ?E 23)) 0 = Some n' \<and> \<not> loading n' \<and> \<not> loaded n') \<and>
     posted (load binary64 ?E 0 (initial_state ?E 23)) = [] \<and>
     requests (load binary64 ?E 0 (initial_state ?E 23))
       = [\<lparr> req_file = HierarchyBin, req_first = 0, req_last = 22 \<rparr>]"
    by simp
  obtain m where m: "heap (initial_state ?F 66) 0 = Some m" "nodeType m = 2"
    "length (children m) = 8"
    using initial_root [of ?F 66] by blast
  have w3: "\<forall>i<3. i < worklist_size three_records i"
    using three_records_sizes by (auto simp: less_Suc_eq numeral_3_eq_3)
  from hierarchy_length [where buf = three_records and A = binary64 and E = ?F and r = 0
      and st = "initial_state ?F 66" and n = m and k = 3 and i = 0]
    m w3 three_records_sizes(1) initial_fresh [of ?F 66]
  have 2: "\<exists>st'. parseHierarchy binary64 ?F 0 three_records (initial_state ?F 66) = (None, st') \<and>
          records_applied three_records 0 True (initial_state ?F 66) 3 st'"
    by simp
  obtain l where l: "heap (initial_state ?F 44) 0 = Some l" "nodeType l = 2"
    "length (children l) = 8" "\<not> loading l" "hierarchyByteOffset l = 0"
    "hierarchyByteSize l = 44"
    using initial_root [of ?F 44] by blast
  have q: "hierarchy_request l = \<lparr> req_file = HierarchyBin, req_first = 0, req_last = 43 \<rparr>"
    using l by (simp add: hierarchy_request_def)
  have fl: "fetch ?F (hierarchy_request l) = Inr two_leaves"
    by (simp add: cfg_def fetch_two_leaves_def)
  have w1: "\<forall>j<Suc 0. j < worklist_size two_leaves j" "worklist_size two_leaves (Suc 0) \<le> Suc 0"
    using two_leaves_sizes by simp_all
  from hierarchy_length [where buf = two_leaves and A = binary64 and E = ?F and r = 0
      and st = "initial_state ?F 44" and n = l and k = 2 and i = "Suc 0"]
    l w1 two_leaves_sizes(1) initial_fresh [of ?F 44] fl q
  have 3: "(\<exists>st'. parseHierarchy binary64 ?F 0 two_leaves (initial_state ?F 44)
               = (Some TypeError, st') \<and>
          records_applied two_leaves 0 True (initial_state ?F 44) 1 st') \<and>
     gave_up (initial_state ?F 44) 0
       [\<lparr> req_file = HierarchyBin, req_first = 0, req_last = 43 \<rparr>]
       (load binary64 ?F 0 (initial_state ?F 44))"
    by simp
  from 1 2 3 show ?thesis by blast
qed

text \<open>
  C10, as stated, fails: a buffer of two leaf records has \<open>22 * 2\<close> bytes, and its
  parse on the root throws at the second record, for which the work list has no node;
  one record is applied and no node is made.
\<close>

lemma two_leaves_run:
  "\<exists>st' m. parseHierarchy binary64 (cfg f) 0 two_leaves (initial_state (cfg f) 44)
              = (Some TypeError, st') \<and>
     idCount st' = 1 \<and> heap st' 0 = Some m \<and> nodeType m = 0 \<and> numPoints m = 5 \<and>
     byteSize m = 60 \<and> (\<forall>q. q \<noteq> 0 \<longrightarrow> heap st' q = None)"
  by (simp add: two_leaves_def loader_defs input_defs dataview_defs eval_simps Let_def)

theorem hierarchy_length_counterexample:
  "length two_leaves = 22 * 2 \<and>
   (\<exists>st' m. parseHierarchy binary64 (cfg fetch_two_leaves) 0 two_leaves
               (initial_state (cfg fetch_two_leaves) 44) = (Some TypeError, st') \<and>
      idCount st' = 1 \<and> heap st' 0 = Some m \<and> nodeType m = 0 \<and> numPoints m = 5 \<and>
      byteSize m = 60 \<and> heap st' 1 = None)"
proof -
  have "length two_leaves = 22 * 2" by (simp add: two_leaves_def leaf_record_def)
  then show ?thesis using two_leaves_run [of fetch_two_leaves] by auto
qed

text \<open>
  C2, as amended. A load of a node that is not loading gives up at each step of its
  \<^verbatim>\<open>try\<close> block that fails: when the hierarchy request of a proxy rejects, when the
  parse of the hierarchy throws, when the payload request rejects after the hierarchy of
  a proxy has loaded, and when the payload request of a node that is not a proxy rejects.
  Each time the node ends neither \<open>loading\<close> nor \<open>loaded\<close>, with its \<open>failed\<close> flag
  and its geometry as they were before the call, nothing is posted to a worker, and the
  requests sent are those up to the step that failed: the node can be loaded again, and
  \<open>failed\<close> is never set.
\<close>

theorem load_failure:
  assumes "heap_fresh st" and "heap st r = Some n" and "\<not> loading n"
  shows
   "(nodeType n = 2 \<and> fetch E (hierarchy_request n) = Inl e \<longrightarrow>
       gave_up st r [hierarchy_request n] (load A E r st)) \<and>
    (nodeType n = 2 \<and> fetch E (hierarchy_request n) = Inr buf \<and>
     parseHierarchy A E r buf
       (send (hierarchy_request n) (update_node r (\<lambda>n. n\<lparr> loading := True \<rparr>) st)) = (Some e, sp) \<longrightarrow>
       gave_up st r [hierarchy_request n] (load A E r st)) \<and>
    (nodeType n = 2 \<and> fetch E (hierarchy_request n) = Inr buf \<and>
     parseHierarchy A E r buf
       (send (hierarchy_request n) (update_node r (\<lambda>n. n\<lparr> loading := True \<rparr>) st)) = (None, sh) \<and>
     heap sh r = Some m \<and> byteSize m \<noteq> 0 \<and> fetch E (payload_request m) = Inl e \<longrightarrow>
       gave_up st r [hierarchy_request n, payload_request m] (load A E r st)) \<and>
    (nodeType n \<noteq> 2 \<and> byteSize n \<noteq> 0 \<and> fetch E (payload_request n) = Inl e \<longrightarrow>
       gave_up st r [payload_request n] (load A E r st))"
proof (intro conjI impI)
  let ?st1 = "update_node r (\<lambda>n. n\<lparr> loading := True \<rparr>) st"
  let ?req = "hierarchy_request n"
  have h1: "heap ?st1 r = Some (n\<lparr> loading := True \<rparr>)" using assms(2) by (simp add: loading_node)
  have u: "loadHierarchy A E r ?st1 =
            (case fetch E ?req of Inl e \<Rightarrow> (Some e, send ?req ?st1)
             | Inr buf \<Rightarrow> parseHierarchy A E r buf (send ?req ?st1))"
    unfolding hierarchy_request_def using loadHierarchy_unfold [OF h1, of A E]
    by (simp cong: sum.case_cong)
  have rq: "requests (send ?req ?st1) = requests st @ [?req]"
    by (simp add: send_def update_node_def)
  {
    assume a: "nodeType n = 2 \<and> fetch E ?req = Inl e"
    then have "loadHierarchy A E r ?st1 = (Some e, send ?req ?st1)" using u by simp
    then have "load_try A E r ?st1 = (Some e, send ?req ?st1)"
      using load_try_hierarchy [OF h1, of A E e "send ?req ?st1"] a by simp
    from load_gave_up [OF assms this rq]
    show "gave_up st r [?req] (load A E r st)" .
  }
  {
    assume a: "nodeType n = 2 \<and> fetch E ?req = Inr buf \<and>
      parseHierarchy A E r buf (send ?req ?st1) = (Some e, sp)"
    then have "loadHierarchy A E r ?st1 = (Some e, sp)" using u by simp
    then have t: "load_try A E r ?st1 = (Some e, sp)"
      using load_try_hierarchy [OF h1, of A E e sp] a by simp
    have "requests sp = requests st @ [?req]"
      using parseHierarchy_requests [of A E r buf "send ?req ?st1" "Some e" sp] a rq by simp
    from load_gave_up [OF assms t this]
    show "gave_up st r [?req] (load A E r st)" .
  }
  {
    assume a: "nodeType n = 2 \<and> fetch E ?req = Inr buf \<and>
      parseHierarchy A E r buf (send ?req ?st1) = (None, sh) \<and>
      heap sh r = Some m \<and> byteSize m \<noteq> 0 \<and> fetch E (payload_request m) = Inl e"
    then have "loadHierarchy A E r ?st1 = (None, sh)" using u by simp
    then have t: "load_try A E r ?st1 = (Some e, send (payload_request m) sh)"
      using load_try_after_hierarchy [OF h1, of A E sh m e] a by simp
    have "requests sh = requests st @ [?req]"
      using parseHierarchy_requests [of A E r buf "send ?req ?st1" None sh] a rq by simp
    then have "requests (send (payload_request m) sh) = requests st @ [?req, payload_request m]"
      by (simp add: send_def)
    from load_gave_up [OF assms t this]
    show "gave_up st r [?req, payload_request m] (load A E r st)" .
  }
  {
    assume a: "nodeType n \<noteq> 2 \<and> byteSize n \<noteq> 0 \<and> fetch E (payload_request n) = Inl e"
    have t: "load_try A E r ?st1 = (Some e, send (payload_request n) ?st1)"
      using load_try_payload [OF h1, where A = A and E = E and e = e] a
      by (simp add: payload_request_def)
    have "requests (send (payload_request n) ?st1) = requests st @ [payload_request n]"
      by (simp add: send_def update_node_def)
    from load_gave_up [OF assms t this]
    show "gave_up st r [payload_request n] (load A E r st)" .
  }
qed


lemma load_fetch_fails:
  "load binary64 (cfg fetch_fails) 0 (initial_state (cfg fetch_fails) 22) =
     update_node 0 (\<lambda>n. n\<lparr> loaded := False, loading := False \<rparr>)
       (send \<lparr> req_file = HierarchyBin, req_first = 0, req_last = 21 \<rparr>
          (update_node 0 (\<lambda>n. n\<lparr> loading := True \<rparr>) (initial_state (cfg fetch_fails) 22)))"
  by (simp add: load_def load_try_def loadHierarchy_def initial_state_def empty_state_def
        new_node_def update_node_def cfg_def fetch_fails_def Let_def)

text \<open>
  C2, as stated, fails: the load of the root whose hierarchy fetch rejects sends its one
  request and leaves \<open>failed\<close> false.
\<close>

theorem load_failure_counterexample:
  "fetch (cfg fetch_fails) \<lparr> req_file = HierarchyBin, req_first = 0, req_last = 21 \<rparr>
     = Inl NetworkError \<and>
   requests (load binary64 (cfg fetch_fails) 0 (initial_state (cfg fetch_fails) 22))
     = [\<lparr> req_file = HierarchyBin, req_first = 0, req_last = 21 \<rparr>] \<and>
   map_option failed
     (heap (load binary64 (cfg fetch_fails) 0 (initial_state (cfg fetch_fails) 22)) 0) = Some False"
  unfolding load_fetch_fails
  by (simp add: initial_state_def empty_state_def new_node_def update_node_def cfg_def
        fetch_fails_def send_def)

lemma loaded_root:
  "\<exists>n. heap (loaded_state E) 0 = Some n \<and> \<not> loading n \<and> nodeType n = 0 \<and>
       byteOffset n = 0 \<and> byteSize n = 12"
  by (simp add: loaded_state_def initial_state_def empty_state_def new_node_def update_node_def)

lemma loaded_fresh: "heap_fresh (loaded_state E)"
  by (simp add: heap_fresh_def loaded_state_def initial_state_def empty_state_def new_node_def
        update_node_def)

lemma leaf_record_loading_run:
  "\<exists>sh m. parseHierarchy binary64 (cfg f) 0 leaf_record
            (send \<lparr> req_file = HierarchyBin, req_first = 0, req_last = 21 \<rparr>
               (update_node 0 (\<lambda>n. n\<lparr> loading := True \<rparr>) (initial_state (cfg f) 22)))
          = (None, sh) \<and>
        heap sh 0 = Some m \<and> byteOffset m = 0 \<and> byteSize m = 60 \<and> nodeType m = 0"
  by (simp add: loader_defs input_defs dataview_defs eval_simps Let_def)

theorem load_failure_witness:
  "gave_up (initial_state (cfg fetch_fails) 22) 0
     [\<lparr> req_file = HierarchyBin, req_first = 0, req_last = 21 \<rparr>]
     (load binary64 (cfg fetch_fails) 0 (initial_state (cfg fetch_fails) 22)) \<and>
   gave_up (initial_state (cfg fetch_23_bytes) 23) 0
     [\<lparr> req_file = HierarchyBin, req_first = 0, req_last = 22 \<rparr>]
     (load binary64 (cfg fetch_23_bytes) 0 (initial_state (cfg fetch_23_bytes) 23)) \<and>
   gave_up (initial_state (cfg fetch_hierarchy_only) 22) 0
     [\<lparr> req_file = HierarchyBin, req_first = 0, req_last = 21 \<rparr>,
      \<lparr> req_file = OctreeBin, req_first = 0, req_last = 59 \<rparr>]
     (load binary64 (cfg fetch_hierarchy_only) 0 (initial_state (cfg fetch_hierarchy_only) 22)) \<and>
   gave_up (loaded_state (cfg fetch_fails)) 0
     [\<lparr> req_file = OctreeBin, req_first = 0, req_last = 11 \<rparr>]
     (load binary64 (cfg fetch_fails) 0 (loaded_state (cfg fetch_fails)))"
proof (intro conjI)
  let ?E = "cfg fetch_fails"
  obtain n where n: "heap (initial_state ?E 22) 0 = Some n" "\<not> loading n" "nodeType n = 2"
    "hierarchyByteOffset n = 0" "hierarchyByteSize n = 22"
    using initial_root [of ?E 22] by blast
  have q: "hierarchy_request n = \<lparr> req_file = HierarchyBin, req_first = 0, req_last = 21 \<rparr>"
    using n by (simp add: hierarchy_request_def)
  have f: "fetch ?E (hierarchy_request n) = Inl NetworkError"
    by (simp add: cfg_def fetch_fails_def)
  from load_failure [OF initial_fresh n(1,2), where E = ?E and e = NetworkError and A = binary64] n(3) f q
  show "gave_up (initial_state ?E 22) 0
     [\<lparr> req_file = HierarchyBin, req_first = 0, req_last = 21 \<rparr>]
     (load binary64 ?E 0 (initial_state ?E 22))" by simp
next
  let ?E = "cfg fetch_23_bytes"
  obtain n where n: "heap (initial_state ?E 23) 0 = Some n" "\<not> loading n" "nodeType n = 2"
    "hierarchyByteOffset n = 0" "hierarchyByteSize n = 23"
    using initial_root [of ?E 23] by blast
  have q: "hierarchy_request n = \<lparr> req_file = HierarchyBin, req_first = 0, req_last = 22 \<rparr>"
    using n by (simp add: hierarchy_request_def)
  have f: "fetch ?E (hierarchy_request n) = Inr (leaf_record @ [0])"
    by (simp add: cfg_def fetch_23_bytes_def)
  have "length (leaf_record @ [0]) = 23" by (simp add: leaf_record_def)
  then have "\<not> 22 dvd length (leaf_record @ [0])" by simp
  then have p: "parseHierarchy binary64 ?E 0 (leaf_record @ [0])
      (send (hierarchy_request n)
         (update_node 0 (\<lambda>n. n\<lparr> loading := True \<rparr>) (initial_state ?E 23)))
    = (Some RangeError, send (hierarchy_request n)
         (update_node 0 (\<lambda>n. n\<lparr> loading := True \<rparr>) (initial_state ?E 23)))"
    by (rule parseHierarchy_remainder)
  from load_failure [OF initial_fresh n(1,2), where E = ?E and e = RangeError and
    buf = "leaf_record @ [0]" and A = binary64] n(3) f p q
  show "gave_up (initial_state ?E 23) 0
     [\<lparr> req_file = HierarchyBin, req_first = 0, req_last = 22 \<rparr>]
     (load binary64 ?E 0 (initial_state ?E 23))" by simp
next
  let ?E = "cfg fetch_hierarchy_only"
  obtain n where n: "heap (initial_state ?E 22) 0 = Some n" "\<not> loading n" "nodeType n = 2"
    "hierarchyByteOffset n = 0" "hierarchyByteSize n = 22"
    using initial_root [of ?E 22] by blast
  have q: "hierarchy_request n = \<lparr> req_file = HierarchyBin, req_first = 0, req_last = 21 \<rparr>"
    using n by (simp add: hierarchy_request_def)
  have f: "fetch ?E (hierarchy_request n) = Inr leaf_record"
    by (simp add: cfg_def fetch_hierarchy_only_def q)
  from leaf_record_loading_run [of fetch_hierarchy_only] obtain sh m where
    p: "parseHierarchy binary64 ?E 0 leaf_record
          (send (hierarchy_request n)
             (update_node 0 (\<lambda>n. n\<lparr> loading := True \<rparr>) (initial_state ?E 22))) = (None, sh)"
    and m: "heap sh 0 = Some m" "byteOffset m = 0" "byteSize m = 60"
    unfolding q by blast
  have qm: "payload_request m = \<lparr> req_file = OctreeBin, req_first = 0, req_last = 59 \<rparr>"
    using m by (simp add: payload_request_def)
  have fm: "fetch ?E (payload_request m) = Inl NetworkError"
    by (simp add: cfg_def fetch_hierarchy_only_def qm)
  from load_failure [OF initial_fresh n(1,2), where E = ?E and e = NetworkError and
    buf = leaf_record and A = binary64 and sh = sh and m = m]
    n(3) f p m fm q qm
  show "gave_up (initial_state ?E 22) 0
     [\<lparr> req_file = HierarchyBin, req_first = 0, req_last = 21 \<rparr>,
      \<lparr> req_file = OctreeBin, req_first = 0, req_last = 59 \<rparr>]
     (load binary64 ?E 0 (initial_state ?E 22))" by simp
next
  let ?E = "cfg fetch_fails"
  obtain n where n: "heap (loaded_state ?E) 0 = Some n" "\<not> loading n" "nodeType n = 0"
    "byteOffset n = 0" "byteSize n = 12"
    using loaded_root [of ?E] by blast
  have q: "payload_request n = \<lparr> req_file = OctreeBin, req_first = 0, req_last = 11 \<rparr>"
    using n by (simp add: payload_request_def)
  have f: "fetch ?E (payload_request n) = Inl NetworkError"
    by (simp add: cfg_def fetch_fails_def)
  from load_failure [OF loaded_fresh n(1,2), where E = ?E and e = NetworkError and A = binary64] n(3,5) f q
  show "gave_up (loaded_state ?E) 0
     [\<lparr> req_file = OctreeBin, req_first = 0, req_last = 11 \<rparr>]
     (load binary64 ?E 0 (loaded_state ?E))" by simp
qed

subsection \<open>The guard of \<^verbatim>\<open>load\<close>\<close>

text \<open>The half of the guard that holds: \<^verbatim>\<open>load\<close> on a node that is loading is a no-op.\<close>

lemma load_while_loading:
  "heap st r = Some n \<Longrightarrow> loading n \<Longrightarrow> load A E r st = st"
  by (simp add: load_def)

text \<open>
  C1 fails on the code for a node that is loaded and not loading: the guard tests
  \<open>loading\<close> twice and \<open>loaded\<close> never, so \<^verbatim>\<open>load\<close> on the loaded root sets
  \<open>loading\<close>, fetches the payload again and posts it to a worker.
\<close>

theorem load_on_loaded_node:
  "map_option loaded (heap (loaded_state (cfg fetch_one_point)) 0) = Some True \<and>
   map_option loading (heap (loaded_state (cfg fetch_one_point)) 0) = Some False \<and>
   requests (loaded_state (cfg fetch_one_point)) = [] \<and>
   posted (loaded_state (cfg fetch_one_point)) = [] \<and>
   requests (load binary64 (cfg fetch_one_point) 0 (loaded_state (cfg fetch_one_point)))
     = [\<lparr> req_file = OctreeBin, req_first = 0, req_last = 11 \<rparr>] \<and>
   map_option loading
     (heap (load binary64 (cfg fetch_one_point) 0 (loaded_state (cfg fetch_one_point))) 0)
     = Some True \<and>
   map fst (posted (load binary64 (cfg fetch_one_point) 0 (loaded_state (cfg fetch_one_point))))
     = [(0, DEFAULT)] \<and>
   load binary64 (cfg fetch_one_point) 0 (loaded_state (cfg fetch_one_point))
     \<noteq> loaded_state (cfg fetch_one_point)"
proof -
  let ?E = "cfg fetch_one_point"
  have r: "requests (load binary64 ?E 0 (loaded_state ?E))
     = [\<lparr> req_file = OctreeBin, req_first = 0, req_last = 11 \<rparr>]"
    by (simp add: load_def load_try_def loaded_state_def initial_state_def empty_state_def
        new_node_def update_node_def cfg_def fetch_one_point_def send_def getWorker_def Let_def)
  have r0: "requests (loaded_state ?E) = []"
    by (simp add: loaded_state_def initial_state_def empty_state_def new_node_def update_node_def)
  have "load binary64 ?E 0 (loaded_state ?E) \<noteq> loaded_state ?E"
  proof
    assume "load binary64 ?E 0 (loaded_state ?E) = loaded_state ?E"
    then have "requests (load binary64 ?E 0 (loaded_state ?E)) = requests (loaded_state ?E)"
      by simp
    then show False using r r0 by simp
  qed
  moreover have "map_option loaded (heap (loaded_state ?E) 0) = Some True"
    "map_option loading (heap (loaded_state ?E) 0) = Some False"
    "posted (loaded_state ?E) = []"
    by (simp_all add: loaded_state_def initial_state_def empty_state_def new_node_def
          update_node_def)
  moreover have "map_option loading (heap (load binary64 ?E 0 (loaded_state ?E)) 0) = Some True"
    "map fst (posted (load binary64 ?E 0 (loaded_state ?E))) = [(0, DEFAULT)]"
    by (simp_all add: load_def load_try_def loaded_state_def initial_state_def empty_state_def
        new_node_def update_node_def cfg_def fetch_one_point_def send_def getWorker_def Let_def)
  ultimately show ?thesis using r r0 by blast
qed

subsection \<open>Disposal\<close>

lemma traverse_without_includeSelf: "traverse r cb None st = Some st"
  by (simp add: traverse_def traverse_loop.simps)

lemma octree_dispose_eq:
  "octree_dispose st = Some ((loader_dispose st)\<lparr> octree_disposed := True \<rparr>)"
  by (simp add: octree_dispose_def traverse_without_includeSelf Let_def split: option.splits)

lemma tree_state_child:
  "\<exists>c. heap (tree_state (cfg f)) 1 = Some c \<and> geometry c = Some 5 \<and> loaded c \<and>
       parent c = Some 0 \<and> oneTimeDisposeHandlers c = [9] \<and> name c = ''r0'' \<and>
       og_root (tree_state (cfg f)) = Some 0 \<and>
       (\<exists>n. heap (tree_state (cfg f)) 0 = Some n \<and> children n ! 0 = Some 1) \<and>
       handlersRun (tree_state (cfg f)) = [] \<and> disposedGeometries (tree_state (cfg f)) = []"
  by (simp add: tree_state_def loader_defs input_defs dataview_defs eval_simps binary64_defs Let_def)

text \<open>
  C5 fails on the code. \<^verbatim>\<open>OctreeGeometry.dispose\<close> calls \<^verbatim>\<open>traverse\<close> without
  \<^verbatim>\<open>includeSelf\<close>, so the stack starts empty and the callback runs on no node: the
  disposal of the tree changes the workers and the two \<open>disposed\<close> flags only. In the
  tree of a root and a loaded child, the child keeps its geometry and its handler is not
  run.
\<close>

theorem octree_dispose_skips_nodes:
  "octree_dispose st = Some ((loader_dispose st)\<lparr> octree_disposed := True \<rparr>) \<and>
   (\<exists>c. heap (tree_state (cfg f)) 1 = Some c \<and> geometry c = Some 5 \<and> loaded c \<and>
        parent c = Some 0 \<and> oneTimeDisposeHandlers c = [9] \<and>
        og_root (tree_state (cfg f)) = Some 0 \<and>
        (\<exists>n. heap (tree_state (cfg f)) 0 = Some n \<and> children n ! 0 = Some 1)) \<and>
   (\<exists>st' c. octree_dispose (tree_state (cfg f)) = Some st' \<and> octree_disposed st' \<and>
        heap st' 1 = Some c \<and> geometry c = Some 5 \<and> loaded c \<and>
        oneTimeDisposeHandlers c = [9] \<and> handlersRun st' = [] \<and> disposedGeometries st' = [])"
proof -
  from tree_state_child [of f] obtain c where
    c: "heap (tree_state (cfg f)) 1 = Some c" "geometry c = Some 5" "loaded c"
       "parent c = Some 0" "oneTimeDisposeHandlers c = [9]"
       "og_root (tree_state (cfg f)) = Some 0"
       "\<exists>n. heap (tree_state (cfg f)) 0 = Some n \<and> children n ! 0 = Some 1"
       "handlersRun (tree_state (cfg f)) = []" "disposedGeometries (tree_state (cfg f)) = []"
    by blast
  have "\<exists>st' c. octree_dispose (tree_state (cfg f)) = Some st' \<and> octree_disposed st' \<and>
        heap st' 1 = Some c \<and> geometry c = Some 5 \<and> loaded c \<and>
        oneTimeDisposeHandlers c = [9] \<and> handlersRun st' = [] \<and> disposedGeometries st' = []"
    unfolding octree_dispose_eq using c by (simp add: loader_dispose_def)
  then show ?thesis using octree_dispose_eq c by blast
qed

text \<open>
  \<^verbatim>\<open>OctreeGeometryNode.dispose\<close> itself does what the disposal of the tree should do
  on each node: on a node with a geometry and a parent it frees the geometry and runs the
  handlers, once; a second call does nothing, and the root is never disposed.
\<close>

lemma node_dispose_once:
  assumes "heap st r = Some n" and "geometry n = Some g" and "parent n = Some p"
  shows "handlersRun (node_dispose r st) = handlersRun st @ oneTimeDisposeHandlers n"
    and "disposedGeometries (node_dispose r st) = disposedGeometries st @ [g]"
    and "\<exists>n'. heap (node_dispose r st) r = Some n' \<and> geometry n' = None \<and> \<not> loaded n' \<and>
              oneTimeDisposeHandlers n' = []"
    and "node_dispose r (node_dispose r st) = node_dispose r st"
  using assms by (simp_all add: node_dispose_def update_node_def)

lemma node_dispose_root:
  "heap st r = Some n \<Longrightarrow> parent n = None \<Longrightarrow> node_dispose r st = st"
  by (simp add: node_dispose_def split: option.splits)

end
